(* ===== verification/Prelude.thy ===== *)
theory Prelude
  imports Main "HOL-Library.Word" "HOL-Library.Code_Target_Nat"
begin

unbundle bit_operations_syntax

section \<open>Shared types, the execution monad and its Hoare rules\<close>

text \<open>
  What every component of the model uses: bytes and machine integers at their width, the
  faults a C++ function can end with (a thrown exception or undefined behaviour), the monad
  of state passing with faults in which the handlers are written, weakest preconditions for
  it, and generic lemmas on big-endian integers and list segments.
\<close>

subsection \<open>Bytes and machine integers\<close>

type_synonym byte = "8 word"
type_synonym u16 = "16 word"
type_synonym u32 = "32 word"
type_synonym bytes = "byte list"

text \<open>A block of raw memory, addressed from its start; its extent is kept beside it.\<close>

type_synonym mem = "nat \<Rightarrow> byte"

named_theorems wp \<open>weakest preconditions of the execution monad\<close>
named_theorems exec_simps \<open>results of the primitive steps of the execution monad\<close>

subsection \<open>Faults\<close>

text \<open>
  A C++ call ends normally, throws, or has undefined behaviour. The exception types are the
  classes the sources throw: \<open>dns::Exception\<close>, those of \<open>exceptions.hpp\<close> (which carry
  the errno), \<open>std::runtime_error\<close> and the \<open>std::out_of_range\<close> of \<open>vector::at\<close>. No
  handler of the server catches them, so a fault that leaves \<open>Server::serve\<close> ends the process.
\<close>

datatype fault =
    DnsException string
  | SocketCreationException int
  | SocketBindException int
  | SocketAcceptException int
  | SocketConnectionException int
  | IOException int
  | PollerCreationException int
  | MemoryAllocationException nat
  | RuntimeError string
  | OutOfRange
  | UndefinedBehaviour string

fun is_ub :: "fault \<Rightarrow> bool" where
  "is_ub (UndefinedBehaviour _) = True"
| "is_ub _ = False"

fun is_dns_exception :: "fault \<Rightarrow> bool" where
  "is_dns_exception (DnsException _) = True"
| "is_dns_exception _ = False"

subsection \<open>The execution monad\<close>

text \<open>A step takes a state and returns a fault or a value, and the state it leaves.\<close>

type_synonym ('s, 'a) exec = "'s \<Rightarrow> (fault + 'a) \<times> 's"

definition ret :: "'a \<Rightarrow> ('s, 'a) exec" where
  "ret x s = (Inr x, s)"

definition throw :: "fault \<Rightarrow> ('s, 'a) exec" where
  "throw e s = (Inl e, s)"

definition bnd :: "('s, 'a) exec \<Rightarrow> ('a \<Rightarrow> ('s, 'b) exec) \<Rightarrow> ('s, 'b) exec" where
  "bnd m f s = (case m s of (Inl e, s') \<Rightarrow> (Inl e, s') | (Inr x, s') \<Rightarrow> f x s')"

definition seq :: "('s, 'a) exec \<Rightarrow> ('s, 'b) exec \<Rightarrow> ('s, 'b) exec" where
  "seq m n = bnd m (\<lambda>_. n)"

definition asks :: "('s \<Rightarrow> 'a) \<Rightarrow> ('s, 'a) exec" where
  "asks f s = (Inr (f s), s)"

definition upd :: "('s \<Rightarrow> 's) \<Rightarrow> ('s, unit) exec" where
  "upd f s = (Inr (), f s)"

definition when_do :: "bool \<Rightarrow> ('s, unit) exec \<Rightarrow> ('s, unit) exec" where
  "when_do b m = (if b then m else ret ())"

primrec for_each :: "('a \<Rightarrow> ('s, unit) exec) \<Rightarrow> 'a list \<Rightarrow> ('s, unit) exec" where
  "for_each f [] = ret ()"
| "for_each f (x # xs) = seq (f x) (for_each f xs)"

primrec map_each :: "('a \<Rightarrow> ('s, 'b) exec) \<Rightarrow> 'a list \<Rightarrow> ('s, 'b list) exec" where
  "map_each f [] = ret []"
| "map_each f (x # xs) = bnd (f x) (\<lambda>y. bnd (map_each f xs) (\<lambda>ys. ret (y # ys)))"

text \<open>\<open>try\<close> with a handler for every exception; undefined behaviour is not one.\<close>

definition catch_all :: "('s, 'a) exec \<Rightarrow> ('s, 'a) exec \<Rightarrow> ('s, 'a) exec" where
  "catch_all m h s = (case m s of
     (Inl e, s') \<Rightarrow> if is_ub e then (Inl e, s') else h s' | (Inr x, s') \<Rightarrow> (Inr x, s'))"

lemma bnd_cong [fundef_cong]:
  assumes "s = s'" and "m s' = m' s'"
    and "\<And>x t. m' s' = (Inr x, t) \<Longrightarrow> f x t = f' x t"
  shows "bnd m f s = bnd m' f' s'"
  using assms by (auto simp: bnd_def split: prod.splits sum.splits)

lemma seq_cong [fundef_cong]:
  assumes "s = s'" and "m s' = m' s'"
    and "\<And>x t. m' s' = (Inr x, t) \<Longrightarrow> n t = n' t"
  shows "seq m n s = seq m' n' s'"
  using assms by (auto simp: seq_def bnd_def split: prod.splits sum.splits)

lemma ret_exec [exec_simps, simp]: "ret x s = (Inr x, s)"
  by (simp add: ret_def)

lemma throw_exec [exec_simps, simp]: "throw e s = (Inl e, s)"
  by (simp add: throw_def)

lemma asks_exec [exec_simps, simp]: "asks f s = (Inr (f s), s)"
  by (simp add: asks_def)

lemma upd_exec [exec_simps, simp]: "upd f s = (Inr (), f s)"
  by (simp add: upd_def)

lemma bnd_Inr [exec_simps]: "m s = (Inr x, t) \<Longrightarrow> bnd m f s = f x t"
  by (simp add: bnd_def)

lemma bnd_Inl [exec_simps]: "m s = (Inl e, t) \<Longrightarrow> bnd m f s = (Inl e, t)"
  by (simp add: bnd_def)

lemma seq_Inr [exec_simps]: "m s = (Inr x, t) \<Longrightarrow> seq m n s = n t"
  by (simp add: seq_def bnd_def)

lemma seq_Inl [exec_simps]: "m s = (Inl e, t) \<Longrightarrow> seq m n s = (Inl e, t)"
  by (simp add: seq_def bnd_def)

lemma when_do_exec [exec_simps]: "when_do b m s = (if b then m s else (Inr (), s))"
  by (simp add: when_do_def)

lemma bnd_ret [simp]: "bnd (ret x) f = f x"
  by (rule ext) (simp add: bnd_def)

lemma bnd_throw [simp]: "bnd (throw e) f = throw e"
  by (rule ext) (simp add: bnd_def)

text \<open>
  The simplifier contracts \<open>ret x s = (Inr x, s)\<close> to \<open>ret x = Pair (Inr x)\<close>; the rules for
  that form.
\<close>

lemma bnd_Pair [simp]:
  "bnd (Pair (Inr x)) f = f x" "bnd (Pair (Inl e)) f = Pair (Inl e)"
  by (rule ext, simp add: bnd_def)+

lemma seq_ret [simp]:
  "seq (ret x) n = n" "seq (Pair (Inr x)) n = n" "seq (throw e) n = Pair (Inl e)"
  "seq (Pair (Inl e)) n = Pair (Inl e)"
  by (rule ext, simp add: seq_def bnd_def)+

lemma bnd_assoc: "bnd (bnd m f) g = bnd m (\<lambda>x. bnd (f x) g)"
  by (rule ext) (simp add: bnd_def split: prod.splits sum.splits)

text \<open>Every result of a bind comes from one of its two parts.\<close>

lemma bnd_InrE:
  assumes "bnd m f s = (Inr y, s'')"
  obtains x s' where "m s = (Inr x, s')" and "f x s' = (Inr y, s'')"
  using assms by (auto simp: bnd_def split: prod.splits sum.splits)

lemma seq_InrE:
  assumes "seq m n s = (Inr y, s'')"
  obtains x s' where "m s = (Inr x, s')" and "n s' = (Inr y, s'')"
  using assms by (auto simp: seq_def elim: bnd_InrE)

lemma bnd_InlE:
  assumes "bnd m f s = (Inl e, s'')"
  obtains "m s = (Inl e, s'')"
  | x s' where "m s = (Inr x, s')" and "f x s' = (Inl e, s'')"
  using assms by (auto simp: bnd_def split: prod.splits sum.splits)

text \<open>A loop that collects results runs as the loop that drops them.\<close>

lemma map_each_for_each:
  assumes "map_each f xs s = (Inr ys, s')"
  shows "for_each (\<lambda>x. bnd (f x) (\<lambda>_. ret ())) xs s = (Inr (), s')"
  using assms
proof (induction xs arbitrary: s ys)
  case (Cons x xs)
  from Cons.prems obtain y t zs where "f x s = (Inr y, t)" and "map_each f xs t = (Inr zs, s')"
    by (auto elim!: bnd_InrE)
  with Cons.IH show ?case by (simp add: seq_def bnd_def)
qed simp

subsection \<open>Weakest preconditions\<close>

text \<open>
  \<open>wpre m Q E s\<close>: from \<open>s\<close>, \<open>m\<close> either returns a value and a state that satisfy
  \<open>Q\<close>, or ends with a fault and a state that satisfy \<open>E\<close>.
\<close>

definition wpre :: "('s, 'a) exec \<Rightarrow> ('a \<Rightarrow> 's \<Rightarrow> bool) \<Rightarrow> (fault \<Rightarrow> 's \<Rightarrow> bool) \<Rightarrow> 's \<Rightarrow> bool" where
  "wpre m Q E s = (case m s of (Inl e, s') \<Rightarrow> E e s' | (Inr x, s') \<Rightarrow> Q x s')"

lemma wpre_ret [wp]: "wpre (ret x) Q E s = Q x s"
  by (simp add: wpre_def)

lemma wpre_throw [wp]: "wpre (throw e) Q E s = E e s"
  by (simp add: wpre_def)

lemma wpre_Pair [wp]: "wpre (Pair (Inr x)) Q E s = Q x s" "wpre (Pair (Inl e)) Q E s = E e s"
  by (simp_all add: wpre_def)

lemma wpre_asks [wp]: "wpre (asks f) Q E s = Q (f s) s"
  by (simp add: wpre_def)

lemma wpre_upd [wp]: "wpre (upd f) Q E s = Q () (f s)"
  by (simp add: wpre_def)

lemma wpre_bnd [wp]: "wpre (bnd m f) Q E s = wpre m (\<lambda>x. wpre (f x) Q E) E s"
  by (simp add: wpre_def bnd_def split: prod.splits sum.splits)

lemma wpre_seq [wp]: "wpre (seq m n) Q E s = wpre m (\<lambda>_. wpre n Q E) E s"
  by (simp add: seq_def wpre_bnd)

lemma wpre_when_do [wp]:
  "wpre (when_do b m) Q E s = (if b then wpre m Q E s else Q () s)"
  by (simp add: when_do_def wpre_ret)

lemma wpre_catch_all [wp]:
  "wpre (catch_all m h) Q E s = wpre m Q (\<lambda>e t. if is_ub e then E e t else wpre h Q E t) s"
  by (simp add: wpre_def catch_all_def split: prod.splits sum.splits)

lemma wpre_if [wp]:
  "wpre (if b then m else n) Q E s = (if b then wpre m Q E s else wpre n Q E s)"
  by simp

lemma wpre_mono:
  assumes "wpre m Q E s" and "\<And>x t. Q x t \<Longrightarrow> Q' x t" and "\<And>e t. E e t \<Longrightarrow> E' e t"
  shows "wpre m Q' E' s"
  using assms by (auto simp: wpre_def split: prod.splits sum.splits)

lemma wpre_InrD: "wpre m Q E s \<Longrightarrow> m s = (Inr x, t) \<Longrightarrow> Q x t"
  by (simp add: wpre_def)

lemma wpre_InlD: "wpre m Q E s \<Longrightarrow> m s = (Inl e, t) \<Longrightarrow> E e t"
  by (simp add: wpre_def)

text \<open>
  \<open>keeps P m\<close>: \<open>m\<close> preserves \<open>P\<close>, whether it returns or faults. It is closed under
  the combinators, so an invariant of a handler follows from that of its primitive steps.
\<close>

definition keeps :: "('s \<Rightarrow> bool) \<Rightarrow> ('s, 'a) exec \<Rightarrow> bool" where
  "keeps P m \<longleftrightarrow> (\<forall>s. P s \<longrightarrow> P (snd (m s)))"

lemma keepsD: "keeps P m \<Longrightarrow> P s \<Longrightarrow> m s = (r, t) \<Longrightarrow> P t"
  by (auto simp: keeps_def dest: spec [of _ s])

lemma keeps_ret [intro, simp]: "keeps P (ret x)"
  by (simp add: keeps_def)

lemma keeps_throw [intro, simp]: "keeps P (throw e)"
  by (simp add: keeps_def)

lemma keeps_Pair [intro, simp]: "keeps P (Pair r)"
  by (simp add: keeps_def)

lemma keeps_asks [intro, simp]: "keeps P (asks f)"
  by (simp add: keeps_def)

lemma keeps_upd [intro]: "(\<And>s. P s \<Longrightarrow> P (f s)) \<Longrightarrow> keeps P (upd f)"
  by (simp add: keeps_def)

lemma keeps_bnd [intro]:
  assumes "keeps P m" and "\<And>x. keeps P (f x)"
  shows "keeps P (bnd m f)"
  unfolding keeps_def
proof (intro allI impI)
  fix s assume "P s"
  obtain r t where m: "m s = (r, t)" by (cases "m s")
  with assms(1) \<open>P s\<close> have "P t" by (rule keepsD)
  with m assms(2) show "P (snd (bnd m f s))"
    by (cases r) (auto simp: bnd_def keeps_def)
qed

lemma keeps_seq [intro]: "keeps P m \<Longrightarrow> keeps P n \<Longrightarrow> keeps P (seq m n)"
  by (auto simp: seq_def)

lemma keeps_if [intro]: "keeps P m \<Longrightarrow> keeps P n \<Longrightarrow> keeps P (if b then m else n)"
  by simp

lemma keeps_option [intro]:
  "keeps P m \<Longrightarrow> (\<And>x. keeps P (f x)) \<Longrightarrow> keeps P (case v of None \<Rightarrow> m | Some x \<Rightarrow> f x)"
  by (cases v) simp_all

lemma keeps_when_do [intro]: "keeps P m \<Longrightarrow> keeps P (when_do b m)"
  by (simp add: when_do_def)

lemma keeps_catch_all [intro]:
  assumes "keeps P m" and "keeps P h"
  shows "keeps P (catch_all m h)"
  unfolding keeps_def
proof (intro allI impI)
  fix s assume "P s"
  obtain r t where m: "m s = (r, t)" by (cases "m s")
  with assms(1) \<open>P s\<close> have "P t" by (rule keepsD)
  with m assms(2) show "P (snd (catch_all m h s))"
    by (cases r) (auto simp: catch_all_def keeps_def)
qed

lemma keeps_for_each [intro]: "(\<And>x. keeps P (f x)) \<Longrightarrow> keeps P (for_each f xs)"
  by (induction xs) auto

text \<open>
  \<open>raises F m\<close>: the faults of \<open>m\<close> are in \<open>F\<close>. Closed under the combinators as well.
\<close>

named_theorems raising \<open>which faults a step ends with\<close>

definition raises :: "(fault \<Rightarrow> bool) \<Rightarrow> ('s, 'a) exec \<Rightarrow> bool" where
  "raises F m \<longleftrightarrow> (\<forall>s e t. m s = (Inl e, t) \<longrightarrow> F e)"

lemma raisesI: "(\<And>s e t. m s = (Inl e, t) \<Longrightarrow> F e) \<Longrightarrow> raises F m"
  by (auto simp: raises_def)

lemma raisesD: "raises F m \<Longrightarrow> m s = (Inl e, t) \<Longrightarrow> F e"
  by (auto simp: raises_def)

lemma raises_ret [raising]: "raises F (ret x)" "raises F (Pair (Inr x))"
  by (simp_all add: raises_def)

lemma raises_throw [raising]: "F e \<Longrightarrow> raises F (throw e)"
  by (simp add: raises_def)

lemma raises_asks [raising]: "raises F (asks f)"
  by (simp add: raises_def)

lemma raises_upd [raising]: "raises F (upd f)"
  by (simp add: raises_def)

lemma raises_bnd [raising]: "raises F m \<Longrightarrow> (\<And>x. raises F (f x)) \<Longrightarrow> raises F (bnd m f)"
  unfolding raises_def by (metis bnd_InlE)

lemma raises_seq [raising]: "raises F m \<Longrightarrow> raises F n \<Longrightarrow> raises F (seq m n)"
  unfolding seq_def by (rule raises_bnd)

lemma raises_if [raising]: "(c \<Longrightarrow> raises F m) \<Longrightarrow> (\<not> c \<Longrightarrow> raises F n) \<Longrightarrow> raises F (if c then m else n)"
  by simp

lemma raises_when_do [raising]: "raises F m \<Longrightarrow> raises F (when_do c m)"
  by (simp add: when_do_def raises_ret)

lemma raises_option [raising]:
  "(v = None \<Longrightarrow> raises F m) \<Longrightarrow> (\<And>x. v = Some x \<Longrightarrow> raises F (f x)) \<Longrightarrow>
     raises F (case v of None \<Rightarrow> m | Some x \<Rightarrow> f x)"
  by (cases v) simp_all

lemma raises_sum [raising]:
  "(\<And>e. v = Inl e \<Longrightarrow> raises F (g e)) \<Longrightarrow> (\<And>x. v = Inr x \<Longrightarrow> raises F (f x)) \<Longrightarrow>
     raises F (case v of Inl e \<Rightarrow> g e | Inr x \<Rightarrow> f x)"
  by (cases v) simp_all

lemma raises_prod [raising]: "(\<And>x y. raises F (f x y)) \<Longrightarrow> raises F (case v of (x, y) \<Rightarrow> f x y)"
  by (cases v) simp

lemma raises_for_each [raising]: "(\<And>x. raises F (f x)) \<Longrightarrow> raises F (for_each f xs)"
  by (induction xs) (auto intro: raising)

lemma raises_catch_all [raising]:
  "raises F m \<Longrightarrow> raises F h \<Longrightarrow> raises F (catch_all m h)"
  unfolding raises_def catch_all_def by (auto split: prod.splits sum.splits if_splits)

subsection \<open>Two-byte integers\<close>

text \<open>
  The low and the high byte of a 16-bit integer, and the integer of two bytes. The hosts the
  sources are built for (x86, ARM) are little-endian: a \<open>uint16_t\<close> in memory has its low
  byte first, so \<open>htons\<close> and \<open>ntohs\<close> swap the two bytes.
\<close>

definition lo8 :: "u16 \<Rightarrow> byte" where
  "lo8 v = ucast v"

definition hi8 :: "u16 \<Rightarrow> byte" where
  "hi8 v = ucast (drop_bit 8 v)"

definition mk16 :: "byte \<Rightarrow> byte \<Rightarrow> u16" where
  "mk16 h l = push_bit 8 (ucast h) OR ucast l"

definition htons :: "u16 \<Rightarrow> u16" where
  "htons v = mk16 (lo8 v) (hi8 v)"

definition ntohs :: "u16 \<Rightarrow> u16" where
  "ntohs v = mk16 (lo8 v) (hi8 v)"

lemma lo8_mk16 [simp]: "lo8 (mk16 h l) = l"
  by (rule bit_word_eqI) (auto simp: lo8_def mk16_def bit_simps)

lemma hi8_mk16 [simp]: "hi8 (mk16 h l) = h"
proof (rule bit_word_eqI)
  fix n assume "n < LENGTH(8)"
  then show "bit (hi8 (mk16 h l)) n = bit h n"
    by (auto simp: hi8_def mk16_def bit_simps dest: bit_imp_le_length)
qed

lemma mk16_hi8_lo8 [simp]: "mk16 (hi8 v) (lo8 v) = v"
proof (rule bit_word_eqI)
  fix n assume "n < LENGTH(16)"
  then show "bit (mk16 (hi8 v) (lo8 v)) n = bit v n"
    by (cases "n < 8") (auto simp: hi8_def lo8_def mk16_def bit_simps)
qed

lemma mk16_eq_iff: "mk16 h l = mk16 h' l' \<longleftrightarrow> h = h' \<and> l = l'"
  by (metis hi8_mk16 lo8_mk16)

lemma ntohs_htons [simp]: "ntohs (htons v) = v"
  by (simp add: ntohs_def htons_def)

lemma htons_ntohs [simp]: "htons (ntohs v) = v"
  by (simp add: ntohs_def htons_def)

lemma ntohs_mk16 [simp]: "ntohs (mk16 h l) = mk16 l h"
  by (simp add: ntohs_def)

lemma htons_mk16 [simp]: "htons (mk16 h l) = mk16 l h"
  by (simp add: htons_def)

lemma lo8_htons [simp]: "lo8 (htons v) = hi8 v"
  by (simp add: htons_def)

lemma hi8_htons [simp]: "hi8 (htons v) = lo8 v"
  by (simp add: htons_def)

lemma htons_eq_iff [simp]: "htons v = htons w \<longleftrightarrow> v = w"
  by (metis ntohs_htons)

lemma unat_of_nat_byte: "n < 256 \<Longrightarrow> unat (of_nat n :: byte) = n"
  by (simp add: unat_of_nat)

subsection \<open>Segments of lists and memory\<close>

text \<open>\<open>slice p n xs\<close>: the \<open>n\<close> elements from index \<open>p\<close> on.\<close>

definition slice :: "nat \<Rightarrow> nat \<Rightarrow> 'a list \<Rightarrow> 'a list" where
  "slice p n xs = take n (drop p xs)"

text \<open>\<open>overwrite p ys xs\<close>: \<open>xs\<close> with \<open>ys\<close> written over it from index \<open>p\<close> on.\<close>

definition overwrite :: "nat \<Rightarrow> 'a list \<Rightarrow> 'a list \<Rightarrow> 'a list" where
  "overwrite p ys xs = take p xs @ ys @ drop (p + length ys) xs"

lemma length_slice [simp]: "length (slice p n xs) = min n (length xs - p)"
  by (simp add: slice_def)

lemma slice_0 [simp]: "slice p 0 xs = []"
  by (simp add: slice_def)

lemma nth_slice: "i < n \<Longrightarrow> p + i < length xs \<Longrightarrow> slice p n xs ! i = xs ! (p + i)"
  by (simp add: slice_def)

lemma length_overwrite [simp]:
  "p + length ys \<le> length xs \<Longrightarrow> length (overwrite p ys xs) = length xs"
  by (simp add: overwrite_def)

lemma overwrite_Nil [simp]: "overwrite p [] xs = xs"
  by (simp add: overwrite_def)

lemma take_overwrite: "q \<le> p \<Longrightarrow> p \<le> length xs \<Longrightarrow> take q (overwrite p ys xs) = take q xs"
  by (simp add: overwrite_def)

lemma slice_overwrite_same:
  "p + length ys \<le> length xs \<Longrightarrow> slice p (length ys) (overwrite p ys xs) = ys"
  by (simp add: overwrite_def slice_def)

lemma drop_overwrite: "p + length ys \<le> length xs \<Longrightarrow> q = p + length ys \<Longrightarrow>
  drop q (overwrite p ys xs) = drop q xs"
  by (simp add: overwrite_def)

lemma overwrite_overwrite:
  assumes "p + length ys + length zs \<le> length xs"
  shows "overwrite (p + length ys) zs (overwrite p ys xs) = overwrite p (ys @ zs) xs"
proof -
  have "min (length xs) p = p" and "length xs - p \<ge> length ys"
    using assms by arith+
  then show ?thesis
    using assms by (simp add: overwrite_def ac_simps)
qed

lemma take_slice: "n \<le> m \<Longrightarrow> take n (slice p m xs) = slice p n xs"
  by (simp add: slice_def min_def)

lemma slice_append: "slice p (m + n) xs = slice p m xs @ slice (p + m) n xs"
  by (simp add: slice_def take_add add.commute)

lemma slice_split:
  assumes "slice p (m + n) xs = ys @ zs" and "length ys = m"
  shows "slice p m xs = ys" and "slice (p + m) n xs = zs"
proof -
  have "slice p m xs = take m (slice p (m + n) xs)" by (simp add: take_slice)
  then show "slice p m xs = ys" using assms by simp
  have "slice (p + m) n xs = drop m (slice p (m + n) xs)"
    by (simp add: slice_def drop_take add.commute)
  then show "slice (p + m) n xs = zs" using assms by simp
qed

text \<open>A slice only depends on the elements before its end.\<close>

lemma slice_take: "p + n \<le> q \<Longrightarrow> slice p n (take q xs) = slice p n xs"
  by (simp add: slice_def drop_take min_def)

lemma slice_eq_take:
  assumes "take q xs = take q ys" and "p + n \<le> q"
  shows "slice p n xs = slice p n ys"
  using slice_take [OF assms(2), of xs] slice_take [OF assms(2), of ys] assms(1) by simp

lemma nth_eq_take:
  assumes "take q xs = take q ys" and "i < q" and "i < length xs" and "i < length ys"
  shows "xs ! i = ys ! i"
  using assms by (metis nth_take)

lemma take_le_eq:
  assumes "take n xs = take n ys" and "m \<le> n"
  shows "take m xs = take m ys"
  using assms by (metis min.absorb1 take_take)

lemma drop_le_eq:
  assumes "drop n xs = drop n ys" and "n \<le> m"
  shows "drop m xs = drop m ys"
proof -
  have "drop m zs = drop (m - n) (drop n zs)" for zs :: "'a list"
    using assms(2) by simp
  then show ?thesis by (metis assms(1))
qed

text \<open>The list of \<open>n\<close> bytes of a block from offset \<open>a\<close> on, and a block with a list written over it.\<close>

definition mem_read :: "mem \<Rightarrow> nat \<Rightarrow> nat \<Rightarrow> bytes" where
  "mem_read m a n = map (\<lambda>i. m (a + i)) [0..<n]"

definition mem_write :: "mem \<Rightarrow> nat \<Rightarrow> bytes \<Rightarrow> mem" where
  "mem_write m a bs = (\<lambda>i. if a \<le> i \<and> i < a + length bs then bs ! (i - a) else m i)"

lemma length_mem_read [simp]: "length (mem_read m a n) = n"
  by (simp add: mem_read_def)

lemma nth_mem_read [simp]: "i < n \<Longrightarrow> mem_read m a n ! i = m (a + i)"
  by (simp add: mem_read_def)

lemma mem_write_in [simp]: "a \<le> i \<Longrightarrow> i < a + length bs \<Longrightarrow> mem_write m a bs i = bs ! (i - a)"
  by (simp add: mem_write_def)

lemma mem_write_out [simp]: "i < a \<or> a + length bs \<le> i \<Longrightarrow> mem_write m a bs i = m i"
  by (auto simp: mem_write_def)

lemma mem_write_Nil [simp]: "mem_write m a [] = m"
  by (rule ext) (auto simp: mem_write_def)

lemma mem_read_write_same [simp]: "mem_read (mem_write m a bs) a (length bs) = bs"
  by (rule nth_equalityI) auto

lemma mem_read_cong:
  "(\<And>i. i < n \<Longrightarrow> m (a + i) = m' (a' + i)) \<Longrightarrow> mem_read m a n = mem_read m' a' n"
  by (simp add: mem_read_def)

lemma mem_read_append: "mem_read m a (n + k) = mem_read m a n @ mem_read m (a + n) k"
proof (rule nth_equalityI)
  fix i assume "i < length (mem_read m a (n + k))"
  then show "mem_read m a (n + k) ! i = (mem_read m a n @ mem_read m (a + n) k) ! i"
    by (auto simp: nth_append add.assoc)
qed simp

lemma mem_read_Suc: "mem_read m a (Suc n) = m a # mem_read m (Suc a) n"
  using mem_read_append [of m a 1 n] by (simp add: mem_read_def)

lemma mem_read_0 [simp]: "mem_read m a 0 = []"
  by (simp add: mem_read_def)

lemma take_mem_read: "k \<le> n \<Longrightarrow> take k (mem_read m a n) = mem_read m a k"
  by (rule nth_equalityI) auto

lemma mem_write_append:
  "mem_write (mem_write m a xs) (a + length xs) ys = mem_write m a (xs @ ys)"
  by (rule ext) (auto simp: mem_write_def nth_append)

lemma mem_write_overwrite:
  "length xs = length ys \<Longrightarrow> mem_write (mem_write m a xs) a ys = mem_write m a ys"
  by (rule ext) (auto simp: mem_write_def)

lemma mem_write_single: "m(a := b) = mem_write m a [b]"
  by (rule ext) (auto simp: mem_write_def)

lemma mem_read_write_prefix:
  "n \<le> length bs \<Longrightarrow> mem_read (mem_write m a bs) a n = take n bs"
  by (rule nth_equalityI) auto

lemma mem_read_write_other:
  "p + n \<le> a \<or> a + length bs \<le> p \<Longrightarrow> mem_read (mem_write m a bs) p n = mem_read m p n"
  by (rule mem_read_cong) auto

end
