(* ===== verification/DnsBuffer.thy ===== *)
theory DnsBuffer
  imports Prelude
begin

section \<open>The DNS buffer\<close>

text \<open>
  \<open>dnslib/buffer.h\<close>, \<open>dnslib/buffer.cpp\<close> and \<open>dnslib/exception.h\<close>: the class
  \<open>dns::Buffer\<close>, a position in a block of bytes with accessors for integers, character
  strings and domain names. Every accessor first calls \<open>checkAvailableSpace\<close>, which computes
  in \<open>unsigned int\<close>, so its sum wraps at $2^{32}$; an access the check lets through outside
  the block is undefined behaviour.
\<close>

record dnsbuf =
  mBuffer :: bytes
  mBufferPtr :: nat
  mLinkPos :: "nat list"

type_synonym 'a dns = "(dnsbuf, 'a) exec"

definition Buffer_ctor :: "bytes \<Rightarrow> dnsbuf" where
  "Buffer_ctor bs = \<lparr>mBuffer = bs, mBufferPtr = 0, mLinkPos = []\<rparr>"

definition MAX_MSG_LEN :: nat where "MAX_MSG_LEN = 512"
definition MAX_LABEL_LEN :: nat where "MAX_LABEL_LEN = 63"
definition MAX_DOMAIN_LEN :: nat where "MAX_DOMAIN_LEN = 255"

abbreviation dns_throw :: "string \<Rightarrow> 'a dns" where
  "dns_throw msg \<equiv> throw (DnsException msg)"

definition getPos :: "nat dns" where
  "getPos = asks mBufferPtr"

definition getSize :: "nat dns" where
  "getSize = asks (\<lambda>b. length (mBuffer b))"

definition checkAvailableSpace :: "nat \<Rightarrow> unit dns" where
  "checkAvailableSpace additionalSpace = bnd (asks (\<lambda>b. b)) (\<lambda>b.
     if (mBufferPtr b + additionalSpace) mod 2 ^ 32 > length (mBuffer b)
     then dns_throw ''Try to read behind buffer'' else ret ())"

text \<open>\<open>mBufferPtr[k]\<close>, and \<open>*mBufferPtr = v; mBufferPtr++\<close>.\<close>

definition peek :: "nat \<Rightarrow> byte dns" where
  "peek k = bnd (asks (\<lambda>b. b)) (\<lambda>b.
     if mBufferPtr b + k < length (mBuffer b) then ret (mBuffer b ! (mBufferPtr b + k))
     else throw (UndefinedBehaviour ''read outside buffer''))"

definition poke :: "byte \<Rightarrow> unit dns" where
  "poke v = bnd (asks (\<lambda>b. b)) (\<lambda>b.
     if mBufferPtr b < length (mBuffer b)
     then upd (\<lambda>b. b\<lparr>mBuffer := (mBuffer b)[mBufferPtr b := v], mBufferPtr := mBufferPtr b + 1\<rparr>)
     else throw (UndefinedBehaviour ''write outside buffer''))"

definition skip :: "nat \<Rightarrow> unit dns" where
  "skip n = upd (\<lambda>b. b\<lparr>mBufferPtr := mBufferPtr b + n\<rparr>)"

definition setPos :: "nat \<Rightarrow> unit dns" where
  "setPos p = bnd (asks (\<lambda>b. b)) (\<lambda>b.
     if p \<ge> length (mBuffer b) then dns_throw ''Try to set pos behind buffer''
     else upd (\<lambda>b. b\<lparr>mBufferPtr := p\<rparr>))"

subsection \<open>Integers\<close>

definition get8bits :: "byte dns" where
  "get8bits = seq (checkAvailableSpace 1) (bnd (peek 0) (\<lambda>v. seq (skip 1) (ret v)))"

definition put8bits :: "byte \<Rightarrow> unit dns" where
  "put8bits v = seq (checkAvailableSpace 1) (poke v)"

definition get16bits :: "u32 dns" where
  "get16bits = seq (checkAvailableSpace 2)
     (bnd (peek 0) (\<lambda>b0. bnd (peek 1) (\<lambda>b1.
        seq (skip 2) (ret (push_bit 8 (ucast b0) + ucast b1)))))"

definition put16bits :: "u32 \<Rightarrow> unit dns" where
  "put16bits v = seq (checkAvailableSpace 2)
     (seq (poke (ucast (drop_bit 8 (v AND 0xFF00)))) (poke (ucast (v AND 0xFF))))"

definition get32bits :: "u32 dns" where
  "get32bits = seq (checkAvailableSpace 4)
     (bnd (peek 0) (\<lambda>b0. bnd (peek 1) (\<lambda>b1. bnd (peek 2) (\<lambda>b2. bnd (peek 3) (\<lambda>b3.
        seq (skip 4) (ret (((0 + push_bit 24 (ucast b0)) + push_bit 16 (ucast b1))
          + push_bit 8 (ucast b2) + ucast b3)))))))"

definition put32bits :: "u32 \<Rightarrow> unit dns" where
  "put32bits v = seq (checkAvailableSpace 4)
     (seq (poke (ucast (drop_bit 24 (v AND 0xFF000000))))
     (seq (poke (ucast (drop_bit 16 (v AND 0x00FF0000))))
     (seq (poke (ucast (drop_bit 8 (v AND 0x0000FF00))))
          (poke (ucast (v AND 0x000000FF))))))"

subsection \<open>Byte blocks and character strings\<close>

text \<open>
  \<open>getBytes\<close> returns a pointer from which every caller reads \<open>count\<close> bytes; the model
  returns those bytes.
\<close>

definition getBytes :: "nat \<Rightarrow> bytes dns" where
  "getBytes count = seq (checkAvailableSpace count) (bnd (asks (\<lambda>b. b)) (\<lambda>b.
     if mBufferPtr b + count \<le> length (mBuffer b)
     then seq (skip count) (ret (slice (mBufferPtr b) count (mBuffer b)))
     else throw (UndefinedBehaviour ''read outside buffer'')))"

definition putBytes :: "bytes \<Rightarrow> unit dns" where
  "putBytes d = (if length d = 0 then ret () else
     seq (checkAvailableSpace (length d)) (bnd (asks (\<lambda>b. b)) (\<lambda>b.
       if mBufferPtr b + length d \<le> length (mBuffer b)
       then upd (\<lambda>b. b\<lparr>mBuffer := overwrite (mBufferPtr b) d (mBuffer b),
                       mBufferPtr := mBufferPtr b + length d\<rparr>)
       else throw (UndefinedBehaviour ''write outside buffer''))))"

definition getDnsCharacterString :: "bytes dns" where
  "getDnsCharacterString = bnd get8bits (\<lambda>stringLen.
     if unat stringLen > 0 then getBytes (unat stringLen) else ret [])"

text \<open>The length is passed as an \<open>uchar\<close>, so it is taken modulo 256.\<close>

definition putDnsCharacterString :: "bytes \<Rightarrow> unit dns" where
  "putDnsCharacterString v = seq (put8bits (of_nat (length v))) (putBytes v)"

subsection \<open>Domain names: decoding\<close>

abbreviation dot :: byte where "dot \<equiv> 46"

text \<open>
  \<open>getDnsDomainName\<close> and its loop \<open>dn_loop\<close> over the labels (the argument \<open>domain\<close> is
  the name read so far). \<open>mLinkPos\<close> holds the start of every name being decoded: each link
  that is followed starts at a position not yet in it, so the recursion ends.
\<close>

function (sequential) getDnsDomainName :: "bool \<Rightarrow> bytes dns"
  and dn_loop :: "bool \<Rightarrow> bytes \<Rightarrow> bytes dns" where
  "getDnsDomainName compressionAllowed b =
     (if mBufferPtr b \<in> set (mLinkPos b)
      then throw (DnsException ''Decoding of domain failed because labels compression contains endless loop of links'')
             (b\<lparr>mLinkPos := []\<rparr>)
      else bnd (\<lambda>b. dn_loop compressionAllowed [] b) (\<lambda>domain.
             seq (upd (\<lambda>b. b\<lparr>mLinkPos := butlast (mLinkPos b)\<rparr>))
               (if length domain > MAX_DOMAIN_LEN
                then dns_throw ''Decoding of domain name failed - domain name is too long.''
                else ret domain))
             (b\<lparr>mLinkPos := mLinkPos b @ [mBufferPtr b]\<rparr>))"
| "dn_loop compressionAllowed domain b =
     bnd get8bits (\<lambda>ctrlCode b.
       if ctrlCode = 0 then ret domain b
       else if drop_bit 6 ctrlCode = 3 then
         (if \<not> compressionAllowed
          then dns_throw ''Decoding of domain failed because compression link found where links are not allowed'' b
          else bnd get8bits (\<lambda>ctrlCode2 b.
            bnd (setPos (unat (ctrlCode AND 63) * 256 + unat ctrlCode2)) (\<lambda>_ b1.
              bnd (\<lambda>b. getDnsDomainName True b) (\<lambda>linkDomain.
                seq (setPos (mBufferPtr b))
                  (ret ((if length domain > 0 then domain @ [dot] else domain) @ linkDomain))) b1) b) b)
       else if unat ctrlCode > MAX_LABEL_LEN
         then dns_throw ''Decoding failed because of too long domain label (max length is 63 characters)'' b
       else bnd (getBytes (unat ctrlCode)) (\<lambda>label b.
              dn_loop compressionAllowed
                ((if length domain > 0 then domain @ [dot] else domain) @ label) b) b) b"
  by pat_completeness auto

text \<open>What the accessors leave unchanged, for the termination proof.\<close>

lemma get8bits_InrD:
  assumes "get8bits b = (Inr v, b')"
  shows "mBufferPtr b < length (mBuffer b) \<and> v = mBuffer b ! mBufferPtr b
       \<and> b' = b\<lparr>mBufferPtr := mBufferPtr b + 1\<rparr>"
  using assms
  by (auto simp: get8bits_def checkAvailableSpace_def peek_def skip_def seq_def bnd_def split: if_splits)

lemma setPos_InrD:
  assumes "setPos p b = (Inr v, b')"
  shows "p < length (mBuffer b) \<and> b' = b\<lparr>mBufferPtr := p\<rparr>"
  using assms by (auto simp: setPos_def bnd_def split: if_splits)

lemma getBytes_InrD:
  assumes "getBytes n b = (Inr v, b')"
  shows "mBufferPtr b + n \<le> length (mBuffer b) \<and> v = slice (mBufferPtr b) n (mBuffer b)
       \<and> b' = b\<lparr>mBufferPtr := mBufferPtr b + n\<rparr>"
  using assms
  by (auto simp: getBytes_def checkAvailableSpace_def skip_def seq_def bnd_def split: if_splits)

text \<open>
  The measure: positions of the block at which no name being decoded starts. Entering a name
  takes its start out; inside a name, every label moves the position forward.
\<close>

definition free_pos :: "dnsbuf \<Rightarrow> nat set" where
  "free_pos b = {..<length (mBuffer b)} - set (mLinkPos b)"

fun name_measure :: "(bool \<times> dnsbuf) + (bool \<times> bytes \<times> dnsbuf) \<Rightarrow> nat" where
  "name_measure (Inl (_, b)) =
     (if mBufferPtr b \<in> set (mLinkPos b) then 0 else 2 * card (free_pos b - {mBufferPtr b}) + 2)"
| "name_measure (Inr (_, _, b)) = 2 * card (free_pos b) + 1"

fun rest_measure :: "(bool \<times> dnsbuf) + (bool \<times> bytes \<times> dnsbuf) \<Rightarrow> nat" where
  "rest_measure (Inl _) = 0"
| "rest_measure (Inr (_, _, b)) = length (mBuffer b) - mBufferPtr b"

lemma free_pos_push:
  "free_pos (b\<lparr>mLinkPos := mLinkPos b @ [mBufferPtr b]\<rparr>) = free_pos b - {mBufferPtr b}"
  by (auto simp: free_pos_def)

lemma free_pos_pos [simp]: "free_pos (b\<lparr>mBufferPtr := p\<rparr>) = free_pos b"
  by (simp add: free_pos_def)

lemma finite_free_pos [simp]: "finite (free_pos b)"
  by (simp add: free_pos_def)

lemma name_measure_link:
  assumes "p < length (mBuffer b)"
  shows "name_measure (Inl (c, b\<lparr>mBufferPtr := p\<rparr>)) < name_measure (Inr (d, e, b))"
proof (cases "p \<in> set (mLinkPos b)")
  case False
  with assms have "p \<in> free_pos b" by (simp add: free_pos_def)
  then have "card (free_pos b - {p}) < card (free_pos b)"
    by (intro card_Diff1_less) simp_all
  with False show ?thesis by simp
qed simp

termination getDnsDomainName
proof (relation "measures [name_measure, rest_measure]")
  show "wf (measures [name_measure, rest_measure])" by simp
next
  fix c and b :: dnsbuf
  assume "mBufferPtr b \<notin> set (mLinkPos b)"
  then show "(Inr (c, [], b\<lparr>mLinkPos := mLinkPos b @ [mBufferPtr b]\<rparr>), Inl (c, b))
      \<in> measures [name_measure, rest_measure]"
    by (simp add: free_pos_push)
next
  fix c domain x xa xb and b t ta tb :: dnsbuf
  assume "get8bits b = (Inr x, t)" and "get8bits t = (Inr xa, ta)"
    and "setPos (unat (x AND 63) * 256 + unat xa) ta = (Inr xb, tb)"
  then obtain p where "p < length (mBuffer b)" and tb: "tb = b\<lparr>mBufferPtr := p\<rparr>"
    by (auto dest!: get8bits_InrD setPos_InrD)
  then have "name_measure (Inl (True, tb)) < name_measure (Inr (c, domain, b))"
    unfolding tb by (intro name_measure_link)
  then show "(Inl (True, tb), Inr (c, domain, b)) \<in> measures [name_measure, rest_measure]"
    by (simp only: measures_less)
qed (auto dest!: get8bits_InrD getBytes_InrD)

declare getDnsDomainName.simps [simp del] dn_loop.simps [simp del]

subsection \<open>Domain names: encoding\<close>

text \<open>
  \<open>putDnsDomainName\<close> first converts the name in two local arrays of \<open>MAX_DOMAIN_LEN + 1\<close>
  elements (\<open>domain\<close>, whose initial contents are indeterminate, and the start of every
  label), then writes them with or without compression. A store outside an array is undefined.
\<close>

definition arr_set :: "mem \<Rightarrow> nat \<Rightarrow> byte \<Rightarrow> fault + mem" where
  "arr_set m i v = (if i < MAX_DOMAIN_LEN + 1 then Inr (m(i := v))
     else Inl (UndefinedBehaviour ''write outside array''))"

function dn_labels ::
  "bytes \<Rightarrow> mem \<Rightarrow> nat list \<Rightarrow> nat \<Rightarrow> nat \<Rightarrow> nat \<Rightarrow> nat \<Rightarrow> fault + (mem \<times> nat list \<times> nat)" where
  "dn_labels val domain domainLabelIndexes labelLen labelLenPos domainPos ix =
    (if ix > length val then Inl (UndefinedBehaviour ''read outside string'')
     else if ix = length val \<or> val ! ix = dot then
       (if labelLen > MAX_LABEL_LEN
        then Inl (DnsException ''Encoding failed because of too long domain label (max length is 63 characters)'')
        else if length domainLabelIndexes \<ge> MAX_DOMAIN_LEN + 1
        then Inl (UndefinedBehaviour ''write outside array'')
        else case arr_set domain labelLenPos (of_nat labelLen) of
          Inl e \<Rightarrow> Inl e
        | Inr domain \<Rightarrow>
            if ix < length val \<and> val ! ix = dot \<and> ix = length val - 1
            then Inr (domain, domainLabelIndexes @ [labelLenPos], domainPos)
            else if ix = length val
            then (case arr_set domain domainPos 0 of
                Inl e \<Rightarrow> Inl e
              | Inr domain \<Rightarrow> Inr (domain, domainLabelIndexes @ [labelLenPos], domainPos + 1))
            else dn_labels val domain (domainLabelIndexes @ [labelLenPos]) 0 domainPos
                   (domainPos + 1) (ix + 1))
     else case arr_set domain domainPos (val ! ix) of
         Inl e \<Rightarrow> Inl e
       | Inr domain \<Rightarrow> dn_labels val domain domainLabelIndexes (labelLen + 1) labelLenPos
                         (domainPos + 1) (ix + 1))"
  by pat_completeness auto
termination dn_labels
  by (relation "measure (\<lambda>(val, _, _, _, _, _, ix). length val - ix)") auto

declare dn_labels.simps [simp del]

text \<open>The first position of the written part of the buffer that holds the bytes \<open>sub\<close>.\<close>

definition find_tip :: "bytes \<Rightarrow> dnsbuf \<Rightarrow> nat option" where
  "find_tip sub b =
     (if mBufferPtr b > length sub
      then find (\<lambda>p. slice p (length sub) (mBuffer b) = sub) [0..<mBufferPtr b - length sub]
      else None)"

fun dn_compress :: "mem \<Rightarrow> nat \<Rightarrow> nat list \<Rightarrow> unit dns" where
  "dn_compress domain domainPos [] = put8bits 0"
| "dn_compress domain domainPos (domainLabelPos # rest) =
     (let subDomain = mem_read domain domainLabelPos (domainPos - domainLabelPos) in
      bnd (asks (find_tip subDomain)) (\<lambda>tip. case tip of
          Some compressionTipPos \<Rightarrow> put16bits (0xC000 + of_nat compressionTipPos)
        | None \<Rightarrow>
            seq (putBytes (mem_read domain domainLabelPos (unat (domain domainLabelPos) + 1)))
              (dn_compress domain domainPos rest)))"

definition putDnsDomainName :: "mem \<Rightarrow> bytes \<Rightarrow> bool \<Rightarrow> unit dns" where
  "putDnsDomainName uninit val compressionAllowed =
     (if length val > MAX_DOMAIN_LEN
      then dns_throw ''Domain name too long to be stored in dns message''
      else if length val = 0 then put8bits 0
      else case dn_labels val uninit [] 0 0 1 0 of
        Inl e \<Rightarrow> throw e
      | Inr (domain, domainLabelIndexes, domainPos) \<Rightarrow>
          if compressionAllowed then dn_compress domain domainPos domainLabelIndexes
          else putBytes (mem_read domain 0 domainPos))"

subsection \<open>The accessors inside a buffer\<close>

text \<open>
  \<open>dns_wf\<close>: the position is inside the block, and the block is short enough that every
  position in it is a legal link target (messages are at most \<open>MAX_MSG_LEN\<close> bytes here).
\<close>

definition dns_wf :: "dnsbuf \<Rightarrow> bool" where
  "dns_wf b \<longleftrightarrow> mBufferPtr b \<le> length (mBuffer b) \<and> length (mBuffer b) \<le> 0x4000"

lemma dns_wf_ctor: "length bs \<le> MAX_MSG_LEN \<Longrightarrow> dns_wf (Buffer_ctor bs)"
  by (simp add: dns_wf_def Buffer_ctor_def MAX_MSG_LEN_def)

lemma dns_wf_pos: "dns_wf b \<Longrightarrow> p \<le> length (mBuffer b) \<Longrightarrow> dns_wf (b\<lparr>mBufferPtr := p\<rparr>)"
  by (simp add: dns_wf_def)

lemma dns_wf_links [simp]: "dns_wf (b\<lparr>mLinkPos := ls\<rparr>) = dns_wf b"
  by (simp add: dns_wf_def)

lemma checkAvailableSpace_exec:
  assumes "dns_wf b" and "n \<le> 0x4000"
  shows "checkAvailableSpace n b =
    (if mBufferPtr b + n \<le> length (mBuffer b) then (Inr (), b)
     else (Inl (DnsException ''Try to read behind buffer''), b))"
  using assms by (auto simp: checkAvailableSpace_def bnd_def dns_wf_def)

lemma get8bits_exec:
  assumes "dns_wf b"
  shows "get8bits b =
    (if mBufferPtr b < length (mBuffer b)
     then (Inr (mBuffer b ! mBufferPtr b), b\<lparr>mBufferPtr := mBufferPtr b + 1\<rparr>)
     else (Inl (DnsException ''Try to read behind buffer''), b))"
  using assms
  by (auto simp: get8bits_def checkAvailableSpace_exec seq_def bnd_def peek_def skip_def)

lemma getBytes_exec:
  assumes "dns_wf b" and "n \<le> 0x4000"
  shows "getBytes n b =
    (if mBufferPtr b + n \<le> length (mBuffer b)
     then (Inr (slice (mBufferPtr b) n (mBuffer b)), b\<lparr>mBufferPtr := mBufferPtr b + n\<rparr>)
     else (Inl (DnsException ''Try to read behind buffer''), b))"
  using assms
  by (auto simp: getBytes_def checkAvailableSpace_exec seq_def bnd_def skip_def)

lemma putBytes_exec:
  assumes "dns_wf b" and "length d \<le> 0x4000"
  shows "putBytes d b =
    (if d = [] then (Inr (), b)
     else if mBufferPtr b + length d \<le> length (mBuffer b)
     then (Inr (), b\<lparr>mBuffer := overwrite (mBufferPtr b) d (mBuffer b),
                      mBufferPtr := mBufferPtr b + length d\<rparr>)
     else (Inl (DnsException ''Try to read behind buffer''), b))"
  using assms
  by (auto simp: putBytes_def checkAvailableSpace_exec seq_def bnd_def)

lemma poke_exec:
  assumes "mBufferPtr b < length (mBuffer b)"
  shows "poke v b = (Inr (), b\<lparr>mBuffer := overwrite (mBufferPtr b) [v] (mBuffer b),
                              mBufferPtr := mBufferPtr b + 1\<rparr>)"
  using assms by (simp add: poke_def bnd_def overwrite_def upd_conv_take_nth_drop)

lemma put8bits_exec:
  assumes "dns_wf b"
  shows "put8bits v b =
    (if mBufferPtr b < length (mBuffer b)
     then (Inr (), b\<lparr>mBuffer := overwrite (mBufferPtr b) [v] (mBuffer b),
                      mBufferPtr := mBufferPtr b + 1\<rparr>)
     else (Inl (DnsException ''Try to read behind buffer''), b))"
  using assms by (auto simp: put8bits_def checkAvailableSpace_exec seq_def bnd_def poke_exec)

lemma poke_poke:
  assumes "mBufferPtr b + length ds < length (mBuffer b)"
  shows "poke v (b\<lparr>mBuffer := overwrite (mBufferPtr b) ds (mBuffer b),
                   mBufferPtr := mBufferPtr b + length ds\<rparr>)
    = (Inr (), b\<lparr>mBuffer := overwrite (mBufferPtr b) (ds @ [v]) (mBuffer b),
                 mBufferPtr := mBufferPtr b + length ds + 1\<rparr>)"
  using assms by (subst poke_exec) (simp_all add: overwrite_overwrite)

end
