(* ===== verification/DnsCodec.thy ===== *)
theory DnsCodec
  imports DnsBuffer
begin

section \<open>Codecs over the DNS buffer\<close>

text \<open>
  The contract between a writer and a reader of a field of a DNS message, as a locale: what a
  writer leaves in the buffer, the reader at the same position returns, in any later buffer
  that agrees on the bytes up to the writer's end (links of compressed names point backwards,
  so all earlier bytes matter). The integers and character strings are proved to satisfy it
  here, domain names in \<open>DnsName\<close>; fields compose to records, and records to lists.
\<close>

subsection \<open>What a reader returns\<close>

text \<open>
  \<open>reads get v p q r bs\<close>: on every buffer that agrees with \<open>bs\<close> up to \<open>q\<close> and has at
  least \<open>r\<close> bytes, \<open>get\<close> at position \<open>p\<close> returns \<open>v\<close> and ends at \<open>q\<close>.
\<close>

definition reads :: "'a dns \<Rightarrow> 'a \<Rightarrow> nat \<Rightarrow> nat \<Rightarrow> nat \<Rightarrow> bytes \<Rightarrow> bool" where
  "reads get v p q r bs \<longleftrightarrow>
     (\<forall>b. dns_wf b \<longrightarrow> mBufferPtr b = p \<longrightarrow> mLinkPos b = [] \<longrightarrow>
          take q (mBuffer b) = take q bs \<longrightarrow> r \<le> length (mBuffer b) \<longrightarrow>
          get b = (Inr v, b\<lparr>mBufferPtr := q\<rparr>))"

lemma readsD:
  assumes "reads get v p q r bs" and "dns_wf b" and "mBufferPtr b = p" and "mLinkPos b = []"
    and "take q (mBuffer b) = take q bs" and "r \<le> length (mBuffer b)"
  shows "get b = (Inr v, b\<lparr>mBufferPtr := q\<rparr>)"
  using assms by (simp add: reads_def)

lemma reads_mono:
  assumes "reads get v p q r bs" and "r \<le> r'" and "take q bs' = take q bs"
  shows "reads get v p q r' bs'"
  using assms by (auto simp: reads_def)

text \<open>Reading two fields in a row.\<close>

lemma reads_bnd:
  assumes "reads g v p q r bs" and "reads (f v) w q q' r' bs"
    and "q \<le> q'" and "r \<le> r'" and "q \<le> r"
  shows "reads (bnd g f) w p q' r' bs"
  unfolding reads_def
proof (intro allI impI)
  fix b :: dnsbuf
  assume b: "dns_wf b" "mBufferPtr b = p" "mLinkPos b = []"
    "take q' (mBuffer b) = take q' bs" "r' \<le> length (mBuffer b)"
  have 1: "g b = (Inr v, b\<lparr>mBufferPtr := q\<rparr>)"
    by (rule readsD [OF assms(1)]) (use b assms take_le_eq in auto)
  have "f v (b\<lparr>mBufferPtr := q\<rparr>) = (Inr w, b\<lparr>mBufferPtr := q, mBufferPtr := q'\<rparr>)"
    by (rule readsD [OF assms(2)]) (use b assms in \<open>auto intro: dns_wf_pos\<close>)
  with 1 show "bnd g f b = (Inr w, b\<lparr>mBufferPtr := q'\<rparr>)"
    by (simp add: bnd_def)
qed

lemma reads_ret: "reads (ret v) v p p r bs"
  by (simp add: reads_def)

lemma reads_Pair [simp]: "reads (Pair (Inr v)) v p p r bs"
  by (simp add: reads_def)

text \<open>Reading \<open>n\<close> items.\<close>

primrec get_many :: "'a dns \<Rightarrow> nat \<Rightarrow> 'a list dns" where
  "get_many g 0 = ret []"
| "get_many g (Suc n) = bnd g (\<lambda>x. bnd (get_many g n) (\<lambda>xs. ret (x # xs)))"

subsection \<open>What a writer leaves\<close>

text \<open>
  \<open>wrote b b'\<close>: from \<open>b\<close> to \<open>b'\<close> only bytes from the position of \<open>b\<close> up to that of
  \<open>b'\<close> have changed.
\<close>

definition wrote :: "dnsbuf \<Rightarrow> dnsbuf \<Rightarrow> bool" where
  "wrote b b' \<longleftrightarrow> dns_wf b' \<and> mLinkPos b' = mLinkPos b
     \<and> length (mBuffer b') = length (mBuffer b)
     \<and> take (mBufferPtr b) (mBuffer b') = take (mBufferPtr b) (mBuffer b)
     \<and> drop (mBufferPtr b') (mBuffer b') = drop (mBufferPtr b') (mBuffer b)
     \<and> mBufferPtr b \<le> mBufferPtr b'"

lemma wrote_refl: "dns_wf b \<Longrightarrow> wrote b b"
  by (simp add: wrote_def)

lemma wrote_trans: "wrote b b' \<Longrightarrow> wrote b' b'' \<Longrightarrow> wrote b b''"
proof -
  assume 1: "wrote b b'" and 2: "wrote b' b''"
  have t: "take (mBufferPtr b) (mBuffer b'') = take (mBufferPtr b) (mBuffer b')"
    using 1 2 take_le_eq unfolding wrote_def by blast
  have d: "drop (mBufferPtr b'') (mBuffer b') = drop (mBufferPtr b'') (mBuffer b)"
    using 1 2 drop_le_eq unfolding wrote_def by blast
  show "wrote b b''"
    using 1 2 t d unfolding wrote_def by simp
qed

lemma wrote_take:
  "wrote b b' \<Longrightarrow> q \<le> mBufferPtr b \<Longrightarrow> take q (mBuffer b') = take q (mBuffer b)"
  by (auto simp: wrote_def intro: take_le_eq)

lemma wrote_overwrite:
  assumes "dns_wf b" and "mBufferPtr b + length d \<le> length (mBuffer b)"
  shows "wrote b (b\<lparr>mBuffer := overwrite (mBufferPtr b) d (mBuffer b),
                    mBufferPtr := mBufferPtr b + length d\<rparr>)"
  using assms by (auto simp: wrote_def dns_wf_def take_overwrite drop_overwrite)

subsection \<open>The contract\<close>

locale wire_codec =
  fixes put :: "'a \<Rightarrow> unit dns"
    and get :: "'a dns"
    and ok :: "'a \<Rightarrow> bool"
    and minlen :: nat
    and slack :: nat
  assumes put_wrote: "ok v \<Longrightarrow> dns_wf b \<Longrightarrow> put v b = (Inr (), b') \<Longrightarrow>
      wrote b b' \<and> mBufferPtr b + minlen \<le> mBufferPtr b'"
    and put_reads: "ok v \<Longrightarrow> dns_wf b \<Longrightarrow> put v b = (Inr (), b') \<Longrightarrow>
      reads get v (mBufferPtr b) (mBufferPtr b') (mBufferPtr b' + slack) (mBuffer b')"
begin

text \<open>
  A field that has been written is still read back after anything else has been written
  behind it.
\<close>

lemma put_reads_later:
  assumes "ok v" and "dns_wf b" and "put v b = (Inr (), b')" and "wrote b' b''"
  shows "reads get v (mBufferPtr b) (mBufferPtr b') (mBufferPtr b' + slack) (mBuffer b'')"
  by (rule reads_mono [OF put_reads [OF assms(1-3)]]) (simp_all add: wrote_take [OF assms(4)])

lemma put_field:
  assumes "ok v" and "dns_wf b" and "put v b = (Inr (), b')" and "wrote b' b''"
    and "reads (f v) w (mBufferPtr b') q r (mBuffer b'')"
    and "mBufferPtr b' \<le> q" and "mBufferPtr b' + slack \<le> r"
  shows "reads (bnd get f) w (mBufferPtr b) q r (mBuffer b'')"
proof (rule reads_bnd)
  show "reads get v (mBufferPtr b) (mBufferPtr b') (mBufferPtr b' + slack) (mBuffer b'')"
    by (rule put_reads_later [OF assms(1-4)])
qed (use assms(5-7) in simp_all)

text \<open>A list of items, written one after the other, is read back with the count.\<close>

lemma put_all_wrote:
  assumes "\<And>v. v \<in> set vs \<Longrightarrow> ok v" and "dns_wf b" and "for_each put vs b = (Inr (), b')"
  shows "wrote b b' \<and> mBufferPtr b + minlen * length vs \<le> mBufferPtr b'"
  using assms
proof (induction vs arbitrary: b)
  case Nil
  then show ?case by (simp add: wrote_refl)
next
  case (Cons v vs)
  from Cons.prems(3) obtain b1 where b1: "put v b = (Inr (), b1)"
    and rest: "for_each put vs b1 = (Inr (), b')"
    by (auto elim: seq_InrE)
  have w1: "wrote b b1 \<and> mBufferPtr b + minlen \<le> mBufferPtr b1"
    using put_wrote [OF _ Cons.prems(2) b1] Cons.prems(1) by simp
  then have "dns_wf b1" by (simp add: wrote_def)
  then have "wrote b1 b' \<and> mBufferPtr b1 + minlen * length vs \<le> mBufferPtr b'"
    using Cons.IH rest Cons.prems(1) by simp
  with w1 show ?case by (auto intro: wrote_trans)
qed

lemma put_all_reads:
  assumes "\<And>v. v \<in> set vs \<Longrightarrow> ok v" and "dns_wf b" and "for_each put vs b = (Inr (), b')"
    and "slack \<le> minlen"
  shows "reads (get_many get (length vs)) vs (mBufferPtr b) (mBufferPtr b')
           (mBufferPtr b' + slack) (mBuffer b')"
  using assms(1-3)
proof (induction vs arbitrary: b)
  case Nil
  then show ?case by (simp add: reads_ret)
next
  case (Cons v vs)
  from Cons.prems(3) obtain b1 where b1: "put v b = (Inr (), b1)"
    and rest: "for_each put vs b1 = (Inr (), b')"
    by (auto elim: seq_InrE)
  have ok: "ok v" "\<And>u. u \<in> set vs \<Longrightarrow> ok u" using Cons.prems(1) by simp_all
  have wf1: "dns_wf b1"
    using put_wrote [OF ok(1) Cons.prems(2) b1] by (simp add: wrote_def)
  have w: "wrote b1 b'" and le: "mBufferPtr b1 + minlen * length vs \<le> mBufferPtr b'"
    using put_all_wrote [OF ok(2) wf1 rest] by simp_all
  have q: "mBufferPtr b1 \<le> mBufferPtr b'" using w by (simp add: wrote_def)
  have IH: "reads (get_many get (length vs)) vs (mBufferPtr b1) (mBufferPtr b')
      (mBufferPtr b' + slack) (mBuffer b')"
    by (rule Cons.IH [OF ok(2) wf1 rest])
  have "reads (bnd (get_many get (length vs)) (\<lambda>xs. ret (v # xs))) (v # vs)
      (mBufferPtr b1) (mBufferPtr b') (mBufferPtr b' + slack) (mBuffer b')"
    by (rule reads_bnd [OF IH reads_ret]) simp_all
  then have "reads (bnd get (\<lambda>v. bnd (get_many get (length vs)) (\<lambda>xs. ret (v # xs)))) (v # vs)
      (mBufferPtr b) (mBufferPtr b') (mBufferPtr b' + slack) (mBuffer b')"
    by (intro put_field [OF ok(1) Cons.prems(2) b1 w _ q]) (use q in simp_all)
  then show ?case by simp
qed

text \<open>So lists of a known length satisfy the contract as well.\<close>

lemma many:
  assumes "slack \<le> minlen"
  shows "wire_codec (for_each put) (get_many get n) (\<lambda>vs. length vs = n \<and> (\<forall>v\<in>set vs. ok v))
           (minlen * n) slack"
proof unfold_locales
  fix vs b b'
  assume ok: "length vs = n \<and> (\<forall>v\<in>set vs. ok v)" and wf: "dns_wf b"
    and put: "for_each put vs b = (Inr (), b')"
  show "wrote b b' \<and> mBufferPtr b + minlen * n \<le> mBufferPtr b'"
    using put_all_wrote [OF _ wf put] ok by auto
  show "reads (get_many get n) vs (mBufferPtr b) (mBufferPtr b') (mBufferPtr b' + slack) (mBuffer b')"
    using put_all_reads [OF _ wf put assms] ok by auto
qed

text \<open>The reader run on a buffer that holds all that has been written.\<close>

lemma put_run:
  assumes "ok v" and "dns_wf b" and "put v b = (Inr (), b')" and "wrote b' b''"
    and "dns_wf c" and "mLinkPos c = []"
    and "take (mBufferPtr b'') (mBuffer c) = take (mBufferPtr b'') (mBuffer b'')"
    and "mBufferPtr b' + slack \<le> length (mBuffer c)" and "p = mBufferPtr b"
  shows "bnd get f (c\<lparr>mBufferPtr := p\<rparr>) = f v (c\<lparr>mBufferPtr := mBufferPtr b'\<rparr>)"
proof -
  have le: "mBufferPtr b \<le> mBufferPtr b'" "mBufferPtr b' \<le> mBufferPtr b''"
    using put_wrote [OF assms(1-3)] assms(4) by (simp_all add: wrote_def)
  have "get (c\<lparr>mBufferPtr := p\<rparr>) = (Inr v, c\<lparr>mBufferPtr := p, mBufferPtr := mBufferPtr b'\<rparr>)"
    by (rule readsD [OF put_reads_later [OF assms(1-4)]])
      (use assms le take_le_eq [OF assms(7)] in \<open>simp_all add: dns_wf_def\<close>)
  then show ?thesis by (simp add: bnd_def)
qed

end

subsection \<open>Fields that are written as they are\<close>

text \<open>
  A field whose encoding does not depend on the rest of the buffer: the writer stores the
  bytes \<open>enc v\<close>, the reader returns \<open>v\<close> wherever it finds them. It satisfies the contract.
\<close>

locale byte_codec =
  fixes put :: "'a \<Rightarrow> unit dns"
    and get :: "'a dns"
    and ok :: "'a \<Rightarrow> bool"
    and enc :: "'a \<Rightarrow> bytes"
    and minlen :: nat
  assumes put_bytes: "ok v \<Longrightarrow> dns_wf b \<Longrightarrow> put v b = (Inr (), b') \<Longrightarrow>
      mBufferPtr b + length (enc v) \<le> length (mBuffer b)
      \<and> b' = b\<lparr>mBuffer := overwrite (mBufferPtr b) (enc v) (mBuffer b),
               mBufferPtr := mBufferPtr b + length (enc v)\<rparr>"
    and get_bytes: "ok v \<Longrightarrow> dns_wf b \<Longrightarrow>
      mBufferPtr b + length (enc v) \<le> length (mBuffer b) \<Longrightarrow>
      slice (mBufferPtr b) (length (enc v)) (mBuffer b) = enc v \<Longrightarrow>
      get b = (Inr v, b\<lparr>mBufferPtr := mBufferPtr b + length (enc v)\<rparr>)"
    and minlen_enc: "ok v \<Longrightarrow> minlen \<le> length (enc v)"
begin

text \<open>Fields written in a row leave their encodings in a row.\<close>

lemma put_all_bytes:
  assumes "list_all ok vs" and "dns_wf b" and "for_each put vs b = (Inr (), b')"
  shows "mBufferPtr b + length (concat (map enc vs)) \<le> length (mBuffer b)
    \<and> b' = b\<lparr>mBuffer := overwrite (mBufferPtr b) (concat (map enc vs)) (mBuffer b),
             mBufferPtr := mBufferPtr b + length (concat (map enc vs))\<rparr>"
  using assms
proof (induction vs arbitrary: b)
  case Nil
  then show ?case by (simp add: dns_wf_def)
next
  case (Cons v vs)
  from Cons.prems(3) obtain b1 where b1: "put v b = (Inr (), b1)"
    and rest: "for_each put vs b1 = (Inr (), b')"
    by (auto elim: seq_InrE)
  have 1: "mBufferPtr b + length (enc v) \<le> length (mBuffer b)
      \<and> b1 = b\<lparr>mBuffer := overwrite (mBufferPtr b) (enc v) (mBuffer b),
               mBufferPtr := mBufferPtr b + length (enc v)\<rparr>"
    using put_bytes [OF _ Cons.prems(2) b1] Cons.prems(1) by simp
  then have "dns_wf b1" using Cons.prems(2) by (simp add: dns_wf_def)
  then show ?case
    using Cons.IH [OF _ _ rest] Cons.prems(1) 1
      overwrite_overwrite [of "mBufferPtr b" "enc v" "concat (map enc vs)" "mBuffer b"]
    by (simp add: add.assoc)
qed

end

sublocale byte_codec \<subseteq> wire_codec put get ok minlen 0
proof unfold_locales
  fix v b b'
  assume ok: "ok v" and wf: "dns_wf b" and put: "put v b = (Inr (), b')"
  note pb = put_bytes [OF ok wf put]
  show "wrote b b' \<and> mBufferPtr b + minlen \<le> mBufferPtr b'"
    using pb wrote_overwrite [OF wf, of "enc v"] minlen_enc [OF ok] by simp
  show "reads get v (mBufferPtr b) (mBufferPtr b') (mBufferPtr b' + 0) (mBuffer b')"
    unfolding reads_def
  proof (intro allI impI)
    fix c :: dnsbuf
    assume c: "dns_wf c" "mBufferPtr c = mBufferPtr b"
      "take (mBufferPtr b') (mBuffer c) = take (mBufferPtr b') (mBuffer b')"
      "mBufferPtr b' + 0 \<le> length (mBuffer c)"
    have "slice (mBufferPtr b) (length (enc v)) (mBuffer c)
        = slice (mBufferPtr b) (length (enc v)) (mBuffer b')"
      using pb by (intro slice_eq_take [OF c(3)]) simp
    also have "\<dots> = enc v" using pb by (simp add: slice_overwrite_same)
    finally show "get c = (Inr v, c\<lparr>mBufferPtr := mBufferPtr b'\<rparr>)"
      using get_bytes [OF ok c(1)] c(2,4) pb by simp
  qed
qed

subsection \<open>Integers in network order\<close>

definition be16 :: "u32 \<Rightarrow> bytes" where
  "be16 v = [ucast (drop_bit 8 v), ucast v]"

definition be32 :: "u32 \<Rightarrow> bytes" where
  "be32 v = [ucast (drop_bit 24 v), ucast (drop_bit 16 v), ucast (drop_bit 8 v), ucast v]"

lemma length_be [simp]: "length (be16 v) = 2" "length (be32 v) = 4"
  by (simp_all add: be16_def be32_def)

text \<open>What the shifts and masks of the accessors compute.\<close>

lemma byte_masks:
  "(0xFF :: u32) = mask 8" "(0xFF00 :: u32) = push_bit 8 (mask 8)"
  "(0xFF0000 :: u32) = push_bit 16 (mask 8)" "(0xFF000000 :: u32) = push_bit 24 (mask 8)"
  by (simp_all add: mask_eq_exp_minus_1)

lemma masked_bytes [simp]:
  "ucast (drop_bit 24 (v AND 0xFF000000) :: u32) = (ucast (drop_bit 24 v) :: byte)"
  "ucast (drop_bit 16 (v AND 0xFF0000) :: u32) = (ucast (drop_bit 16 v) :: byte)"
  "ucast (drop_bit 8 (v AND 0xFF00) :: u32) = (ucast (drop_bit 8 v) :: byte)"
  "ucast (v AND 0xFF :: u32) = (ucast v :: byte)"
  by (rule bit_word_eqI, simp only: byte_masks, auto simp: bit_simps)+

lemma join_bytes16:
  "push_bit 8 (ucast (ucast (drop_bit 8 v) :: byte)) + ucast (ucast v :: byte) = take_bit 16 (v :: u32)"
  (is "?a + ?b = _")
proof -
  have "?a + ?b = ?a OR ?b"
    by (rule disjunctive_add) (auto simp: bit_simps)
  also have "\<dots> = take_bit 16 v"
  proof (rule bit_word_eqI)
    fix n assume "n < LENGTH(32)"
    then show "bit (?a OR ?b) n = bit (take_bit 16 v) n"
      by (cases "n < 8") (auto simp: bit_simps)
  qed
  finally show ?thesis .
qed

lemma join_bytes32:
  "push_bit 24 (ucast (ucast (drop_bit 24 v) :: byte))
   + push_bit 16 (ucast (ucast (drop_bit 16 v) :: byte))
   + push_bit 8 (ucast (ucast (drop_bit 8 v) :: byte)) + ucast (ucast v :: byte) = (v :: u32)"
  (is "?a + ?b + ?c + ?d = _")
proof -
  have "?a + ?b = ?a OR ?b"
    by (rule disjunctive_add) (auto simp: bit_simps)
  moreover have "(?a OR ?b) + ?c = ?a OR ?b OR ?c"
    by (subst disjunctive_add) (auto simp: bit_simps or.assoc)
  moreover have "(?a OR ?b OR ?c) + ?d = ?a OR ?b OR ?c OR ?d"
    by (subst disjunctive_add) (auto simp: bit_simps or.assoc)
  moreover have "?a OR ?b OR ?c OR ?d = v"
  proof (rule bit_word_eqI)
    fix n assume "n < LENGTH(32)"
    then show "bit (?a OR ?b OR ?c OR ?d) n = bit v n"
      by (cases "n < 8"; cases "n < 16"; cases "n < 24") (auto simp: bit_simps)
  qed
  ultimately show ?thesis by simp
qed

lemma put16bits_exec:
  assumes "dns_wf b"
  shows "put16bits v b =
    (if mBufferPtr b + 2 \<le> length (mBuffer b)
     then (Inr (), b\<lparr>mBuffer := overwrite (mBufferPtr b) (be16 v) (mBuffer b),
                      mBufferPtr := mBufferPtr b + 2\<rparr>)
     else (Inl (DnsException ''Try to read behind buffer''), b))"
proof (cases "mBufferPtr b + 2 \<le> length (mBuffer b)")
  case True
  with assms poke_poke [of b "[ucast (drop_bit 8 v)]" "ucast v"] show ?thesis
    by (simp add: put16bits_def checkAvailableSpace_exec seq_def bnd_def poke_exec be16_def)
qed (use assms in \<open>simp add: put16bits_def checkAvailableSpace_exec seq_def bnd_def\<close>)

lemma put32bits_exec:
  assumes "dns_wf b"
  shows "put32bits v b =
    (if mBufferPtr b + 4 \<le> length (mBuffer b)
     then (Inr (), b\<lparr>mBuffer := overwrite (mBufferPtr b) (be32 v) (mBuffer b),
                      mBufferPtr := mBufferPtr b + 4\<rparr>)
     else (Inl (DnsException ''Try to read behind buffer''), b))"
proof (cases "mBufferPtr b + 4 \<le> length (mBuffer b)")
  case True
  let ?b3 = "ucast (drop_bit 24 v) :: byte" and ?b2 = "ucast (drop_bit 16 v) :: byte"
    and ?b1 = "ucast (drop_bit 8 v) :: byte"
  from True assms poke_poke [of b "[?b3]" ?b2] poke_poke [of b "[?b3, ?b2]" ?b1]
    poke_poke [of b "[?b3, ?b2, ?b1]" "ucast v"]
  show ?thesis
    by (simp add: put32bits_def checkAvailableSpace_exec seq_def bnd_def poke_exec be32_def)
qed (use assms in \<open>simp add: put32bits_def checkAvailableSpace_exec seq_def bnd_def\<close>)

lemma slice_nth:
  assumes "slice p n xs = ys" and "i < n" and "p + n \<le> length xs"
  shows "xs ! (p + i) = ys ! i"
  using assms by (auto simp: nth_slice)

interpretation u8: byte_codec put8bits get8bits "\<lambda>_. True" "\<lambda>v. [v]" 1
proof unfold_locales
  fix v :: byte and b b' :: dnsbuf
  assume "dns_wf b"
  then show "put8bits v b = (Inr (), b') \<Longrightarrow>
      mBufferPtr b + length [v] \<le> length (mBuffer b)
      \<and> b' = b\<lparr>mBuffer := overwrite (mBufferPtr b) [v] (mBuffer b),
               mBufferPtr := mBufferPtr b + length [v]\<rparr>"
    by (auto simp: put8bits_exec split: if_splits)
next
  fix v :: byte and b :: dnsbuf
  assume "dns_wf b" and "mBufferPtr b + length [v] \<le> length (mBuffer b)"
    and "slice (mBufferPtr b) (length [v]) (mBuffer b) = [v]"
  then show "get8bits b = (Inr v, b\<lparr>mBufferPtr := mBufferPtr b + length [v]\<rparr>)"
    using slice_nth [of "mBufferPtr b" 1 "mBuffer b" "[v]" 0] by (simp add: get8bits_exec)
qed simp

definition fits16 :: "u32 \<Rightarrow> bool" where
  "fits16 v \<longleftrightarrow> take_bit 16 v = v"

interpretation u16: byte_codec put16bits get16bits fits16 be16 2
proof unfold_locales
  fix v :: u32 and b b' :: dnsbuf
  assume "dns_wf b"
  then show "put16bits v b = (Inr (), b') \<Longrightarrow>
      mBufferPtr b + length (be16 v) \<le> length (mBuffer b)
      \<and> b' = b\<lparr>mBuffer := overwrite (mBufferPtr b) (be16 v) (mBuffer b),
               mBufferPtr := mBufferPtr b + length (be16 v)\<rparr>"
    by (auto simp: put16bits_exec split: if_splits)
next
  fix v :: u32 and b :: dnsbuf
  assume ok: "fits16 v" and wf: "dns_wf b" and len: "mBufferPtr b + length (be16 v) \<le> length (mBuffer b)"
    and s: "slice (mBufferPtr b) (length (be16 v)) (mBuffer b) = be16 v"
  have "mBuffer b ! (mBufferPtr b + i) = be16 v ! i" if "i < 2" for i
    using slice_nth [OF s] that len by simp
  from this [of 0] this [of 1] ok wf len
  show "get16bits b = (Inr v, b\<lparr>mBufferPtr := mBufferPtr b + length (be16 v)\<rparr>)"
    by (simp add: get16bits_def checkAvailableSpace_exec seq_def bnd_def peek_def skip_def
        be16_def join_bytes16 fits16_def)
qed simp

interpretation u32: byte_codec put32bits get32bits "\<lambda>_. True" be32 4
proof unfold_locales
  fix v :: u32 and b b' :: dnsbuf
  assume "dns_wf b"
  then show "put32bits v b = (Inr (), b') \<Longrightarrow>
      mBufferPtr b + length (be32 v) \<le> length (mBuffer b)
      \<and> b' = b\<lparr>mBuffer := overwrite (mBufferPtr b) (be32 v) (mBuffer b),
               mBufferPtr := mBufferPtr b + length (be32 v)\<rparr>"
    by (auto simp: put32bits_exec split: if_splits)
next
  fix v :: u32 and b :: dnsbuf
  assume wf: "dns_wf b" and len: "mBufferPtr b + length (be32 v) \<le> length (mBuffer b)"
    and s: "slice (mBufferPtr b) (length (be32 v)) (mBuffer b) = be32 v"
  have "mBuffer b ! (mBufferPtr b + i) = be32 v ! i" if "i < 4" for i
    using slice_nth [OF s] that len by simp
  from this [of 0] this [of 1] this [of 2] this [of 3] wf len
  show "get32bits b = (Inr v, b\<lparr>mBufferPtr := mBufferPtr b + length (be32 v)\<rparr>)"
    by (simp add: get32bits_def checkAvailableSpace_exec seq_def bnd_def peek_def skip_def
        be32_def join_bytes32 numeral_2_eq_2 numeral_3_eq_3)
qed simp

subsection \<open>Character strings\<close>

interpretation cstr: byte_codec putDnsCharacterString getDnsCharacterString
    "\<lambda>v. length v < 256" "\<lambda>v. of_nat (length v) # v" 1
proof unfold_locales
  fix v :: bytes and b b' :: dnsbuf
  assume ok: "length v < 256" and wf: "dns_wf b" and put: "putDnsCharacterString v b = (Inr (), b')"
  let ?b = "b\<lparr>mBuffer := overwrite (mBufferPtr b) [of_nat (length v)] (mBuffer b),
              mBufferPtr := mBufferPtr b + 1\<rparr>"
  have p: "mBufferPtr b < length (mBuffer b)" and put': "putBytes v ?b = (Inr (), b')"
    using put wf by (auto simp: putDnsCharacterString_def seq_def bnd_def put8bits_exec split: if_splits)
  have "dns_wf ?b" using wf p by (simp add: dns_wf_def)
  with put' ok p overwrite_overwrite [of "mBufferPtr b" "[of_nat (length v)]" v "mBuffer b"]
  show "mBufferPtr b + length (of_nat (length v) # v) \<le> length (mBuffer b)
      \<and> b' = b\<lparr>mBuffer := overwrite (mBufferPtr b) (of_nat (length v) # v) (mBuffer b),
               mBufferPtr := mBufferPtr b + length (of_nat (length v) # v)\<rparr>"
    by (auto simp: putBytes_exec split: if_splits)
next
  fix v :: bytes and b :: dnsbuf
  let ?e = "of_nat (length v) # v"
  assume ok: "length v < 256" and wf: "dns_wf b" and len: "mBufferPtr b + length ?e \<le> length (mBuffer b)"
    and s: "slice (mBufferPtr b) (length ?e) (mBuffer b) = ?e"
  have "mBuffer b ! mBufferPtr b = of_nat (length v)"
    using slice_nth [OF s, of 0] len by simp
  moreover have "slice (mBufferPtr b + 1) (length v) (mBuffer b) = v"
  proof (rule nth_equalityI)
    fix i assume "i < length (slice (mBufferPtr b + 1) (length v) (mBuffer b))"
    then show "slice (mBufferPtr b + 1) (length v) (mBuffer b) ! i = v ! i"
      using slice_nth [OF s, of "Suc i"] len by (simp add: nth_slice)
  qed (use len in simp)
  moreover have "dns_wf (b\<lparr>mBufferPtr := mBufferPtr b + 1\<rparr>)"
    using wf len by (simp add: dns_wf_def)
  ultimately show "getDnsCharacterString b = (Inr v, b\<lparr>mBufferPtr := mBufferPtr b + length ?e\<rparr>)"
    using ok wf len
    by (auto simp: getDnsCharacterString_def bnd_def get8bits_exec getBytes_exec unat_of_nat_byte)
qed simp

end
