(* ===== verification/DnsName.thy ===== *)
theory DnsName
  imports DnsCodec
begin

section \<open>Domain names in a DNS message\<close>

text \<open>
  Correctness of \<open>Buffer::putDnsDomainName\<close> and \<open>Buffer::getDnsDomainName\<close>: what the
  encoder writes, with the link compression, the decoder reads back. A name is a dotted string;
  its wire form is each label after its length, and a zero byte.
\<close>

subsection \<open>Names, labels and their encoding\<close>

fun dotted :: "bytes list \<Rightarrow> bytes" where
  "dotted [] = []"
| "dotted [l] = l"
| "dotted (l # ls) = l @ dot # dotted ls"

fun split_dots :: "bytes \<Rightarrow> bytes list" where
  "split_dots [] = [[]]"
| "split_dots (c # cs) =
     (if c = dot then [] # split_dots cs
      else case split_dots cs of [] \<Rightarrow> [[c]] | l # ls \<Rightarrow> (c # l) # ls)"

fun enc_labels :: "bytes list \<Rightarrow> bytes" where
  "enc_labels [] = [0]"
| "enc_labels (l # ls) = of_nat (length l) # l @ enc_labels ls"

definition label_ok :: "bytes \<Rightarrow> bool" where
  "label_ok l \<longleftrightarrow> l \<noteq> [] \<and> length l \<le> 63 \<and> dot \<notin> set l"

definition labels_ok :: "bytes list \<Rightarrow> bool" where
  "labels_ok ls \<longleftrightarrow> list_all label_ok ls"

text \<open>The names the encoder accepts and encodes correctly; the empty name is the root.\<close>

definition name_ok :: "bytes \<Rightarrow> bool" where
  "name_ok v \<longleftrightarrow> v = [] \<or> (length v \<le> 254 \<and> labels_ok (split_dots v))"

lemma split_dots_not_Nil [simp]: "split_dots v \<noteq> []"
  by (cases v) (auto split: list.splits)

lemma dotted_Cons: "ls \<noteq> [] \<Longrightarrow> dotted (l # ls) = l @ dot # dotted ls"
  by (cases ls) simp_all

lemma dotted_split: "dotted (split_dots v) = v"
proof (induction v)
  case (Cons c cs)
  obtain l ls where s: "split_dots cs = l # ls" by (cases "split_dots cs") auto
  with Cons show ?case by (cases ls) (auto simp: dotted_Cons)
qed simp

lemma split_dotted:
  assumes "labels_ok ls" and "ls \<noteq> []"
  shows "split_dots (dotted ls) = ls"
proof -
  have no_dot: "split_dots (l @ dot # v) = l # split_dots v" if "dot \<notin> set l" for l v
    using that by (induction l) auto
  have last_label: "split_dots l = [l]" if "dot \<notin> set l" for l
    using that by (induction l) auto
  show ?thesis using assms
  proof (induction ls)
    case (Cons l ls)
    then show ?case
      by (cases "ls = []") (auto simp: labels_ok_def label_ok_def dotted_Cons no_dot last_label)
  qed simp
qed

lemma label_len [simp]:
  assumes "label_ok l"
  shows "unat (of_nat (length l) :: byte) = length l" and "(of_nat (length l) :: byte) \<noteq> 0"
proof -
  show 1: "unat (of_nat (length l) :: byte) = length l"
    using assms by (intro unat_of_nat_byte) (simp add: label_ok_def)
  show "(of_nat (length l) :: byte) \<noteq> 0"
    using 1 assms by (metis label_ok_def length_0_conv unat_0)
qed

text \<open>A length byte is below 64, so it is not taken for a link.\<close>

lemma label_not_link:
  assumes "label_ok l"
  shows "drop_bit 6 (of_nat (length l) :: byte) \<noteq> 3"
proof
  assume "drop_bit 6 (of_nat (length l) :: byte) = 3"
  then have "unat (drop_bit 6 (of_nat (length l) :: byte)) = 3" by simp
  then have "length l div 64 = 3"
    using assms by (simp add: drop_bit_eq_div unat_div)
  with assms show False by (simp add: label_ok_def)
qed

lemma length_enc_labels: "length (enc_labels ls) = length (dotted ls) + (if ls = [] then 1 else 2)"
proof (induction ls)
  case (Cons l ls)
  then show ?case by (cases "ls = []") (simp_all add: dotted_Cons)
qed simp

subsection \<open>The label arrays of the encoder\<close>

fun label_offs :: "nat \<Rightarrow> bytes list \<Rightarrow> nat list" where
  "label_offs p [] = []"
| "label_offs p (l # ls) = p # label_offs (p + 1 + length l) ls"

text \<open>The characters of one label go to the array behind the place of its length.\<close>

lemma dn_labels_chars:
  assumes "dot \<notin> set cs" and "drop ix val = cs @ rest" and "dp + length cs \<le> 256"
  shows "dn_labels val arr idx k lp dp ix
       = dn_labels val (mem_write arr dp cs) idx (k + length cs) lp (dp + length cs) (ix + length cs)"
  using assms
proof (induction cs arbitrary: arr k dp ix)
  case Nil
  then show ?case by simp
next
  case (Cons c cs)
  have len: "ix < length val"
    using Cons.prems(2) by (metis append_is_Nil_conv drop_eq_Nil list.distinct(1) not_le_imp_less)
  have c: "val ! ix = c"
    using Cons.prems(2) len by (metis Cons_nth_drop_Suc append_Cons list.inject)
  have d: "drop (ix + 1) val = cs @ rest"
    using Cons.prems(2) by (metis Suc_eq_plus1 append_Cons drop_Suc list.sel(3) tl_drop)
  have step: "dn_labels val arr idx k lp dp ix
      = dn_labels val (arr(dp := c)) idx (k + 1) lp (dp + 1) (ix + 1)"
    using Cons.prems len c
    by (subst dn_labels.simps) (auto simp: arr_set_def MAX_DOMAIN_LEN_def)
  have "mem_write (arr(dp := c)) (dp + 1) cs = mem_write arr dp (c # cs)"
    by (rule ext) (auto simp: mem_write_def nth_Cons')
  moreover have "dn_labels val (arr(dp := c)) idx (k + 1) lp (dp + 1) (ix + 1)
      = dn_labels val (mem_write (arr(dp := c)) (dp + 1) cs) idx (k + 1 + length cs) lp
          (dp + 1 + length cs) (ix + 1 + length cs)"
    by (rule Cons.IH) (use Cons.prems d in auto)
  ultimately show ?case using step by simp
qed

text \<open>One whole label, up to the dot or the end of the name.\<close>

lemma dn_labels_label:
  assumes "label_ok l" and "drop ix val = l @ rest" and "ix + length l < 256"
  shows "dn_labels val arr idx 0 ix (ix + 1) ix
       = dn_labels val (mem_write arr (ix + 1) l) idx (length l) ix (ix + length l + 1) (ix + length l)"
  using dn_labels_chars [of l ix val rest "ix + 1" arr idx 0 ix] assms
  by (simp add: label_ok_def add.commute add.left_commute)

lemma mem_write_length:
  "(mem_write arr (ix + 1) l)(ix := n) = mem_write arr ix (n # l)"
  by (rule ext) (auto simp: mem_write_def nth_Cons')

lemma mem_write_append_Suc:
  "mem_write (mem_write arr ix (n # l)) (Suc (ix + length l)) ys = mem_write arr ix (n # l @ ys)"
  using mem_write_append [of arr ix "n # l" ys] by simp

lemma dotted_not_Nil: "labels_ok ls \<Longrightarrow> ls \<noteq> [] \<Longrightarrow> dotted ls \<noteq> []"
  by (cases ls rule: dotted.cases) (auto simp: labels_ok_def label_ok_def)

lemma drop_dot:
  assumes "drop ix val = l @ c # rest"
  shows "val ! (ix + length l) = c" and "drop (ix + length l + 1) val = rest"
    and "ix + length l < length val"
proof -
  have *: "drop (ix + length l) val = c # rest"
    using assms by (metis add.commute append_eq_conv_conj drop_drop)
  then show "val ! (ix + length l) = c" by (rule nth_via_drop)
  from * show "drop (ix + length l + 1) val = rest"
    by (metis Suc_eq_plus1 drop_Suc list.sel(3) tl_drop)
  from * show "ix + length l < length val"
    by (metis drop_eq_Nil list.distinct(1) not_le_imp_less)
qed

text \<open>A label with another one behind it.\<close>

lemma dn_labels_next:
  assumes l: "label_ok l" and d: "drop ix val = l @ dot # rest" and "rest \<noteq> []"
    and "length val \<le> 255" and "length idx \<le> ix"
  shows "dn_labels val arr idx 0 ix (ix + 1) ix
       = dn_labels val (mem_write arr ix (of_nat (length l) # l)) (idx @ [ix]) 0
           (ix + length l + 1) (ix + length l + 1 + 1) (ix + length l + 1)"
proof -
  let ?jx = "ix + length l"
  have jx: "?jx + 1 < length val"
    using drop_dot(2) [OF d] assms(3) by (metis drop_eq_Nil not_le_imp_less)
  have "dn_labels val arr idx 0 ix (ix + 1) ix
      = dn_labels val (mem_write arr (ix + 1) l) idx (length l) ix (?jx + 1) ?jx"
    using dn_labels_label [OF l d, of arr idx] jx assms(4) by simp
  also have "\<dots> = dn_labels val (mem_write arr ix (of_nat (length l) # l)) (idx @ [ix]) 0
      (?jx + 1) (?jx + 1 + 1) (?jx + 1)"
    using jx l drop_dot(1) [OF d] assms(4,5) mem_write_length [of arr ix l "of_nat (length l)"]
    by (subst dn_labels.simps)
      (auto simp: arr_set_def MAX_DOMAIN_LEN_def MAX_LABEL_LEN_def label_ok_def)
  finally show ?thesis .
qed

text \<open>A label that is too long stops the encoder, wherever in the name it stands.\<close>

lemma dn_labels_too_long:
  assumes "labels_ok pre" and "drop ix val = concat (map (\<lambda>l. l @ [dot]) pre) @ l @ rest"
    and "rest = [] \<or> hd rest = dot" and "dot \<notin> set l" and "length l > 63"
    and "length val \<le> 255" and "length idx \<le> ix" and "ix \<le> length val"
  shows "dn_labels val arr idx 0 ix (ix + 1) ix = Inl (DnsException
    ''Encoding failed because of too long domain label (max length is 63 characters)'')"
  using assms
proof (induction pre arbitrary: arr idx ix)
  case Nil
  let ?jx = "ix + length l"
  have d: "drop ix val = l @ rest" using Nil.prems(2) by simp
  have len: "length val = ?jx + length rest"
    using d Nil.prems(8) by (metis add.assoc add_diff_inverse_nat length_append length_drop not_less)
  have step: "dn_labels val arr idx 0 ix (ix + 1) ix
      = dn_labels val (mem_write arr (ix + 1) l) idx (length l) ix (?jx + 1) ?jx"
    using dn_labels_chars [OF Nil.prems(4) d, of "ix + 1" arr idx 0 ix] Nil.prems(6) len
    by (simp add: add.commute add.left_commute)
  have "?jx = length val \<or> val ! ?jx = dot"
  proof (cases rest)
    case (Cons c cs)
    with drop_dot(1) [of ix val l c cs] d Nil.prems(3) show ?thesis by simp
  qed (use len in simp)
  then show ?case
    unfolding step using Nil.prems(5) len
    by (subst dn_labels.simps) (auto simp: MAX_LABEL_LEN_def)
next
  case (Cons k pre)
  let ?rest = "concat (map (\<lambda>l. l @ [dot]) pre) @ l @ rest"
  have k: "label_ok k" "labels_ok pre" using Cons.prems(1) by (simp_all add: labels_ok_def)
  have d: "drop ix val = k @ dot # ?rest" using Cons.prems(2) by simp
  have "dn_labels val arr idx 0 ix (ix + 1) ix
      = dn_labels val (mem_write arr ix (of_nat (length k) # k)) (idx @ [ix]) 0
          (ix + length k + 1) (ix + length k + 1 + 1) (ix + length k + 1)"
    by (rule dn_labels_next [OF k(1) d _ Cons.prems(6,7)]) (use Cons.prems(5) in auto)
  also have "\<dots> = Inl (DnsException
      ''Encoding failed because of too long domain label (max length is 63 characters)'')"
    by (rule Cons.IH [OF k(2) drop_dot(2) [OF d] Cons.prems(3-6)])
      (use Cons.prems(7) drop_dot(3) [OF d] in simp_all)
  finally show ?case .
qed

text \<open>
  From the start of a label to the end of the name: the array receives the encoding, and the
  index list the start of every label. The zero byte behind the last label is the byte at
  \<open>length val + 1\<close>, which a name of 255 characters puts outside the array.
\<close>

lemma dn_labels_enc:
  assumes "labels_ok ls" and "ls \<noteq> []" and "drop ix val = dotted ls"
    and "length val \<le> 255" and "ix \<le> length val" and "length idx \<le> ix"
  shows "dn_labels val arr idx 0 ix (ix + 1) ix =
    (if length val \<le> 254
     then Inr (mem_write arr ix (enc_labels ls), idx @ label_offs ix ls, length val + 2)
     else Inl (UndefinedBehaviour ''write outside array''))"
  using assms
proof (induction ls arbitrary: arr idx ix)
  case (Cons l ls)
  have l: "label_ok l" and ls: "labels_ok ls" using Cons.prems(1) by (simp_all add: labels_ok_def)
  have total: "length val = ix + length (dotted (l # ls))"
    using Cons.prems(3,5) by (metis add_diff_inverse_nat length_drop not_less)
  let ?m = "mem_write arr ix (of_nat (length l) # l)"
  let ?jx = "ix + length l"
  have m: "(mem_write arr (Suc ix) l)(ix := of_nat (length l)) = ?m"
    using mem_write_length [of arr ix l "of_nat (length l)"] by simp
  have k: "length l \<le> MAX_LABEL_LEN" and n: "length idx < MAX_DOMAIN_LEN + 1"
    using l Cons.prems(4-6) by (simp_all add: label_ok_def MAX_LABEL_LEN_def MAX_DOMAIN_LEN_def)
  have pos: "0 < length l" using l by (simp add: label_ok_def)
  show ?case
  proof (cases "ls = []")
    case True
    then have jx: "?jx = length val" using total by simp
    have "dn_labels val arr idx 0 ix (ix + 1) ix
        = dn_labels val (mem_write arr (ix + 1) l) idx (length l) ix (?jx + 1) ?jx"
      using dn_labels_label [OF l, of ix val "[]" arr idx] Cons.prems True jx by simp
    also have "\<dots> = (case arr_set ?m (?jx + 1) 0 of Inl e \<Rightarrow> Inl e
        | Inr a \<Rightarrow> Inr (a, idx @ [ix], ?jx + 2))"
      using jx k n Cons.prems(4) pos
      by (subst dn_labels.simps) (simp add: arr_set_def m MAX_DOMAIN_LEN_def)
    also have "\<dots> = (if length val \<le> 254
        then Inr (mem_write arr ix (enc_labels [l]), idx @ [ix], length val + 2)
        else Inl (UndefinedBehaviour ''write outside array''))"
      using jx mem_write_append_Suc [of arr ix "of_nat (length l)" l "[0]"]
      by (simp add: arr_set_def MAX_DOMAIN_LEN_def mem_write_single)
    finally show ?thesis using True by simp
  next
    case False
    have d: "drop ix val = l @ dot # dotted ls"
      using Cons.prems(3) False by (simp add: dotted_Cons)
    have d': "drop (?jx + 1) val = dotted ls" and jx: "?jx < length val"
      using drop_dot [OF d] by simp_all
    have "dn_labels val arr idx 0 ix (ix + 1) ix
        = dn_labels val ?m (idx @ [ix]) 0 (?jx + 1) (?jx + 1 + 1) (?jx + 1)"
      by (rule dn_labels_next [OF l d dotted_not_Nil [OF ls False] Cons.prems(4,6)])
    also have "\<dots> = (if length val \<le> 254
       then Inr (mem_write ?m (?jx + 1) (enc_labels ls), (idx @ [ix]) @ label_offs (?jx + 1) ls,
                 length val + 2)
       else Inl (UndefinedBehaviour ''write outside array''))"
      by (rule Cons.IH [OF ls False d' Cons.prems(4)]) (use jx Cons.prems(6) in simp_all)
    finally show ?thesis
      by (simp add: mem_write_append_Suc add.commute)
  qed
qed simp

subsection \<open>A name in a buffer\<close>

text \<open>
  \<open>name_at p0 buf p ls q\<close>: in the encoding of a name that starts at \<open>p0\<close>, the bytes from
  \<open>p\<close> to \<open>q\<close> stand for the labels \<open>ls\<close>: labels and a zero byte, or a link to an earlier
  place where the labels stand in full.
\<close>

inductive name_at :: "nat \<Rightarrow> bytes \<Rightarrow> nat \<Rightarrow> bytes list \<Rightarrow> nat \<Rightarrow> bool" for p0 buf where
  at_end: "p < length buf \<Longrightarrow> buf ! p = 0 \<Longrightarrow> name_at p0 buf p [] (p + 1)"
| at_label: "label_ok l \<Longrightarrow> p + (1 + length l) \<le> length buf \<Longrightarrow>
    slice p (1 + length l) buf = of_nat (length l) # l \<Longrightarrow>
    name_at p0 buf (p + (1 + length l)) ls q \<Longrightarrow> name_at p0 buf p (l # ls) q"
| at_link: "p + 2 \<le> length buf \<Longrightarrow> slice p 2 buf = be16 (0xC000 + of_nat t) \<Longrightarrow> t \<noteq> p0 \<Longrightarrow>
    t < 0x4000 \<Longrightarrow> t + length (enc_labels ls) \<le> p \<Longrightarrow>
    slice t (length (enc_labels ls)) buf = enc_labels ls \<Longrightarrow> labels_ok ls \<Longrightarrow> ls \<noteq> [] \<Longrightarrow>
    name_at p0 buf p ls (p + 2)"

lemma name_at_bounds: "name_at p0 buf p ls q \<Longrightarrow> p < q \<and> q \<le> length buf"
  by (induction rule: name_at.induct) auto

lemma name_at_take:
  assumes "name_at p0 buf p ls q" and "take q buf' = take q buf" and "q \<le> length buf'"
  shows "name_at p0 buf' p ls q"
  using assms
proof (induction rule: name_at.induct)
  case (at_end p)
  then show ?case
    by (intro name_at.at_end) (auto dest: nth_eq_take [where i = p])
next
  case (at_label l p ls q)
  have q: "p + (1 + length l) \<le> q" using name_at_bounds [OF at_label.hyps(4)] by simp
  show ?case
    by (rule name_at.at_label)
      (use at_label q slice_eq_take [OF at_label.prems(1) q] in simp_all)
next
  case (at_link p t ls)
  show ?case
    by (rule name_at.at_link [of p _ t])
      (use at_link slice_eq_take [OF at_link.prems(1), of p 2]
         slice_eq_take [OF at_link.prems(1), of t "length (enc_labels ls)"] in simp_all)
qed

subsection \<open>What the encoder writes\<close>

abbreviation enc_plain :: "bytes list \<Rightarrow> bytes" where
  "enc_plain ls \<equiv> concat (map (\<lambda>l. of_nat (length l) # l) ls)"

text \<open>Complete encodings are not found inside a run of labels without a zero byte.\<close>

lemma enc_not_prefix:
  assumes "labels_ok pre" and "labels_ok ls" and "take (length (enc_labels ls)) (enc_plain pre) = enc_labels ls"
  shows False
  using assms
proof (induction ls arbitrary: pre)
  case Nil
  then show ?case
    by (cases pre) (auto simp: labels_ok_def)
next
  case (Cons l ls)
  then obtain k pre' where pre: "pre = k # pre'" by (cases pre) auto
  have k: "label_ok k" "label_ok l" using Cons.prems pre by (simp_all add: labels_ok_def)
  have "(of_nat (length k) :: byte) = of_nat (length l)"
    using Cons.prems(3) pre by simp
  then have len: "length k = length l" using k by (metis label_len(1))
  then have "take (length (enc_labels ls)) (enc_plain pre') = enc_labels ls"
    using Cons.prems(3) pre by simp
  then show ?case
    using Cons.IH [of pre'] Cons.prems(1,2) pre by (simp add: labels_ok_def)
qed

lemma mem_read_tail:
  assumes "mem_read arr k n = x # xs @ ys"
  shows "mem_read arr (k + (1 + length xs)) (n - (1 + length xs)) = ys"
    and "mem_read arr k (1 + length xs) = x # xs" and "arr k = x"
proof -
  have n: "n = (1 + length xs) + length ys"
    using arg_cong [OF assms, of length] by simp
  have eq: "mem_read arr k (1 + length xs) @ mem_read arr (k + (1 + length xs)) (length ys) = (x # xs) @ ys"
    using assms unfolding n mem_read_append by simp
  have "length (mem_read arr k (1 + length xs)) = length (x # xs)" by simp
  from append_eq_append_conv [OF disjI1 [OF this]] eq
  have "mem_read arr k (1 + length xs) = x # xs
      \<and> mem_read arr (k + (1 + length xs)) (length ys) = ys" by blast
  then show "mem_read arr k (1 + length xs) = x # xs"
    and "mem_read arr (k + (1 + length xs)) (n - (1 + length xs)) = ys"
    using n by simp_all
  then show "arr k = x" using nth_mem_read [of 0 "1 + length xs" arr k] by simp
qed

lemma find_tip_Some:
  assumes "find_tip sub b = Some t"
  shows "t + length sub < mBufferPtr b" and "slice t (length sub) (mBuffer b) = sub"
  using assms by (auto simp: find_tip_def find_Some_iff split: if_splits)

lemma dn_compress_name_at:
  assumes "labels_ok ls" and "dns_wf b" and "mem_read arr k (dp - k) = enc_labels ls"
    and "labels_ok pre" and "slice p0 (length (enc_plain pre)) (mBuffer b) = enc_plain pre"
    and "mBufferPtr b = p0 + length (enc_plain pre)"
    and "dn_compress arr dp (label_offs k ls) b = (Inr (), b')"
  shows "wrote b b' \<and> name_at p0 (mBuffer b') (mBufferPtr b) ls (mBufferPtr b')"
  using assms
proof (induction ls arbitrary: k pre b)
  case Nil
  then have len: "mBufferPtr b < length (mBuffer b)"
    and b': "b' = b\<lparr>mBuffer := overwrite (mBufferPtr b) [0] (mBuffer b), mBufferPtr := mBufferPtr b + 1\<rparr>"
    by (auto simp: put8bits_exec split: if_splits)
  have "name_at p0 (mBuffer b') (mBufferPtr b) [] (mBufferPtr b + 1)"
    using len b' by (intro at_end) (simp_all add: overwrite_def nth_append)
  then show ?case
    using b' wrote_overwrite [OF Nil.prems(2), of "[0]"] len by simp
next
  case (Cons l ls)
  let ?p = "mBufferPtr b"
  have l: "label_ok l" and ls: "labels_ok ls" using Cons.prems(1) by (simp_all add: labels_ok_def)
  have arr: "mem_read arr k (dp - k) = of_nat (length l) # l @ enc_labels ls"
    using Cons.prems(3) by simp
  note tail = mem_read_tail [OF arr]
  have pb: "?p \<le> length (mBuffer b)" "length (mBuffer b) \<le> 0x4000"
    using Cons.prems(2) by (simp_all add: dns_wf_def)
  show ?case
  proof (cases "find_tip (enc_labels (l # ls)) b")
    case (Some t)
    let ?n = "length (enc_labels (l # ls))"
    have t: "t + ?n < ?p" "slice t ?n (mBuffer b) = enc_labels (l # ls)"
      using find_tip_Some [OF Some] .
    have len: "?p + 2 \<le> length (mBuffer b)"
      and b': "b' = b\<lparr>mBuffer := overwrite ?p (be16 (0xC000 + of_nat t)) (mBuffer b), mBufferPtr := ?p + 2\<rparr>"
      using Cons.prems(2,3,7) Some by (auto simp: put16bits_exec bnd_def split: if_splits)
    have "t \<noteq> p0"
    proof
      assume "t = p0"
      then have "take ?n (enc_plain pre) = enc_labels (l # ls)"
        using t Cons.prems(5,6) take_slice [of ?n "length (enc_plain pre)" p0 "mBuffer b"] by simp
      then show False using enc_not_prefix [OF Cons.prems(4,1)] by blast
    qed
    moreover have "slice t ?n (mBuffer b') = enc_labels (l # ls)"
      using t b' pb slice_eq_take [OF take_overwrite [of ?p ?p "mBuffer b"], of t ?n] by simp
    moreover have "slice ?p 2 (mBuffer b') = be16 (0xC000 + of_nat t)"
      using b' len slice_overwrite_same [of ?p "be16 (0xC000 + of_nat t)" "mBuffer b"] by simp
    ultimately have "name_at p0 (mBuffer b') ?p (l # ls) (?p + 2)"
      using t len pb b' Cons.prems(1) by (intro at_link [where t = t]) simp_all
    then show ?thesis
      using b' wrote_overwrite [OF Cons.prems(2), of "be16 (0xC000 + of_nat t)"] len by simp
  next
    case None
    let ?d = "of_nat (length l) # l"
    let ?b = "b\<lparr>mBuffer := overwrite ?p ?d (mBuffer b), mBufferPtr := ?p + (1 + length l)\<rparr>"
    have len: "?p + (1 + length l) \<le> length (mBuffer b)"
      and rest: "dn_compress arr dp (label_offs (k + 1 + length l) ls) ?b = (Inr (), b')"
      using Cons.prems(2,3,7) None tail(2,3) l
      by (auto simp: putBytes_exec bnd_def seq_def label_ok_def split: if_splits)
    have w: "wrote b ?b"
      using wrote_overwrite [OF Cons.prems(2), of ?d] len by simp
    then have wf: "dns_wf ?b" by (simp add: wrote_def)
    have pre: "slice p0 (length (enc_plain (pre @ [l]))) (mBuffer ?b) = enc_plain (pre @ [l])"
    proof -
      have "slice p0 (length (enc_plain pre)) (mBuffer ?b) = enc_plain pre"
        using Cons.prems(5,6) pb slice_eq_take [OF take_overwrite [of ?p ?p "mBuffer b" ?d]] by simp
      moreover have "slice ?p (1 + length l) (mBuffer ?b) = ?d"
        using len slice_overwrite_same [of ?p ?d "mBuffer b"] by simp
      ultimately show ?thesis
        using Cons.prems(6) slice_append [of p0 "length (enc_plain pre)" "1 + length l" "mBuffer ?b"]
        by simp
    qed
    have ok: "labels_ok (pre @ [l])" using Cons.prems(4) l by (simp add: labels_ok_def)
    have "wrote ?b b' \<and> name_at p0 (mBuffer b') (mBufferPtr ?b) ls (mBufferPtr b')"
      by (rule Cons.IH [OF ls wf _ ok pre _ rest])
        (use tail(1) Cons.prems(6) in \<open>simp_all add: add.assoc\<close>)
    then have w': "wrote ?b b'" and at: "name_at p0 (mBuffer b') (?p + (1 + length l)) ls (mBufferPtr b')"
      by simp_all
    have "slice ?p (1 + length l) (mBuffer b') = ?d"
      using slice_eq_take [OF wrote_take [OF w' order_refl], of ?p "1 + length l"]
        slice_overwrite_same [of ?p ?d "mBuffer b"] len by simp
    then have "name_at p0 (mBuffer b') ?p (l # ls) (mBufferPtr b')"
      using l len at w' by (intro at_label) (simp_all add: wrote_def)
    then show ?thesis using wrote_trans [OF w w'] by simp
  qed
qed

subsection \<open>What the decoder reads\<close>

text \<open>The decoder's loop appends labels to the name read so far.\<close>

fun join_labels :: "bytes \<Rightarrow> bytes list \<Rightarrow> bytes" where
  "join_labels d [] = d"
| "join_labels d (l # ls) = join_labels ((if length d > 0 then d @ [dot] else d) @ l) ls"

lemma join_labels_eq:
  "labels_ok ls \<Longrightarrow> join_labels d ls =
     (if d = [] then dotted ls else if ls = [] then d else d @ dot # dotted ls)"
proof (induction ls arbitrary: d)
  case (Cons l ls)
  then have l: "l \<noteq> []" and ls: "labels_ok ls" by (simp_all add: labels_ok_def label_ok_def)
  then show ?case
    using Cons.IH by (cases "ls = []") (simp_all add: dotted_Cons)
qed simp

text \<open>The two bytes of a link, as the encoder writes and the decoder takes them.\<close>

lemma link_bytes:
  assumes "t < 0x4000" and "be16 (0xC000 + of_nat t) = [hi, lo]"
  shows "hi \<noteq> 0" and "drop_bit 6 hi = 3" and "unat (hi AND 63) * 256 + unat lo = t"
proof -
  let ?v = "0xC000 + of_nat t :: u32"
  have v: "unat ?v = 0xC000 + t"
    using assms(1) by (simp add: unat_word_ariths unat_of_nat)
  have hi: "hi = ucast (drop_bit 8 ?v)" and lo: "lo = ucast ?v"
    using assms(2) by (simp_all add: be16_def)
  have "unat hi = (0xC000 + t) div 256 mod 256"
    by (simp add: hi unsigned_ucast_eq unsigned_take_bit_eq take_bit_eq_mod drop_bit_eq_div unat_div v)
  also have "(0xC000 + t) div 256 = 192 + t div 256"
    using div_mult_self1 [of 256 t 192] by (simp add: add.commute)
  also have "(192 + t div 256) mod 256 = 192 + t div 256"
    using assms(1) by (intro mod_less) (simp add: div_less_iff_less_mult)
  finally have uhi: "unat hi = 192 + t div 256" .
  have "unat lo = (0xC000 + t) mod 256"
    by (simp add: lo unsigned_ucast_eq unsigned_take_bit_eq take_bit_eq_mod v)
  also have "\<dots> = t mod 256"
    using mod_mult_self1 [of t 192 256] by (simp add: add.commute)
  finally have ulo: "unat lo = t mod 256" .
  show "hi \<noteq> 0" using uhi by auto
  have "unat (drop_bit 6 hi) = unat (3 :: byte)"
  proof -
    have "t div 256 < 64" using assms(1) by (simp add: div_less_iff_less_mult)
    then have "(192 + t div 256) div 64 = 3" by simp
    then show ?thesis by (simp add: drop_bit_eq_div unat_div uhi)
  qed
  then show "drop_bit 6 hi = 3" by (rule unsigned_word_eqI)
  have "unat (hi AND 63) = unat hi mod 64"
  proof -
    have "hi AND 63 = take_bit 6 hi" by (simp add: take_bit_eq_mask mask_eq_exp_minus_1)
    then show ?thesis by (simp only: unsigned_take_bit_eq) (simp add: take_bit_eq_mod)
  qed
  also have "\<dots> = t div 256"
    using assms(1) mod_mult_self2 [of "t div 256" 64 3] by (simp add: uhi add.commute div_less_iff_less_mult)
  finally show "unat (hi AND 63) * 256 + unat lo = t" by (simp add: ulo)
qed

text \<open>One label.\<close>

lemma dn_loop_label:
  assumes wf: "dns_wf b" and l: "label_ok l" and len: "mBufferPtr b + (1 + length l) \<le> length (mBuffer b)"
    and s: "slice (mBufferPtr b) (1 + length l) (mBuffer b) = of_nat (length l) # l"
  shows "dn_loop c d b = dn_loop c ((if length d > 0 then d @ [dot] else d) @ l)
           (b\<lparr>mBufferPtr := mBufferPtr b + (1 + length l)\<rparr>)"
proof -
  let ?b = "b\<lparr>mBufferPtr := mBufferPtr b + 1\<rparr>"
  have ctrl: "mBuffer b ! mBufferPtr b = of_nat (length l)"
    using slice_nth [OF s, of 0] len by simp
  have "slice (mBufferPtr b + 1) (length l) (mBuffer b) = l"
    using slice_split(2) [of "mBufferPtr b" 1 "length l" "mBuffer b" "[of_nat (length l)]" l] s by simp
  moreover have "dns_wf ?b" using wf len by (simp add: dns_wf_def)
  moreover have "length l \<le> MAX_LABEL_LEN" and "length l \<le> 0x4000"
    using l by (simp_all add: label_ok_def MAX_LABEL_LEN_def)
  ultimately show ?thesis
    using wf l len ctrl label_not_link [OF l]
    by (subst dn_loop.simps) (simp add: bnd_def get8bits_exec getBytes_exec)
qed

lemma dn_loop_zero:
  assumes "dns_wf b" and "mBufferPtr b < length (mBuffer b)" and "mBuffer b ! mBufferPtr b = 0"
  shows "dn_loop c d b = (Inr d, b\<lparr>mBufferPtr := mBufferPtr b + 1\<rparr>)"
  using assms by (subst dn_loop.simps) (simp add: bnd_def get8bits_exec)

text \<open>Labels that stand in full.\<close>

lemma dn_loop_plain:
  assumes "dns_wf b" and "labels_ok ls"
    and "mBufferPtr b + length (enc_labels ls) \<le> length (mBuffer b)"
    and "slice (mBufferPtr b) (length (enc_labels ls)) (mBuffer b) = enc_labels ls"
  shows "dn_loop c d b = (Inr (join_labels d ls), b\<lparr>mBufferPtr := mBufferPtr b + length (enc_labels ls)\<rparr>)"
  using assms
proof (induction ls arbitrary: d b)
  case Nil
  then show ?case
    using dn_loop_zero [of b c d] slice_nth [OF Nil.prems(4), of 0] by simp
next
  case (Cons l ls)
  let ?b = "b\<lparr>mBufferPtr := mBufferPtr b + (1 + length l)\<rparr>"
  have l: "label_ok l" and ls: "labels_ok ls" using Cons.prems(2) by (simp_all add: labels_ok_def)
  have parts: "slice (mBufferPtr b) (1 + length l) (mBuffer b) = of_nat (length l) # l"
      "slice (mBufferPtr b + (1 + length l)) (length (enc_labels ls)) (mBuffer b) = enc_labels ls"
    using slice_split [of "mBufferPtr b" "1 + length l" "length (enc_labels ls)" "mBuffer b"
        "of_nat (length l) # l" "enc_labels ls"] Cons.prems(4) by simp_all
  have "dn_loop c d b = dn_loop c ((if length d > 0 then d @ [dot] else d) @ l) ?b"
    by (rule dn_loop_label [OF Cons.prems(1) l _ parts(1)]) (use Cons.prems(3) in simp)
  also have "\<dots> = (Inr (join_labels ((if length d > 0 then d @ [dot] else d) @ l) ls),
      ?b\<lparr>mBufferPtr := mBufferPtr ?b + length (enc_labels ls)\<rparr>)"
    by (rule Cons.IH [OF _ ls]) (use Cons.prems(1,3) parts(2) in \<open>simp_all add: dns_wf_def\<close>)
  finally show ?case by (simp add: add.assoc)
qed

text \<open>
  A name as the encoder leaves it. A link makes the decoder start a nested name; its start is
  not the start of the outer name, so the loop check accepts it. Behind a link the decoder
  sets the position back with \<open>setPos\<close>, which refuses the end of the buffer: one more byte
  must follow.
\<close>

lemma dn_loop_name_at:
  assumes "name_at p0 (mBuffer b) (mBufferPtr b) ls q" and "dns_wf b" and "mLinkPos b = [p0]"
    and "q < length (mBuffer b)" and "length (dotted ls) \<le> 255" and "labels_ok ls"
  shows "dn_loop True d b = (Inr (join_labels d ls), b\<lparr>mBufferPtr := q\<rparr>)"
proof -
  have "name_at p0 bf p ls q \<Longrightarrow> dns_wf b \<Longrightarrow> mBuffer b = bf \<Longrightarrow> mBufferPtr b = p \<Longrightarrow>
      mLinkPos b = [p0] \<Longrightarrow> q < length bf \<Longrightarrow> length (dotted ls) \<le> 255 \<Longrightarrow>
      labels_ok ls \<Longrightarrow> dn_loop True d b = (Inr (join_labels d ls), b\<lparr>mBufferPtr := q\<rparr>)" for bf p
  proof (induction arbitrary: b d rule: name_at.induct)
    case (at_end p)
    then show ?case using dn_loop_zero [of b True d] by simp
  next
    case (at_label l p ls q)
    let ?b = "b\<lparr>mBufferPtr := p + (1 + length l)\<rparr>"
    have "length (dotted ls) \<le> length (dotted (l # ls))"
      by (cases "ls = []") (simp_all add: dotted_Cons)
    then have "dn_loop True ((if length d > 0 then d @ [dot] else d) @ l) ?b
        = (Inr (join_labels ((if length d > 0 then d @ [dot] else d) @ l) ls), ?b\<lparr>mBufferPtr := q\<rparr>)"
      by (intro at_label.IH) (use at_label in \<open>auto simp: dns_wf_def labels_ok_def\<close>)
    then show ?case
      using dn_loop_label [of b l True d] at_label by simp
  next
    case (at_link p t ls)
    obtain hi lo where e: "be16 (0xC000 + of_nat t) = [hi, lo]" by (simp add: be16_def)
    note lb = link_bytes [OF at_link.hyps(4) e]
    have s: "slice p 2 bf = [hi, lo]" using at_link.hyps(2) e by simp
    have hi: "bf ! p = hi" and lo: "bf ! (p + 1) = lo"
      using slice_nth [OF s, of 0] slice_nth [OF s, of 1] at_link.hyps(1) by simp_all
    let ?n = "length (enc_labels ls)"
    let ?b1 = "b\<lparr>mBufferPtr := p + 1\<rparr>" and ?b2 = "b\<lparr>mBufferPtr := p + 2\<rparr>"
    let ?bt = "b\<lparr>mBufferPtr := t\<rparr>"
    let ?bl = "?bt\<lparr>mLinkPos := [p0, t]\<rparr>"
    have n: "0 < ?n" by (cases ls) simp_all
    have "dn_loop True [] ?bl = (Inr (join_labels [] ls), ?bl\<lparr>mBufferPtr := t + ?n\<rparr>)"
      using dn_loop_plain [of ?bl ls True "[]"] at_link by (simp add: dns_wf_def)
    moreover have "join_labels [] ls = dotted ls"
      using at_link.hyps(7) by (simp add: join_labels_eq)
    ultimately have nested: "getDnsDomainName True ?bt = (Inr (dotted ls), ?bt\<lparr>mBufferPtr := t + ?n\<rparr>)"
      using at_link.hyps(3) at_link.prems(4,6)
      by (subst getDnsDomainName.simps) (simp add: bnd_def seq_def MAX_DOMAIN_LEN_def)
    have "get8bits b = (Inr hi, ?b1)" and "get8bits ?b1 = (Inr lo, ?b2)"
      using at_link hi lo by (simp_all add: get8bits_exec dns_wf_def numeral_2_eq_2)
    moreover have "setPos t ?b2 = (Inr (), ?bt)"
      using at_link.hyps(1,5) at_link.prems(2) n by (simp add: setPos_def bnd_def)
    moreover have "setPos (p + 2) (?bt\<lparr>mBufferPtr := t + ?n\<rparr>) = (Inr (), ?b2)"
      using at_link.prems(2,5) by (simp add: setPos_def bnd_def)
    ultimately have "dn_loop True d b
        = (Inr ((if length d > 0 then d @ [dot] else d) @ dotted ls), ?b2)"
      using lb nested by (subst dn_loop.simps) (simp add: bnd_def seq_def)
    moreover have "join_labels d ls = (if length d > 0 then d @ [dot] else d) @ dotted ls"
      using at_link.hyps(7,8) by (simp add: join_labels_eq)
    ultimately show ?case using at_link by simp
  qed
  then show ?thesis using assms by blast
qed

subsection \<open>The contract for names\<close>

lemma name_okE:
  assumes "name_ok v" and "v \<noteq> []"
  obtains ls where "labels_ok ls" and "ls \<noteq> []" and "v = dotted ls" and "length v \<le> 254"
proof (rule that)
  show "labels_ok (split_dots v)" and "length v \<le> 254"
    using assms by (simp_all add: name_ok_def)
  show "split_dots v \<noteq> []" and "v = dotted (split_dots v)"
    by (simp_all add: dotted_split)
qed

lemma putDnsDomainName_name_at:
  assumes "name_ok v" and "dns_wf b" and "putDnsDomainName uninit v True b = (Inr (), b')"
  obtains ls where "labels_ok ls" and "v = dotted ls" and "length v \<le> 254" and "wrote b b'"
    and "name_at (mBufferPtr b) (mBuffer b') (mBufferPtr b) ls (mBufferPtr b')"
proof (cases "v = []")
  case True
  then have "dn_compress (mem_write uninit 0 [0]) 1 (label_offs 0 []) b = (Inr (), b')"
    using assms(3) by (simp add: putDnsDomainName_def)
  then have "wrote b b' \<and> name_at (mBufferPtr b) (mBuffer b') (mBufferPtr b) [] (mBufferPtr b')"
    using dn_compress_name_at [of "[]" b "mem_write uninit 0 [0]" 0 1 "[]" "mBufferPtr b" b'] assms(2)
      mem_read_write_prefix [of 1 "[0 :: byte]" uninit 0]
    by (simp add: labels_ok_def)
  with True that [of "[]"] show ?thesis by (simp add: labels_ok_def)
next
  case False
  then obtain ls where ls: "labels_ok ls" "ls \<noteq> []" "v = dotted ls" "length v \<le> 254"
    using name_okE assms(1) by blast
  let ?arr = "mem_write uninit 0 (enc_labels ls)"
  have "dn_labels v uninit [] 0 0 1 0 = Inr (?arr, label_offs 0 ls, length v + 2)"
    using dn_labels_enc [of ls 0 v "[]" uninit] ls by simp
  then have "dn_compress ?arr (length v + 2) (label_offs 0 ls) b = (Inr (), b')"
    using assms(3) ls False by (simp add: putDnsDomainName_def MAX_DOMAIN_LEN_def)
  moreover have "mem_read ?arr 0 (length v + 2 - 0) = enc_labels ls"
    using ls by (simp add: length_enc_labels mem_read_write_prefix)
  ultimately have "wrote b b' \<and> name_at (mBufferPtr b) (mBuffer b') (mBufferPtr b) ls (mBufferPtr b')"
    using dn_compress_name_at [of ls b ?arr 0 "length v + 2" "[]" "mBufferPtr b" b'] ls assms(2)
    by (simp add: labels_ok_def)
  with ls that show ?thesis by blast
qed

interpretation name: wire_codec "\<lambda>v. putDnsDomainName uninit v True" "getDnsDomainName True" name_ok 1 1
  for uninit
proof unfold_locales
  fix v and b b' :: dnsbuf
  assume ok: "name_ok v" and wf: "dns_wf b" and put: "putDnsDomainName uninit v True b = (Inr (), b')"
  then obtain ls where ls: "labels_ok ls" "v = dotted ls" "length v \<le> 254" and w: "wrote b b'"
    and at: "name_at (mBufferPtr b) (mBuffer b') (mBufferPtr b) ls (mBufferPtr b')"
    by (rule putDnsDomainName_name_at)
  show "wrote b b' \<and> mBufferPtr b + 1 \<le> mBufferPtr b'"
    using w name_at_bounds [OF at] by simp
  show "reads (getDnsDomainName True) v (mBufferPtr b) (mBufferPtr b') (mBufferPtr b' + 1) (mBuffer b')"
    unfolding reads_def
  proof (intro allI impI)
    fix c :: dnsbuf
    assume c: "dns_wf c" "mBufferPtr c = mBufferPtr b" "mLinkPos c = []"
      "take (mBufferPtr b') (mBuffer c) = take (mBufferPtr b') (mBuffer b')"
      "mBufferPtr b' + 1 \<le> length (mBuffer c)"
    show "getDnsDomainName True c = (Inr v, c\<lparr>mBufferPtr := mBufferPtr b'\<rparr>)"
    proof -
      have bf: "name_at (mBufferPtr b) (mBuffer c) (mBufferPtr b) ls (mBufferPtr b')"
        using name_at_take [OF at c(4)] c(5) by simp
      let ?c = "c\<lparr>mLinkPos := [mBufferPtr b]\<rparr>"
      have "dn_loop True [] ?c = (Inr (join_labels [] ls), ?c\<lparr>mBufferPtr := mBufferPtr b'\<rparr>)"
        by (rule dn_loop_name_at [of "mBufferPtr b"]) (use bf c ls in simp_all)
      then show ?thesis
        using c(2,3) ls by (subst getDnsDomainName.simps)
          (simp add: bnd_def seq_def join_labels_eq MAX_DOMAIN_LEN_def)
    qed
  qed
qed

end
