(* ===== verification/DnsRecords.thy ===== *)
theory DnsRecords
  imports DnsName
begin

section \<open>Resource records and questions\<close>

text \<open>
  \<open>dnslib/rr.h\<close>, \<open>dnslib/rr.cpp\<close>, \<open>dnslib/qs.h\<close> and \<open>dnslib/qs.cpp\<close>: the RDATA classes
  with their virtual \<open>decode\<close> and \<open>encode\<close>, \<open>ResourceRecord\<close> with the choice of the class
  by the type field and the length that is patched in behind the data, and \<open>QuerySection\<close>.
  Type and class fields are \<open>unsigned int\<close> in the model, because \<open>decode\<close> casts every
  16-bit value to the enumerations. The lemmas give the records the contract of \<open>DnsCodec\<close>.
\<close>

subsection \<open>Types and classes\<close>

definition RDATA_A :: u32 where "RDATA_A = 1"
definition RDATA_NS :: u32 where "RDATA_NS = 2"
definition RDATA_MD :: u32 where "RDATA_MD = 3"
definition RDATA_MF :: u32 where "RDATA_MF = 4"
definition RDATA_CNAME :: u32 where "RDATA_CNAME = 5"
definition RDATA_SOA :: u32 where "RDATA_SOA = 6"
definition RDATA_MB :: u32 where "RDATA_MB = 7"
definition RDATA_MG :: u32 where "RDATA_MG = 8"
definition RDATA_MR :: u32 where "RDATA_MR = 9"
definition RDATA_NULL :: u32 where "RDATA_NULL = 10"
definition RDATA_WKS :: u32 where "RDATA_WKS = 11"
definition RDATA_PTR :: u32 where "RDATA_PTR = 12"
definition RDATA_HINFO :: u32 where "RDATA_HINFO = 13"
definition RDATA_MINFO :: u32 where "RDATA_MINFO = 14"
definition RDATA_MX :: u32 where "RDATA_MX = 15"
definition RDATA_TXT :: u32 where "RDATA_TXT = 16"
definition RDATA_AAAA :: u32 where "RDATA_AAAA = 28"
definition RDATA_SRV :: u32 where "RDATA_SRV = 33"
definition RDATA_NAPTR :: u32 where "RDATA_NAPTR = 35"

definition CLASS_IN :: u32 where "CLASS_IN = 1"

lemmas rdata_types = RDATA_A_def RDATA_NS_def RDATA_MD_def RDATA_MF_def RDATA_CNAME_def
  RDATA_SOA_def RDATA_MB_def RDATA_MG_def RDATA_MR_def RDATA_NULL_def RDATA_WKS_def
  RDATA_PTR_def RDATA_HINFO_def RDATA_MINFO_def RDATA_MX_def RDATA_TXT_def RDATA_AAAA_def
  RDATA_SRV_def RDATA_NAPTR_def

subsection \<open>Record data\<close>

datatype rdata =
    RDataCNAME bytes
  | RDataHINFO (mCpu: bytes) (mOs: bytes)
  | RDataMB bytes
  | RDataMD bytes
  | RDataMF bytes
  | RDataMG bytes
  | RDataMINFO (mRMailBx: bytes) (mMailBx: bytes)
  | RDataMR bytes
  | RDataMX (mPreference: u32) (mExchange: bytes)
  | RDataNULL (mData: bytes)
  | RDataNS bytes
  | RDataPTR bytes
  | RDataSOA (mMName: bytes) (mRName: bytes) (mSerial: u32) (mRefresh: u32) (mRetry: u32)
      (mExpire: u32) (mMinimum: u32)
  | RDataTXT (mTexts: "bytes list")
  | RDataA (mAddr: bytes)
  | RDataWKS bytes (mProtocol: u32) (mBitmap: bytes)
  | RDataAAAA bytes
  | RDataNAPTR (mOrder: u32) u32 (mFlags: bytes) (mServices: bytes) (mRegExp: bytes)
      (mReplacement: bytes)
  | RDataSRV (mPriority: u32) (mWeight: u32) (mPort: u32) (mTarget: bytes)

fun RData_getType :: "rdata \<Rightarrow> u32" where
  "RData_getType (RDataCNAME _) = RDATA_CNAME"
| "RData_getType (RDataHINFO _ _) = RDATA_HINFO"
| "RData_getType (RDataMB _) = RDATA_MB"
| "RData_getType (RDataMD _) = RDATA_MD"
| "RData_getType (RDataMF _) = RDATA_MF"
| "RData_getType (RDataMG _) = RDATA_MG"
| "RData_getType (RDataMINFO _ _) = RDATA_MINFO"
| "RData_getType (RDataMR _) = RDATA_MR"
| "RData_getType (RDataMX _ _) = RDATA_MX"
| "RData_getType (RDataNULL _) = RDATA_NULL"
| "RData_getType (RDataNS _) = RDATA_NS"
| "RData_getType (RDataPTR _) = RDATA_PTR"
| "RData_getType (RDataSOA _ _ _ _ _ _ _) = RDATA_SOA"
| "RData_getType (RDataTXT _) = RDATA_TXT"
| "RData_getType (RDataA _) = RDATA_A"
| "RData_getType (RDataWKS _ _ _) = RDATA_WKS"
| "RData_getType (RDataAAAA _) = RDATA_AAAA"
| "RData_getType (RDataNAPTR _ _ _ _ _ _) = RDATA_NAPTR"
| "RData_getType (RDataSRV _ _ _ _) = RDATA_SRV"

text \<open>
  The object \<open>ResourceRecord::decode\<close> creates for a type: for \<open>RDATA_WKS\<close> the switch
  creates an \<open>RDataA\<close>. The integers of a new \<open>RDataSRV\<close> are indeterminate; its \<open>decode\<close>
  assigns them before anything reads them, and the model starts them at zero.
\<close>

definition new_rdata :: "u32 \<Rightarrow> rdata" where
  "new_rdata t =
     (if t = RDATA_CNAME then RDataCNAME []
      else if t = RDATA_HINFO then RDataHINFO [] []
      else if t = RDATA_MB then RDataMB []
      else if t = RDATA_MD then RDataMD []
      else if t = RDATA_MF then RDataMF []
      else if t = RDATA_MG then RDataMG []
      else if t = RDATA_MINFO then RDataMINFO [] []
      else if t = RDATA_MR then RDataMR []
      else if t = RDATA_MX then RDataMX 0 []
      else if t = RDATA_NS then RDataNS []
      else if t = RDATA_PTR then RDataPTR []
      else if t = RDATA_SOA then RDataSOA [] [] 0 0 0 0 0
      else if t = RDATA_TXT then RDataTXT []
      else if t = RDATA_A then RDataA (replicate 4 0)
      else if t = RDATA_WKS then RDataA (replicate 4 0)
      else if t = RDATA_AAAA then RDataAAAA (replicate 16 0)
      else if t = RDATA_NAPTR then RDataNAPTR 0 0 [] [] [] []
      else if t = RDATA_SRV then RDataSRV 0 0 0 []
      else RDataNULL [])"

text \<open>
  The loops over character strings: while the position is less than \<open>size\<close> bytes behind
  \<open>posStart\<close>. Each string takes at least its length byte, so they end.
\<close>

lemma getDnsCharacterString_InrD:
  assumes "getDnsCharacterString b = (Inr v, b')"
  shows "mBuffer b' = mBuffer b \<and> mLinkPos b' = mLinkPos b \<and> mBufferPtr b < mBufferPtr b'
       \<and> mBufferPtr b' \<le> length (mBuffer b)"
  using assms unfolding getDnsCharacterString_def
  by (auto elim!: bnd_InrE dest!: get8bits_InrD getBytes_InrD split: if_splits)

function txt_loop :: "nat \<Rightarrow> nat \<Rightarrow> bytes list \<Rightarrow> bytes list dns" where
  "txt_loop posStart n texts b =
     (if mBufferPtr b - posStart < n
      then bnd getDnsCharacterString (\<lambda>t b. txt_loop posStart n (texts @ [t]) b) b
      else (Inr texts, b))"
  by pat_completeness auto
termination
  by (relation "measure (\<lambda>(_, _, _, b). length (mBuffer b) - mBufferPtr b)")
    (auto dest!: getDnsCharacterString_InrD)

function srv_loop :: "nat \<Rightarrow> nat \<Rightarrow> bytes \<Rightarrow> bytes dns" where
  "srv_loop posStart n target b =
     (if mBufferPtr b - posStart < n
      then bnd getDnsCharacterString (\<lambda>t b. srv_loop posStart n (target @ t @ [dot]) b) b
      else (Inr target, b))"
  by pat_completeness auto
termination
  by (relation "measure (\<lambda>(_, _, _, b). length (mBuffer b) - mBufferPtr b)")
    (auto dest!: getDnsCharacterString_InrD)

declare txt_loop.simps [simp del] srv_loop.simps [simp del]

text \<open>\<open>std::string::pop_back\<close> on an empty string is undefined.\<close>

definition pop_back :: "bytes \<Rightarrow> bytes dns" where
  "pop_back s = (if s = [] then throw (UndefinedBehaviour ''pop_back of empty string'')
     else ret (butlast s))"

text \<open>
  \<open>decode\<close> and \<open>encode\<close> of each class; \<open>RDataWithName\<close> is the base of eight classes, which is
  given their constructor. \<open>size - 6\<close> and \<open>size - 5\<close> wrap.
\<close>

definition RDataWithName_decode :: "(bytes \<Rightarrow> rdata) \<Rightarrow> rdata dns" where
  "RDataWithName_decode cls = bnd (getDnsDomainName True) (\<lambda>n. ret (cls n))"

definition RDataWithName_encode :: "mem \<Rightarrow> bytes \<Rightarrow> unit dns" where
  "RDataWithName_encode uninit n = putDnsDomainName uninit n True"

definition RDataHINFO_decode :: "rdata dns" where
  "RDataHINFO_decode =
     bnd getDnsCharacterString (\<lambda>c. bnd getDnsCharacterString (\<lambda>os. ret (RDataHINFO c os)))"

definition RDataHINFO_encode :: "bytes \<Rightarrow> bytes \<Rightarrow> unit dns" where
  "RDataHINFO_encode c os =
     seq (putDnsCharacterString c) (putDnsCharacterString os)"

definition RDataMINFO_decode :: "rdata dns" where
  "RDataMINFO_decode =
     bnd (getDnsDomainName True) (\<lambda>r. bnd (getDnsDomainName True) (\<lambda>m. ret (RDataMINFO r m)))"

definition RDataMINFO_encode :: "mem \<Rightarrow> bytes \<Rightarrow> bytes \<Rightarrow> unit dns" where
  "RDataMINFO_encode uninit r m =
     seq (putDnsDomainName uninit r True) (putDnsDomainName uninit m True)"

definition RDataMX_decode :: "rdata dns" where
  "RDataMX_decode =
     bnd get16bits (\<lambda>p. bnd (getDnsDomainName True) (\<lambda>e. ret (RDataMX p e)))"

definition RDataMX_encode :: "mem \<Rightarrow> u32 \<Rightarrow> bytes \<Rightarrow> unit dns" where
  "RDataMX_encode uninit p e =
     seq (put16bits p) (putDnsDomainName uninit e True)"

definition RDataNULL_decode :: "nat \<Rightarrow> rdata dns" where
  "RDataNULL_decode n =
     bnd (getBytes n) (\<lambda>d. ret (RDataNULL d))"

definition RDataNULL_encode :: "bytes \<Rightarrow> unit dns" where
  "RDataNULL_encode d =
     putBytes d"

definition RDataSOA_decode :: "rdata dns" where
  "RDataSOA_decode =
     bnd (getDnsDomainName True) (\<lambda>m. bnd (getDnsDomainName True) (\<lambda>r.
     bnd get32bits (\<lambda>serial. bnd get32bits (\<lambda>refresh. bnd get32bits (\<lambda>retry.
     bnd get32bits (\<lambda>expire. bnd get32bits (\<lambda>minimum.
       ret (RDataSOA m r serial refresh retry expire minimum))))))))"

definition RDataSOA_encode :: "mem \<Rightarrow> bytes \<Rightarrow> bytes \<Rightarrow> u32 \<Rightarrow> u32 \<Rightarrow> u32 \<Rightarrow> u32 \<Rightarrow> u32 \<Rightarrow> unit dns" where
  "RDataSOA_encode uninit m r serial refresh retry expire minimum =
     seq (putDnsDomainName uninit m True) (seq (putDnsDomainName uninit r True)
     (for_each put32bits [serial, refresh, retry, expire, minimum]))"

definition RDataTXT_decode :: "nat \<Rightarrow> rdata dns" where
  "RDataTXT_decode n =
     bnd getPos (\<lambda>posStart. bnd (txt_loop posStart n []) (\<lambda>ts. ret (RDataTXT ts)))"

definition RDataTXT_encode :: "bytes list \<Rightarrow> unit dns" where
  "RDataTXT_encode ts =
     for_each putDnsCharacterString ts"

definition RDataA_decode :: "rdata dns" where
  "RDataA_decode =
     bnd (getBytes 4) (\<lambda>d. ret (RDataA d))"

definition RDataA_encode :: "bytes \<Rightarrow> unit dns" where
  "RDataA_encode a =
     for_each put8bits a"

definition RDataWKS_decode :: "nat \<Rightarrow> rdata dns" where
  "RDataWKS_decode n =
     bnd (getBytes 4) (\<lambda>a. bnd get8bits (\<lambda>p.
     bnd (getBytes ((n + (2 ^ 32 - 5)) mod 2 ^ 32)) (\<lambda>bm.
       if length bm \<le> n then ret (RDataWKS a (ucast p) bm)
       else throw (UndefinedBehaviour ''write outside array''))))"

definition RDataWKS_encode :: "bytes \<Rightarrow> u32 \<Rightarrow> bytes \<Rightarrow> unit dns" where
  "RDataWKS_encode a p bm =
     seq (for_each put8bits a) (seq (put8bits (ucast p))
       (when_do (length bm > 0) (putBytes bm)))"

definition RDataAAAA_decode :: "rdata dns" where
  "RDataAAAA_decode =
     bnd (getBytes 16) (\<lambda>d. ret (RDataAAAA d))"

definition RDataAAAA_encode :: "bytes \<Rightarrow> unit dns" where
  "RDataAAAA_encode a =
     for_each put8bits a"

definition RDataNAPTR_decode :: "rdata dns" where
  "RDataNAPTR_decode =
     bnd get16bits (\<lambda>order. bnd get16bits (\<lambda>preference. bnd getDnsCharacterString (\<lambda>flags.
     bnd getDnsCharacterString (\<lambda>services. bnd getDnsCharacterString (\<lambda>regexp.
     bnd (getDnsDomainName False) (\<lambda>replacement.
       ret (RDataNAPTR order preference flags services regexp replacement)))))))"

definition RDataNAPTR_encode :: "mem \<Rightarrow> u32 \<Rightarrow> u32 \<Rightarrow> bytes \<Rightarrow> bytes \<Rightarrow> bytes \<Rightarrow> bytes \<Rightarrow> unit dns" where
  "RDataNAPTR_encode uninit order preference flags services regexp replacement =
     seq (put16bits order) (seq (put16bits preference) (seq (putDnsCharacterString flags)
     (seq (putDnsCharacterString services) (seq (putDnsCharacterString regexp)
       (putDnsDomainName uninit replacement False)))))"

definition RDataSRV_decode :: "nat \<Rightarrow> rdata dns" where
  "RDataSRV_decode n =
     bnd get16bits (\<lambda>priority. bnd get16bits (\<lambda>weight. bnd get16bits (\<lambda>port.
     bnd getPos (\<lambda>posStart.
     bnd (srv_loop posStart ((n + (2 ^ 32 - 6)) mod 2 ^ 32) []) (\<lambda>target.
     bnd (pop_back target) (\<lambda>target. bnd (pop_back target) (\<lambda>target.
       ret (RDataSRV priority weight port target))))))))"

definition RDataSRV_encode :: "u32 \<Rightarrow> u32 \<Rightarrow> u32 \<Rightarrow> bytes \<Rightarrow> unit dns" where
  "RDataSRV_encode priority weight port target =
     seq (put16bits priority) (seq (put16bits weight) (seq (put16bits port)
       (putDnsCharacterString target)))"

text \<open>The virtual calls.\<close>

fun RData_decode :: "rdata \<Rightarrow> nat \<Rightarrow> rdata dns" where
  "RData_decode (RDataCNAME _) n = RDataWithName_decode RDataCNAME"
| "RData_decode (RDataMB _) n = RDataWithName_decode RDataMB"
| "RData_decode (RDataMD _) n = RDataWithName_decode RDataMD"
| "RData_decode (RDataMF _) n = RDataWithName_decode RDataMF"
| "RData_decode (RDataMG _) n = RDataWithName_decode RDataMG"
| "RData_decode (RDataMR _) n = RDataWithName_decode RDataMR"
| "RData_decode (RDataNS _) n = RDataWithName_decode RDataNS"
| "RData_decode (RDataPTR _) n = RDataWithName_decode RDataPTR"
| "RData_decode (RDataHINFO _ _) n = RDataHINFO_decode"
| "RData_decode (RDataMINFO _ _) n = RDataMINFO_decode"
| "RData_decode (RDataMX _ _) n = RDataMX_decode"
| "RData_decode (RDataNULL _) n = RDataNULL_decode n"
| "RData_decode (RDataSOA _ _ _ _ _ _ _) n = RDataSOA_decode"
| "RData_decode (RDataTXT _) n = RDataTXT_decode n"
| "RData_decode (RDataA _) n = RDataA_decode"
| "RData_decode (RDataWKS _ _ _) n = RDataWKS_decode n"
| "RData_decode (RDataAAAA _) n = RDataAAAA_decode"
| "RData_decode (RDataNAPTR _ _ _ _ _ _) n = RDataNAPTR_decode"
| "RData_decode (RDataSRV _ _ _ _) n = RDataSRV_decode n"

fun RData_encode :: "mem \<Rightarrow> rdata \<Rightarrow> unit dns" where
  "RData_encode uninit (RDataCNAME n) = RDataWithName_encode uninit n"
| "RData_encode uninit (RDataMB n) = RDataWithName_encode uninit n"
| "RData_encode uninit (RDataMD n) = RDataWithName_encode uninit n"
| "RData_encode uninit (RDataMF n) = RDataWithName_encode uninit n"
| "RData_encode uninit (RDataMG n) = RDataWithName_encode uninit n"
| "RData_encode uninit (RDataMR n) = RDataWithName_encode uninit n"
| "RData_encode uninit (RDataNS n) = RDataWithName_encode uninit n"
| "RData_encode uninit (RDataPTR n) = RDataWithName_encode uninit n"
| "RData_encode uninit (RDataHINFO c os) = RDataHINFO_encode c os"
| "RData_encode uninit (RDataMINFO r m) = RDataMINFO_encode uninit r m"
| "RData_encode uninit (RDataMX p e) = RDataMX_encode uninit p e"
| "RData_encode uninit (RDataNULL d) = RDataNULL_encode d"
| "RData_encode uninit (RDataSOA m r serial refresh retry expire minimum) = RDataSOA_encode uninit m r serial refresh retry expire minimum"
| "RData_encode uninit (RDataTXT ts) = RDataTXT_encode ts"
| "RData_encode uninit (RDataA a) = RDataA_encode a"
| "RData_encode uninit (RDataWKS a p bm) = RDataWKS_encode a p bm"
| "RData_encode uninit (RDataAAAA a) = RDataAAAA_encode a"
| "RData_encode uninit (RDataNAPTR order preference flags services regexp replacement) = RDataNAPTR_encode uninit order preference flags services regexp replacement"
| "RData_encode uninit (RDataSRV priority weight port target) = RDataSRV_encode priority weight port target"

lemmas rdata_class_defs =
  RDataWithName_decode_def RDataWithName_encode_def RDataHINFO_decode_def
  RDataHINFO_encode_def RDataMINFO_decode_def RDataMINFO_encode_def RDataMX_decode_def
  RDataMX_encode_def RDataNULL_decode_def RDataNULL_encode_def RDataSOA_decode_def
  RDataSOA_encode_def RDataTXT_decode_def RDataTXT_encode_def RDataA_decode_def
  RDataA_encode_def RDataWKS_decode_def RDataWKS_encode_def RDataAAAA_decode_def
  RDataAAAA_encode_def RDataNAPTR_decode_def RDataNAPTR_encode_def RDataSRV_decode_def
  RDataSRV_encode_def

lemmas RData_decode_eqs = RData_decode.simps [unfolded rdata_class_defs]
lemmas RData_encode_eqs = RData_encode.simps [unfolded rdata_class_defs]

declare RData_decode.simps [simp del] RData_encode.simps [simp del]
declare RData_decode_eqs [simp] RData_encode_eqs [simp]

subsection \<open>Resource records\<close>

record resource_record =
  rr_mName :: bytes
  rr_mType :: u32
  rr_mClass :: u32
  rr_mTtl :: u32
  rr_mRDataSize :: nat
  rr_mRData :: "rdata option"

definition ResourceRecord :: resource_record where
  "ResourceRecord = \<lparr>rr_mName = [], rr_mType = RDATA_NULL, rr_mClass = CLASS_IN, rr_mTtl = 0,
     rr_mRDataSize = 0, rr_mRData = None\<rparr>"

definition ResourceRecord_setRData :: "rdata \<Rightarrow> resource_record \<Rightarrow> resource_record" where
  "ResourceRecord_setRData d rr = rr\<lparr>rr_mRData := Some d, rr_mType := RData_getType d\<rparr>"

definition ResourceRecord_decode :: "resource_record dns" where
  "ResourceRecord_decode =
     bnd (getDnsDomainName True) (\<lambda>name. bnd get16bits (\<lambda>type. bnd get16bits (\<lambda>cls.
     bnd get32bits (\<lambda>ttl. bnd get16bits (\<lambda>dsize.
       let rr = \<lparr>rr_mName = name, rr_mType = type, rr_mClass = cls, rr_mTtl = ttl,
                 rr_mRDataSize = unat dsize, rr_mRData = None\<rparr> in
       if unat dsize > 0
       then bnd getPos (\<lambda>bPos. bnd (RData_decode (new_rdata type) (unat dsize)) (\<lambda>d.
            bnd getPos (\<lambda>pos.
              if pos - bPos \<noteq> unat dsize
              then dns_throw ''Number of decoded bytes are different than expected size''
              else ret (rr\<lparr>rr_mRData := Some d\<rparr>))))
       else ret rr)))))"

text \<open>The length field is written as zero and patched when the data is there.\<close>

definition ResourceRecord_encode :: "mem \<Rightarrow> resource_record \<Rightarrow> resource_record dns" where
  "ResourceRecord_encode uninit rr =
     seq (putDnsDomainName uninit (rr_mName rr) True) (seq (put16bits (rr_mType rr))
     (seq (put16bits (rr_mClass rr)) (seq (put32bits (rr_mTtl rr))
     (bnd getPos (\<lambda>bufferPosRDataLength. seq (put16bits 0)
       (case rr_mRData rr of
          None \<Rightarrow> ret rr
        | Some d \<Rightarrow>
            seq (RData_encode uninit d) (bnd getPos (\<lambda>bufferLastPos.
              let dsize = bufferLastPos - bufferPosRDataLength - 2 in
              seq (setPos bufferPosRDataLength) (seq (put16bits (of_nat dsize))
              (seq (setPos bufferLastPos) (ret (rr\<lparr>rr_mRDataSize := dsize\<rparr>))))))))))))"

subsection \<open>Questions\<close>

record query_section =
  mQName :: bytes
  mQType :: u32
  mQClass :: u32

definition QuerySection :: "bytes \<Rightarrow> query_section" where
  "QuerySection qName = \<lparr>mQName = qName, mQType = 0, mQClass = 1\<rparr>"

definition QuerySection_encode :: "mem \<Rightarrow> query_section \<Rightarrow> unit dns" where
  "QuerySection_encode uninit qs = seq (putDnsDomainName uninit (mQName qs) True)
     (seq (put16bits (mQType qs)) (put16bits (mQClass qs)))"

text \<open>The part of \<open>Message::decode\<close> that reads one question.\<close>

definition QuerySection_decode :: "query_section dns" where
  "QuerySection_decode = bnd (getDnsDomainName True) (\<lambda>qName. bnd get16bits (\<lambda>qType.
     bnd get16bits (\<lambda>qClass. ret \<lparr>mQName = qName, mQType = qType, mQClass = qClass\<rparr>)))"

subsection \<open>Record data that is encoded as it is\<close>

text \<open>
  The data of addresses, host information, texts and unknown types: its encoding holds no
  domain name. The server reads addresses only.
\<close>

abbreviation enc_strings :: "bytes list \<Rightarrow> bytes" where
  "enc_strings ts \<equiv> concat (map (\<lambda>v. of_nat (length v) # v) ts)"

fun rdata_enc :: "rdata \<Rightarrow> bytes" where
  "rdata_enc (RDataA a) = a"
| "rdata_enc (RDataAAAA a) = a"
| "rdata_enc (RDataHINFO c os) = enc_strings [c, os]"
| "rdata_enc (RDataTXT ts) = enc_strings ts"
| "rdata_enc (RDataNULL d) = d"
| "rdata_enc _ = []"

abbreviation short_string :: "bytes \<Rightarrow> bool" where
  "short_string v \<equiv> length v < 256"

fun rdata_ok :: "u32 \<Rightarrow> rdata \<Rightarrow> bool" where
  "rdata_ok t (RDataA a) \<longleftrightarrow> t = RDATA_A \<and> length a = 4"
| "rdata_ok t (RDataAAAA a) \<longleftrightarrow> t = RDATA_AAAA \<and> length a = 16"
| "rdata_ok t (RDataHINFO c os) \<longleftrightarrow> t = RDATA_HINFO \<and> short_string c \<and> short_string os"
| "rdata_ok t (RDataTXT ts) \<longleftrightarrow> t = RDATA_TXT \<and> ts \<noteq> [] \<and> list_all short_string ts"
| "rdata_ok t (RDataNULL d) \<longleftrightarrow> new_rdata t = RDataNULL [] \<and> d \<noteq> []"
| "rdata_ok t _ \<longleftrightarrow> False"

lemma new_rdata_simps [simp]:
  "new_rdata RDATA_A = RDataA (replicate 4 0)" "new_rdata RDATA_AAAA = RDataAAAA (replicate 16 0)"
  "new_rdata RDATA_HINFO = RDataHINFO [] []" "new_rdata RDATA_TXT = RDataTXT []"
  by (simp_all add: new_rdata_def rdata_types)

lemma txt_loop_strings:
  assumes "list_all short_string ts" and "dns_wf b"
    and "mBufferPtr b + length (enc_strings ts) \<le> length (mBuffer b)"
    and "slice (mBufferPtr b) (length (enc_strings ts)) (mBuffer b) = enc_strings ts"
    and "ps \<le> mBufferPtr b" and "n = mBufferPtr b + length (enc_strings ts) - ps"
  shows "txt_loop ps n acc b
    = (Inr (acc @ ts), b\<lparr>mBufferPtr := mBufferPtr b + length (enc_strings ts)\<rparr>)"
  using assms
proof (induction ts arbitrary: acc b)
  case Nil
  then show ?case by (subst txt_loop.simps) simp
next
  case (Cons v ts)
  let ?e = "of_nat (length v) # v"
  let ?b = "b\<lparr>mBufferPtr := mBufferPtr b + length ?e\<rparr>"
  have parts: "slice (mBufferPtr b) (length ?e) (mBuffer b) = ?e"
      "slice (mBufferPtr b + length ?e) (length (enc_strings ts)) (mBuffer b) = enc_strings ts"
    using slice_split [of "mBufferPtr b" "length ?e" "length (enc_strings ts)" "mBuffer b" ?e
        "enc_strings ts"] Cons.prems(4) by simp_all
  have "getDnsCharacterString b = (Inr v, ?b)"
    by (rule cstr.get_bytes) (use Cons.prems parts in simp_all)
  moreover have "txt_loop ps n (acc @ [v]) ?b
      = (Inr ((acc @ [v]) @ ts), ?b\<lparr>mBufferPtr := mBufferPtr ?b + length (enc_strings ts)\<rparr>)"
    by (rule Cons.IH) (use Cons.prems parts in \<open>simp_all add: dns_wf_def\<close>)
  moreover have "mBufferPtr b - ps < n" using Cons.prems(5,6) by simp
  ultimately show ?case
    by (subst txt_loop.simps) (simp add: bnd_def add.assoc)
qed

lemma getBytes_slice:
  assumes "dns_wf b" and "mBufferPtr b + length d \<le> length (mBuffer b)"
    and "slice (mBufferPtr b) (length d) (mBuffer b) = d" and "length d = n"
  shows "getBytes n b = (Inr d, b\<lparr>mBufferPtr := mBufferPtr b + n\<rparr>)"
  using assms by (subst getBytes_exec) (auto simp: dns_wf_def)

interpretation rd: byte_codec "RData_encode uninit" "RData_decode (new_rdata t) n"
    "\<lambda>d. rdata_ok t d \<and> length (rdata_enc d) = n" rdata_enc 0
  for uninit t n
proof unfold_locales
  fix d and b b' :: dnsbuf
  assume ok: "rdata_ok t d \<and> length (rdata_enc d) = n" and wf: "dns_wf b"
    and put: "RData_encode uninit d b = (Inr (), b')"
  have bytes: "mBufferPtr b + length a \<le> length (mBuffer b)
      \<and> b' = b\<lparr>mBuffer := overwrite (mBufferPtr b) a (mBuffer b), mBufferPtr := mBufferPtr b + length a\<rparr>"
    if "for_each put8bits a b = (Inr (), b')" for a
    using u8.put_all_bytes [OF _ wf that] by (simp add: list_all_iff)
  show "mBufferPtr b + length (rdata_enc d) \<le> length (mBuffer b)
      \<and> b' = b\<lparr>mBuffer := overwrite (mBufferPtr b) (rdata_enc d) (mBuffer b),
               mBufferPtr := mBufferPtr b + length (rdata_enc d)\<rparr>"
  proof (cases d)
    case (RDataHINFO c os)
    then have "for_each putDnsCharacterString [c, os] b = (Inr (), b')"
      using put by (auto simp: seq_def bnd_def split: prod.splits sum.splits)
    from cstr.put_all_bytes [OF _ wf this] show ?thesis using RDataHINFO ok by simp
  next
    case (RDataTXT ts)
    then show ?thesis
      using cstr.put_all_bytes [OF _ wf, of ts b'] ok put by simp
  next
    case (RDataNULL x)
    have "length x \<le> 0x4000"
    proof (rule ccontr)
      assume "\<not> length x \<le> 0x4000"
      then show False using put wf RDataNULL
        by (auto simp: putBytes_def seq_def bnd_def checkAvailableSpace_def dns_wf_def split: if_splits)
    qed
    then show ?thesis
      using put wf ok RDataNULL by (auto simp: putBytes_exec split: if_splits)
  next
    case (RDataA a)
    then have "for_each put8bits a b = (Inr (), b')" using put by simp
    from bytes [OF this] show ?thesis by (simp only: RDataA rdata_enc.simps)
  next
    case (RDataAAAA a)
    then have "for_each put8bits a b = (Inr (), b')" using put by simp
    from bytes [OF this] show ?thesis by (simp only: RDataAAAA rdata_enc.simps)
  qed (use ok put in simp_all)
next
  fix d and b :: dnsbuf
  assume ok: "rdata_ok t d \<and> length (rdata_enc d) = n" and wf: "dns_wf b"
    and len: "mBufferPtr b + length (rdata_enc d) \<le> length (mBuffer b)"
    and s: "slice (mBufferPtr b) (length (rdata_enc d)) (mBuffer b) = rdata_enc d"
  show "RData_decode (new_rdata t) n b = (Inr d, b\<lparr>mBufferPtr := mBufferPtr b + length (rdata_enc d)\<rparr>)"
  proof (cases d)
    case (RDataHINFO c os)
    let ?e = "of_nat (length c) # c" and ?e' = "of_nat (length os) # os"
    let ?b = "b\<lparr>mBufferPtr := mBufferPtr b + length ?e\<rparr>"
    have parts: "slice (mBufferPtr b) (length ?e) (mBuffer b) = ?e"
        "slice (mBufferPtr b + length ?e) (length ?e') (mBuffer b) = ?e'"
      using slice_split [of "mBufferPtr b" "length ?e" "length ?e'" "mBuffer b" ?e ?e'] s RDataHINFO
      by simp_all
    have "getDnsCharacterString b = (Inr c, ?b)"
      by (rule cstr.get_bytes) (use RDataHINFO ok wf len parts in simp_all)
    moreover have "getDnsCharacterString ?b = (Inr os, ?b\<lparr>mBufferPtr := mBufferPtr ?b + length ?e'\<rparr>)"
      by (rule cstr.get_bytes) (use RDataHINFO ok wf len parts in \<open>simp_all add: dns_wf_def\<close>)
    ultimately show ?thesis
      using RDataHINFO ok by (simp add: bnd_def add.assoc)
  next
    case (RDataTXT ts)
    then have "txt_loop (mBufferPtr b) n [] b
        = (Inr ([] @ ts), b\<lparr>mBufferPtr := mBufferPtr b + length (enc_strings ts)\<rparr>)"
      by (intro txt_loop_strings) (use ok wf len s in auto)
    then show ?thesis
      using RDataTXT ok by (simp only: RData_decode_eqs rdata_ok.simps rdata_enc.simps)
        (simp add: bnd_def getPos_def)
  next
    case (RDataA a)
    then have "getBytes 4 b = (Inr a, b\<lparr>mBufferPtr := mBufferPtr b + 4\<rparr>)"
      using getBytes_slice [OF wf, of a 4] ok len s by simp
    then show ?thesis using RDataA ok by (simp add: bnd_def)
  next
    case (RDataAAAA a)
    then have "getBytes 16 b = (Inr a, b\<lparr>mBufferPtr := mBufferPtr b + 16\<rparr>)"
      using getBytes_slice [OF wf, of a 16] ok len s by simp
    then show ?thesis using RDataAAAA ok by (simp add: bnd_def)
  qed (use ok len s getBytes_slice [OF wf, of "rdata_enc d" n] in \<open>simp_all add: bnd_def\<close>)
qed simp

subsection \<open>The contract for questions and records\<close>

definition query_ok :: "query_section \<Rightarrow> bool" where
  "query_ok qs \<longleftrightarrow> name_ok (mQName qs) \<and> fits16 (mQType qs) \<and> fits16 (mQClass qs)"

interpretation qs: wire_codec "QuerySection_encode uninit" QuerySection_decode query_ok 5 0
  for uninit
proof unfold_locales
  fix v and b b' :: dnsbuf
  assume ok: "query_ok v" and wf: "dns_wf b" and put: "QuerySection_encode uninit v b = (Inr (), b')"
  then obtain b1 b2 where b1: "putDnsDomainName uninit (mQName v) True b = (Inr (), b1)"
    and b2: "put16bits (mQType v) b1 = (Inr (), b2)" and b3: "put16bits (mQClass v) b2 = (Inr (), b')"
    by (auto simp: QuerySection_encode_def elim!: seq_InrE)
  have oks: "name_ok (mQName v)" "fits16 (mQType v)" "fits16 (mQClass v)"
    using ok by (simp_all add: query_ok_def)
  have w1: "wrote b b1 \<and> mBufferPtr b + 1 \<le> mBufferPtr b1"
    by (rule name.put_wrote [OF oks(1) wf b1])
  then have wf1: "dns_wf b1" by (simp add: wrote_def)
  have w2: "wrote b1 b2 \<and> mBufferPtr b1 + 2 \<le> mBufferPtr b2"
    by (rule u16.put_wrote [OF oks(2) wf1 b2])
  then have wf2: "dns_wf b2" by (simp add: wrote_def)
  have w3: "wrote b2 b' \<and> mBufferPtr b2 + 2 \<le> mBufferPtr b'"
    by (rule u16.put_wrote [OF oks(3) wf2 b3])
  then have wf3: "dns_wf b'" by (simp add: wrote_def)
  have w23: "wrote b1 b'" using w2 w3 wrote_trans by blast
  have w: "wrote b b'" using w1 w23 wrote_trans by blast
  show "wrote b b' \<and> mBufferPtr b + 5 \<le> mBufferPtr b'"
    using w w1 w2 w3 by simp
  have v: "\<lparr>mQName = mQName v, mQType = mQType v, mQClass = mQClass v\<rparr> = v" by simp
  show "reads QuerySection_decode v (mBufferPtr b) (mBufferPtr b') (mBufferPtr b' + 0) (mBuffer b')"
    unfolding QuerySection_decode_def
    by (rule name.put_field [OF oks(1) wf b1 w23], rule u16.put_field [OF oks(2) wf1 b2 conjunct1 [OF w3]],
        rule u16.put_field [OF oks(3) wf2 b3 wrote_refl [OF wf3]])
      (use w1 w2 w3 in \<open>simp_all add: v reads_ret\<close>)
qed

text \<open>Records whose data is encoded as it is, or that have none.\<close>

definition record_ok :: "resource_record \<Rightarrow> bool" where
  "record_ok rr \<longleftrightarrow> name_ok (rr_mName rr) \<and> fits16 (rr_mType rr) \<and> fits16 (rr_mClass rr)
     \<and> (case rr_mRData rr of
          None \<Rightarrow> rr_mRDataSize rr = 0
        | Some d \<Rightarrow> rdata_ok (rr_mType rr) d \<and> rr_mRDataSize rr = length (rdata_enc d))"

definition rr_put :: "mem \<Rightarrow> resource_record \<Rightarrow> unit dns" where
  "rr_put uninit rr = bnd (ResourceRecord_encode uninit rr) (\<lambda>_. ret ())"

text \<open>The length that is patched in: what stands in the buffer behind the fixed fields.\<close>

lemma overwrite_patch:
  assumes "p + length ys + length zs \<le> length xs" and "length ys' = length ys"
  shows "overwrite p ys' (overwrite p (ys @ zs) xs) = overwrite p (ys' @ zs) xs"
proof -
  have "ys = [] \<or> p < length xs" using assms by (cases ys) auto
  then show ?thesis using assms by (auto simp: overwrite_def min_def)
qed

lemma setPos_wf: "setPos p b = (Inr v, b') \<Longrightarrow> b' = b\<lparr>mBufferPtr := p\<rparr> \<and> p < length (mBuffer b)"
  by (auto dest!: setPos_InrD)

lemma put16bits_InrD:
  assumes "dns_wf b" and "put16bits v b = (Inr u, b')"
  shows "mBufferPtr b + 2 \<le> length (mBuffer b)
    \<and> b' = b\<lparr>mBuffer := overwrite (mBufferPtr b) (be16 v) (mBuffer b), mBufferPtr := mBufferPtr b + 2\<rparr>"
  using assms by (auto simp: put16bits_exec split: if_splits)

lemma patched_length:
  assumes d: "rdata_ok t d" and wf: "dns_wf b"
    and b1: "put16bits 0 b = (Inr (), b1)" and b2: "RData_encode uninit d b1 = (Inr (), b2)"
    and b3: "setPos (mBufferPtr b) b2 = (Inr (), b3)"
    and b4: "put16bits v b3 = (Inr (), b4)" and b5: "setPos (mBufferPtr b2) b4 = (Inr (), b5)"
  shows "mBufferPtr b2 = mBufferPtr b + 2 + length (rdata_enc d)"
    and "mBufferPtr b + length (be16 v @ rdata_enc d) \<le> length (mBuffer b)"
    and "b5 = b\<lparr>mBuffer := overwrite (mBufferPtr b) (be16 v @ rdata_enc d) (mBuffer b),
                mBufferPtr := mBufferPtr b + length (be16 v @ rdata_enc d)\<rparr>"
proof -
  let ?p = "mBufferPtr b" and ?e = "rdata_enc d" and ?bs = "mBuffer b"
  have 1: "?p + 2 \<le> length ?bs" "b1 = b\<lparr>mBuffer := overwrite ?p (be16 0) ?bs, mBufferPtr := ?p + 2\<rparr>"
    using put16bits_InrD [OF wf b1] by simp_all
  have wf1: "dns_wf b1" using 1 wf by (simp add: dns_wf_def)
  have 2: "?p + 2 + length ?e \<le> length ?bs"
    "b2 = b\<lparr>mBuffer := overwrite ?p (be16 0 @ ?e) ?bs, mBufferPtr := ?p + 2 + length ?e\<rparr>"
    using rd.put_bytes [OF conjI [OF d refl] wf1 b2] 1 overwrite_overwrite [of ?p "be16 0" ?e ?bs]
    by simp_all
  have 3: "b3 = b2\<lparr>mBufferPtr := ?p\<rparr>" using setPos_wf [OF b3] by simp
  then have "dns_wf b3" using 2 wf by (simp add: dns_wf_def)
  from put16bits_InrD [OF this b4] 2 3
  have 4: "b4 = b\<lparr>mBuffer := overwrite ?p (be16 v @ ?e) ?bs, mBufferPtr := ?p + 2\<rparr>"
    using overwrite_patch [of ?p "be16 0" ?e ?bs "be16 v"] by simp
  show "mBufferPtr b2 = ?p + 2 + length ?e" and "?p + length (be16 v @ ?e) \<le> length ?bs"
    using 2 by simp_all
  show "b5 = b\<lparr>mBuffer := overwrite ?p (be16 v @ ?e) ?bs, mBufferPtr := ?p + length (be16 v @ ?e)\<rparr>"
    using setPos_wf [OF b5] 4 2 by simp
qed

text \<open>The part of \<open>ResourceRecord::decode\<close> behind the fixed fields.\<close>

definition rr_get_tail :: "bytes \<Rightarrow> u32 \<Rightarrow> u32 \<Rightarrow> u32 \<Rightarrow> resource_record dns" where
  "rr_get_tail name type cls ttl = bnd get16bits (\<lambda>dsize.
     let rr = \<lparr>rr_mName = name, rr_mType = type, rr_mClass = cls, rr_mTtl = ttl,
               rr_mRDataSize = unat dsize, rr_mRData = None\<rparr> in
     if unat dsize > 0
     then bnd getPos (\<lambda>bPos. bnd (RData_decode (new_rdata type) (unat dsize)) (\<lambda>d.
          bnd getPos (\<lambda>pos.
            if pos - bPos \<noteq> unat dsize
            then dns_throw ''Number of decoded bytes are different than expected size''
            else ret (rr\<lparr>rr_mRData := Some d\<rparr>))))
     else ret rr)"

lemma ResourceRecord_decode_eq:
  "ResourceRecord_decode = bnd (getDnsDomainName True) (\<lambda>name. bnd get16bits (\<lambda>type.
     bnd get16bits (\<lambda>cls. bnd get32bits (\<lambda>ttl. rr_get_tail name type cls ttl))))"
  by (simp add: ResourceRecord_decode_def rr_get_tail_def)

lemma rdata_enc_pos: "rdata_ok t d \<Longrightarrow> 0 < length (rdata_enc d)"
  by (cases d) (auto simp: neq_Nil_conv)

lemma fits16_of_nat: "n < 2 ^ 16 \<Longrightarrow> fits16 (of_nat n)"
  by (simp add: fits16_def take_bit_of_nat [symmetric] of_nat_take_bit [symmetric] take_bit_nat_eq_self)

definition rr_wire :: "resource_record \<Rightarrow> bytes" where
  "rr_wire rr = (case rr_mRData rr of None \<Rightarrow> be16 0
     | Some d \<Rightarrow> be16 (of_nat (rr_mRDataSize rr)) @ rdata_enc d)"

lemma rr_get_tail_bytes:
  assumes ok: "record_ok rr" and c: "dns_wf c" and e_def: "e = rr_wire rr"
    and s: "slice (mBufferPtr c) (length e) (mBuffer c) = e"
    and len: "mBufferPtr c + length e \<le> length (mBuffer c)"
  shows "rr_get_tail (rr_mName rr) (rr_mType rr) (rr_mClass rr) (rr_mTtl rr) c
       = (Inr rr, c\<lparr>mBufferPtr := mBufferPtr c + length e\<rparr>)"
proof (cases "rr_mRData rr")
  case None
  then have e: "e = be16 0" using e_def by (simp add: rr_wire_def)
  have "get16bits c = (Inr 0, c\<lparr>mBufferPtr := mBufferPtr c + length (be16 0)\<rparr>)"
    by (rule u16.get_bytes) (use None c e s len in \<open>simp_all add: fits16_def\<close>)
  then show ?thesis
    using None ok e by (simp add: rr_get_tail_def bnd_def record_ok_def)
next
  case (Some d)
  let ?n = "length (rdata_enc d)"
  let ?c = "c\<lparr>mBufferPtr := mBufferPtr c + 2\<rparr>"
  have d: "rdata_ok (rr_mType rr) d" and n: "rr_mRDataSize rr = ?n"
    using ok Some by (simp_all add: record_ok_def)
  have e': "e = be16 (of_nat ?n) @ rdata_enc d" using e_def Some n by (simp add: rr_wire_def)
  have n16: "?n < 2 ^ 16" using len e' c by (simp add: dns_wf_def)
  have parts: "slice (mBufferPtr c) 2 (mBuffer c) = be16 (of_nat ?n)"
      "slice (mBufferPtr c + 2) ?n (mBuffer c) = rdata_enc d"
    using slice_split [of "mBufferPtr c" 2 ?n "mBuffer c" "be16 (of_nat ?n)" "rdata_enc d"] s e'
    by simp_all
  have "get16bits c = (Inr (of_nat ?n), c\<lparr>mBufferPtr := mBufferPtr c + length (be16 (of_nat ?n))\<rparr>)"
    by (rule u16.get_bytes) (use c e' len parts fits16_of_nat [OF n16] in simp_all)
  moreover have "RData_decode (new_rdata (rr_mType rr)) ?n ?c
      = (Inr d, ?c\<lparr>mBufferPtr := mBufferPtr ?c + ?n\<rparr>)"
    by (rule rd.get_bytes) (use c d e' len parts in \<open>simp_all add: dns_wf_def\<close>)
  moreover have "unat (of_nat ?n :: u32) = ?n" using n16 by (simp add: unat_of_nat)
  ultimately show ?thesis
    using rdata_enc_pos [OF d] Some n e' by (simp add: rr_get_tail_def bnd_def getPos_def Let_def)
qed

text \<open>The same part of \<open>ResourceRecord::encode\<close>.\<close>

definition rr_put_tail :: "mem \<Rightarrow> resource_record \<Rightarrow> resource_record dns" where
  "rr_put_tail uninit rr = bnd getPos (\<lambda>bufferPosRDataLength. seq (put16bits 0)
     (case rr_mRData rr of
        None \<Rightarrow> ret rr
      | Some d \<Rightarrow>
          seq (RData_encode uninit d) (bnd getPos (\<lambda>bufferLastPos.
            let dsize = bufferLastPos - bufferPosRDataLength - 2 in
            seq (setPos bufferPosRDataLength) (seq (put16bits (of_nat dsize))
            (seq (setPos bufferLastPos) (ret (rr\<lparr>rr_mRDataSize := dsize\<rparr>))))))))"

lemma ResourceRecord_encode_eq:
  "ResourceRecord_encode uninit rr =
     seq (putDnsDomainName uninit (rr_mName rr) True) (seq (put16bits (rr_mType rr))
     (seq (put16bits (rr_mClass rr)) (seq (put32bits (rr_mTtl rr)) (rr_put_tail uninit rr))))"
  by (simp add: ResourceRecord_encode_def rr_put_tail_def)

lemma rr_put_tail_bytes:
  assumes ok: "record_ok rr" and wf: "dns_wf b" and put: "rr_put_tail uninit rr b = (Inr rr', b')"
  shows "rr' = rr" and "mBufferPtr b + length (rr_wire rr) \<le> length (mBuffer b)"
    and "b' = b\<lparr>mBuffer := overwrite (mBufferPtr b) (rr_wire rr) (mBuffer b),
                mBufferPtr := mBufferPtr b + length (rr_wire rr)\<rparr>"
proof -
  have "rr' = rr \<and> mBufferPtr b + length (rr_wire rr) \<le> length (mBuffer b)
    \<and> b' = b\<lparr>mBuffer := overwrite (mBufferPtr b) (rr_wire rr) (mBuffer b),
                mBufferPtr := mBufferPtr b + length (rr_wire rr)\<rparr>"
  proof (cases "rr_mRData rr")
    case None
    then have w: "rr_wire rr = be16 0" by (simp add: rr_wire_def)
    from None put have "put16bits 0 b = (Inr (), b') \<and> rr' = rr"
      by (auto simp: rr_put_tail_def getPos_def elim!: bnd_InrE seq_InrE)
    then show ?thesis using put16bits_InrD [OF wf, of 0] w by auto
  next
    case (Some d)
    have d: "rdata_ok (rr_mType rr) d" and n: "rr_mRDataSize rr = length (rdata_enc d)"
      using ok Some by (simp_all add: record_ok_def)
    let ?n = "\<lambda>b2. mBufferPtr b2 - mBufferPtr b - 2"
    from Some put obtain b1 b2 b3 b4 where
      b1: "put16bits 0 b = (Inr (), b1)" and b2: "RData_encode uninit d b1 = (Inr (), b2)"
      and b3: "setPos (mBufferPtr b) b2 = (Inr (), b3)"
      and b4: "put16bits (of_nat (?n b2)) b3 = (Inr (), b4)"
      and b5: "setPos (mBufferPtr b2) b4 = (Inr (), b')" and rr': "rr' = rr\<lparr>rr_mRDataSize := ?n b2\<rparr>"
      by (auto simp: rr_put_tail_def getPos_def Let_def elim!: bnd_InrE seq_InrE)
    note pl = patched_length [OF d wf b1 b2 b3 b4 b5]
    have "?n b2 = length (rdata_enc d)" using pl(1) by simp
    then show ?thesis
      using pl(2,3) rr' n Some by (simp add: rr_wire_def)
  qed
  then show "rr' = rr" and "mBufferPtr b + length (rr_wire rr) \<le> length (mBuffer b)"
    and "b' = b\<lparr>mBuffer := overwrite (mBufferPtr b) (rr_wire rr) (mBuffer b),
                mBufferPtr := mBufferPtr b + length (rr_wire rr)\<rparr>" by blast+
qed

lemma rr_wire_length: "2 \<le> length (rr_wire rr)"
  by (simp add: rr_wire_def split: option.split)

lemma ResourceRecord_encode_InrE:
  assumes "ResourceRecord_encode uninit v b = (Inr v', b')"
  obtains b1 b2 b3 b4 where "putDnsDomainName uninit (rr_mName v) True b = (Inr (), b1)"
    and "put16bits (rr_mType v) b1 = (Inr (), b2)" and "put16bits (rr_mClass v) b2 = (Inr (), b3)"
    and "put32bits (rr_mTtl v) b3 = (Inr (), b4)" and "rr_put_tail uninit v b4 = (Inr v', b')"
  using assms unfolding ResourceRecord_encode_eq by (auto elim!: seq_InrE)

interpretation rr: wire_codec "rr_put uninit" ResourceRecord_decode record_ok 11 0
  for uninit
proof unfold_locales
  fix v and b b' :: dnsbuf
  assume ok: "record_ok v" and wf: "dns_wf b" and put: "rr_put uninit v b = (Inr (), b')"
  from put obtain v' where "ResourceRecord_encode uninit v b = (Inr v', b')"
    by (auto simp: rr_put_def elim!: bnd_InrE)
  then obtain b1 b2 b3 b4 where
    b1: "putDnsDomainName uninit (rr_mName v) True b = (Inr (), b1)"
    and b2: "put16bits (rr_mType v) b1 = (Inr (), b2)" and b3: "put16bits (rr_mClass v) b2 = (Inr (), b3)"
    and b4: "put32bits (rr_mTtl v) b3 = (Inr (), b4)" and tail: "rr_put_tail uninit v b4 = (Inr v', b')"
    by (rule ResourceRecord_encode_InrE)
  have oks: "name_ok (rr_mName v)" "fits16 (rr_mType v)" "fits16 (rr_mClass v)"
    using ok by (simp_all add: record_ok_def)
  have w1: "wrote b b1 \<and> mBufferPtr b + 1 \<le> mBufferPtr b1"
    by (rule name.put_wrote [OF oks(1) wf b1])
  then have wf1: "dns_wf b1" by (simp add: wrote_def)
  have w2: "wrote b1 b2 \<and> mBufferPtr b1 + 2 \<le> mBufferPtr b2"
    by (rule u16.put_wrote [OF oks(2) wf1 b2])
  then have wf2: "dns_wf b2" by (simp add: wrote_def)
  have w3: "wrote b2 b3 \<and> mBufferPtr b2 + 2 \<le> mBufferPtr b3"
    by (rule u16.put_wrote [OF oks(3) wf2 b3])
  then have wf3: "dns_wf b3" by (simp add: wrote_def)
  have w4: "wrote b3 b4 \<and> mBufferPtr b3 + 4 \<le> mBufferPtr b4"
    by (rule u32.put_wrote [OF TrueI wf3 b4])
  then have wf4: "dns_wf b4" by (simp add: wrote_def)
  note tb = rr_put_tail_bytes [OF ok wf4 tail]
  have w5: "wrote b4 b'" using wrote_overwrite [OF wf4 tb(2)] tb(3) by simp
  have p5: "mBufferPtr b' = mBufferPtr b4 + length (rr_wire v)" using tb(3) by simp
  have w35: "wrote b3 b'" using w4 w5 wrote_trans by blast
  have w25: "wrote b2 b'" using w3 w35 wrote_trans by blast
  have w15: "wrote b1 b'" using w2 w25 wrote_trans by blast
  have w: "wrote b b'" using w1 w15 wrote_trans by blast
  show "wrote b b' \<and> mBufferPtr b + 11 \<le> mBufferPtr b'"
    using w w1 w2 w3 w4 p5 rr_wire_length [of v] by simp
  have r: "reads (rr_get_tail (rr_mName v) (rr_mType v) (rr_mClass v) (rr_mTtl v)) v
      (mBufferPtr b4) (mBufferPtr b') (mBufferPtr b') (mBuffer b')"
    unfolding reads_def
  proof (intro allI impI)
    fix c :: dnsbuf
    assume c: "dns_wf c" "mBufferPtr c = mBufferPtr b4"
      "take (mBufferPtr b') (mBuffer c) = take (mBufferPtr b') (mBuffer b')"
      "mBufferPtr b' \<le> length (mBuffer c)"
    have "slice (mBufferPtr c) (length (rr_wire v)) (mBuffer c)
        = slice (mBufferPtr b4) (length (rr_wire v)) (mBuffer b')"
      using slice_eq_take [OF c(3), of "mBufferPtr b4" "length (rr_wire v)"] p5 c(2) by simp
    also have "\<dots> = rr_wire v" using tb(2,3) by (simp add: slice_overwrite_same)
    finally show "rr_get_tail (rr_mName v) (rr_mType v) (rr_mClass v) (rr_mTtl v) c
        = (Inr v, c\<lparr>mBufferPtr := mBufferPtr b'\<rparr>)"
      using rr_get_tail_bytes [OF ok c(1) refl] c(2,4) p5 by simp
  qed
  show "reads ResourceRecord_decode v (mBufferPtr b) (mBufferPtr b') (mBufferPtr b' + 0) (mBuffer b')"
    unfolding ResourceRecord_decode_eq
    by (rule name.put_field [OF oks(1) wf b1 w15], rule u16.put_field [OF oks(2) wf1 b2 w25],
        rule u16.put_field [OF oks(3) wf2 b3 w35], rule u32.put_field [OF TrueI wf3 b4 w5])
      (use w1 w2 w3 w4 r p5 in simp_all)
qed

text \<open>Under the contract's condition the encoder leaves the record as it is.\<close>

lemma ResourceRecord_encode_same:
  assumes "record_ok v" and "dns_wf b" and "ResourceRecord_encode uninit v b = (Inr v', b')"
  shows "v' = v"
proof -
  from assms(3) obtain b1 b2 b3 b4 where
    b1: "putDnsDomainName uninit (rr_mName v) True b = (Inr (), b1)"
    and b2: "put16bits (rr_mType v) b1 = (Inr (), b2)" and b3: "put16bits (rr_mClass v) b2 = (Inr (), b3)"
    and b4: "put32bits (rr_mTtl v) b3 = (Inr (), b4)" and tail: "rr_put_tail uninit v b4 = (Inr v', b')"
    by (rule ResourceRecord_encode_InrE)
  have oks: "name_ok (rr_mName v)" "fits16 (rr_mType v)" "fits16 (rr_mClass v)"
    using assms(1) by (simp_all add: record_ok_def)
  have "dns_wf b1" using name.put_wrote [OF oks(1) assms(2) b1] by (simp add: wrote_def)
  moreover from this have "dns_wf b2" using u16.put_wrote [OF oks(2) _ b2] by (simp add: wrote_def)
  moreover from this have "dns_wf b3" using u16.put_wrote [OF oks(3) _ b3] by (simp add: wrote_def)
  moreover from this have "dns_wf b4" using u32.put_wrote [OF TrueI _ b4] by (simp add: wrote_def)
  ultimately show ?thesis using rr_put_tail_bytes(1) [OF assms(1) _ tail] by blast
qed

end
