(* ===== verification/DnsMessage.thy ===== *)
theory DnsMessage
  imports DnsRecords
begin

section \<open>DNS messages\<close>

text \<open>
  \<open>dnslib/message.h\<close> and \<open>dnslib/message.cpp\<close>: \<open>dns::Message\<close> with \<open>encode\<close> and
  \<open>decode\<close>. The lemmas show that what \<open>encode\<close> writes \<open>decode\<close> reads back, and what
  \<open>decode\<close> does on arbitrary bytes: it returns, throws \<open>dns::Exception\<close>, or, on a service
  record that is too short, removes a character from an empty string.
\<close>

record message =
  mId :: u32
  mQr :: u32
  mOpCode :: u32
  mAA :: u32
  mTC :: u32
  mRD :: u32
  mRA :: u32
  mRCode :: u32
  mQueries :: "query_section list"
  mAnswers :: "resource_record list"
  mAuthorities :: "resource_record list"
  mAdditional :: "resource_record list"

definition Message :: message where
  "Message = \<lparr>mId = 0, mQr = 0, mOpCode = 0, mAA = 0, mTC = 0, mRD = 0, mRA = 0, mRCode = 0,
     mQueries = [], mAnswers = [], mAuthorities = [], mAdditional = []\<rparr>"

definition setQr :: "u32 \<Rightarrow> message \<Rightarrow> message" where
  "setQr newQr m = m\<lparr>mQr := newQr AND 1\<rparr>"

definition setOpCode :: "u32 \<Rightarrow> message \<Rightarrow> message" where
  "setOpCode newOpCode m = m\<lparr>mOpCode := newOpCode AND 15\<rparr>"

definition addQuery :: "query_section \<Rightarrow> message \<Rightarrow> message" where
  "addQuery qs m = m\<lparr>mQueries := mQueries m @ [qs]\<rparr>"

definition removeAllRecords :: "message \<Rightarrow> message" where
  "removeAllRecords m = m\<lparr>mQueries := [], mAnswers := [], mAuthorities := [], mAdditional := []\<rparr>"

definition decodeResourceRecords :: "u32 \<Rightarrow> resource_record list dns" where
  "decodeResourceRecords count = get_many ResourceRecord_decode (unat count)"

text \<open>The fields of the header's second word.\<close>

definition header_fields :: "message \<Rightarrow> u32" where
  "header_fields m = push_bit 15 (mQr m AND 1) + push_bit 11 (mOpCode m AND 15)
     + push_bit 10 (mAA m AND 1) + push_bit 9 (mTC m AND 1) + push_bit 8 (mRD m AND 1)
     + push_bit 7 (mRA m AND 1) + (mRCode m AND 15)"

definition Message_body :: "message \<Rightarrow> message dns" where
  "Message_body m = bnd get16bits (\<lambda>id. bnd get16bits (\<lambda>fields.
     bnd get16bits (\<lambda>qdCount. bnd get16bits (\<lambda>anCount. bnd get16bits (\<lambda>nsCount.
     bnd get16bits (\<lambda>arCount.
     bnd (get_many QuerySection_decode (unat qdCount)) (\<lambda>queries.
     bnd (decodeResourceRecords anCount) (\<lambda>answers.
     bnd (decodeResourceRecords nsCount) (\<lambda>authorities.
     bnd (decodeResourceRecords arCount) (\<lambda>additional.
     bnd getPos (\<lambda>pos. bnd getSize (\<lambda>sz.
       if pos \<noteq> sz then dns_throw ''Message buffer not empty after parsing''
       else ret (m\<lparr>mId := id, mQr := drop_bit 15 fields AND 1, mOpCode := drop_bit 11 fields AND 15,
         mAA := drop_bit 10 fields AND 1, mTC := drop_bit 9 fields AND 1,
         mRD := drop_bit 8 fields AND 1, mRA := drop_bit 7 fields AND 1,
         mQueries := queries, mAnswers := answers, mAuthorities := authorities,
         mAdditional := additional\<rparr>)))))))))))))"

definition Message_decode :: "message \<Rightarrow> bytes \<Rightarrow> fault + message" where
  "Message_decode m buffer =
     (if length buffer > MAX_MSG_LEN
      then Inl (DnsException ''Aborting parse of message which exceedes maximal DNS message length.'')
      else fst (Message_body (removeAllRecords m) (Buffer_ctor buffer)))"

text \<open>The records keep the length of their data; the buffer and \<open>validSize\<close> are returned.\<close>

definition Message_put :: "mem \<Rightarrow> message \<Rightarrow> message dns" where
  "Message_put uninit m =
     seq (for_each put16bits [mId m, header_fields m, of_nat (length (mQueries m)),
       of_nat (length (mAnswers m)), of_nat (length (mAuthorities m)), of_nat (length (mAdditional m))])
     (seq (for_each (QuerySection_encode uninit) (mQueries m))
     (bnd (map_each (ResourceRecord_encode uninit) (mAnswers m)) (\<lambda>answers.
     bnd (map_each (ResourceRecord_encode uninit) (mAuthorities m)) (\<lambda>authorities.
     bnd (map_each (ResourceRecord_encode uninit) (mAdditional m)) (\<lambda>additional.
       ret (m\<lparr>mAnswers := answers, mAuthorities := authorities, mAdditional := additional\<rparr>))))))"

definition Message_encode :: "mem \<Rightarrow> message \<Rightarrow> bytes \<Rightarrow> fault + message \<times> bytes \<times> nat" where
  "Message_encode uninit m buffer =
     (case Message_put uninit m (Buffer_ctor buffer) of
        (Inl e, _) \<Rightarrow> Inl e
      | (Inr m', b) \<Rightarrow> Inr (m', mBuffer b, mBufferPtr b))"

subsection \<open>The header\<close>

definition header_ok :: "message \<Rightarrow> bool" where
  "header_ok m \<longleftrightarrow> fits16 (mId m) \<and> mQr m AND 1 = mQr m \<and> mOpCode m AND 15 = mOpCode m
     \<and> mAA m AND 1 = mAA m \<and> mTC m AND 1 = mTC m \<and> mRD m AND 1 = mRD m \<and> mRA m AND 1 = mRA m"

lemma bit_and_mask:
  "bit ((x :: u32) AND 1) n \<longleftrightarrow> bit x n \<and> n < 1" "bit ((x :: u32) AND 15) n \<longleftrightarrow> bit x n \<and> n < 4"
proof -
  have "(x :: u32) AND 15 = x AND mask 4" by (simp add: mask_eq_exp_minus_1)
  then show "bit ((x :: u32) AND 15) n \<longleftrightarrow> bit x n \<and> n < 4"
    by (auto simp: bit_simps dest: bit_imp_le_length)
qed (auto simp: bit_simps)

lemma add_field:
  assumes "\<forall>n. bit x n \<longrightarrow> k + j \<le> n" and "\<forall>n. bit y n \<longrightarrow> n < j"
  shows "(x :: u32) + push_bit k y = x OR push_bit k y"
    and "\<forall>n. bit (x OR push_bit k y) n \<longrightarrow> k \<le> n"
proof -
  show "x + push_bit k y = x OR push_bit k y"
  proof (rule disjunctive_add)
    fix n
    show "\<not> bit x n \<or> \<not> bit (push_bit k y) n"
      using assms(1) [rule_format, of n] assms(2) [rule_format, of "n - k"]
      by (auto simp: bit_push_bit_iff)
  qed
  show "\<forall>n. bit (x OR push_bit k y) n \<longrightarrow> k \<le> n"
    using assms(1) by (auto simp: bit_or_iff bit_push_bit_iff)
qed

lemma fields_or:
  fixes a b c d e f g :: u32
  assumes a: "\<forall>n. bit a n \<longrightarrow> n < 1" and b: "\<forall>n. bit b n \<longrightarrow> n < 4" and c: "\<forall>n. bit c n \<longrightarrow> n < 1"
    and d: "\<forall>n. bit d n \<longrightarrow> n < 1" and e: "\<forall>n. bit e n \<longrightarrow> n < 1" and f: "\<forall>n. bit f n \<longrightarrow> n < 1"
    and g: "\<forall>n. bit g n \<longrightarrow> n < 4"
  shows "push_bit 15 a + push_bit 11 b + push_bit 10 c + push_bit 9 d + push_bit 8 e + push_bit 7 f + g
     = (((((push_bit 15 a OR push_bit 11 b) OR push_bit 10 c) OR push_bit 9 d) OR push_bit 8 e)
          OR push_bit 7 f) OR g"
proof -
  have 0: "\<forall>n. bit (push_bit 15 a) n \<longrightarrow> 15 \<le> n" by (auto simp: bit_push_bit_iff)
  note 1 = add_field [of "push_bit 15 a" 11 4 b, simplified, OF 0 b]
  note 2 = add_field [of _ 10 1 c, simplified, OF 1(2) c [simplified]]
  note 3 = add_field [of _ 9 1 d, simplified, OF 2(2) d [simplified]]
  note 4 = add_field [of _ 8 1 e, simplified, OF 3(2) e [simplified]]
  note 5 = add_field [of _ 7 1 f, simplified, OF 4(2) f [simplified]]
  have 6: "\<forall>n. bit (((((push_bit 15 a OR push_bit 11 b) OR push_bit 10 c) OR push_bit 9 d) OR push_bit 8 e)
          OR push_bit 7 f) n \<longrightarrow> 0 + 4 \<le> n"
    using 5(2) by force
  note 7 = add_field [OF 6 g, simplified]
  show ?thesis by (simp only: 1(1) 2(1) 3(1) 4(1) 5(1) 7(1))
qed

lemma fields_bits:
  fixes a b c d e f g :: u32
  assumes a: "\<forall>n. bit a n \<longrightarrow> n < 1" and b: "\<forall>n. bit b n \<longrightarrow> n < 4" and c: "\<forall>n. bit c n \<longrightarrow> n < 1"
    and d: "\<forall>n. bit d n \<longrightarrow> n < 1" and e: "\<forall>n. bit e n \<longrightarrow> n < 1" and f: "\<forall>n. bit f n \<longrightarrow> n < 1"
    and g: "\<forall>n. bit g n \<longrightarrow> n < 4"
    and F: "F = (((((push_bit 15 a OR push_bit 11 b) OR push_bit 10 c) OR push_bit 9 d) OR push_bit 8 e)
          OR push_bit 7 f) OR g"
  shows "drop_bit 15 F AND 1 = a" "drop_bit 11 F AND 15 = b" "drop_bit 10 F AND 1 = c"
    "drop_bit 9 F AND 1 = d" "drop_bit 8 F AND 1 = e" "drop_bit 7 F AND 1 = f" "fits16 F"
proof -
  have F_bits: "bit F n \<longleftrightarrow> n < 32 \<and> (15 \<le> n \<and> bit a (n - 15) \<or> 11 \<le> n \<and> bit b (n - 11)
      \<or> 10 \<le> n \<and> bit c (n - 10) \<or> 9 \<le> n \<and> bit d (n - 9) \<or> 8 \<le> n \<and> bit e (n - 8)
      \<or> 7 \<le> n \<and> bit f (n - 7) \<or> bit g n)" for n
    using g [rule_format, of n] by (auto simp: F bit_or_iff bit_push_bit_iff)
  note bounds = a [rule_format] b [rule_format] c [rule_format] d [rule_format] e [rule_format]
    f [rule_format] g [rule_format]
  show "drop_bit 15 F AND 1 = a" "drop_bit 11 F AND 15 = b" "drop_bit 10 F AND 1 = c"
    "drop_bit 9 F AND 1 = d" "drop_bit 8 F AND 1 = e" "drop_bit 7 F AND 1 = f" "fits16 F"
    unfolding fits16_def
    by (rule bit_word_eqI, unfold bit_and_mask bit_drop_bit_eq bit_take_bit_iff comp_def F_bits,
        auto dest: bounds)+
qed

lemma and_bounds: "\<forall>n. bit ((x :: u32) AND 1) n \<longrightarrow> n < 1" "\<forall>n. bit ((x :: u32) AND 15) n \<longrightarrow> n < 4"
  by (simp_all only: bit_and_mask) simp_all

lemma header_fields_bits:
  "drop_bit 15 (header_fields m) AND 1 = mQr m AND 1"
  "drop_bit 11 (header_fields m) AND 15 = mOpCode m AND 15"
  "drop_bit 10 (header_fields m) AND 1 = mAA m AND 1"
  "drop_bit 9 (header_fields m) AND 1 = mTC m AND 1"
  "drop_bit 8 (header_fields m) AND 1 = mRD m AND 1"
  "drop_bit 7 (header_fields m) AND 1 = mRA m AND 1"
  "fits16 (header_fields m)"
proof -
  note b = and_bounds(1) and_bounds(2) and_bounds(1) and_bounds(1) and_bounds(1) and_bounds(1) and_bounds(2)
  note fb = fields_bits [OF b fields_or [OF b], of "mQr m" "mOpCode m" "mAA m" "mTC m" "mRD m"
      "mRA m" "mRCode m", folded header_fields_def]
  show "drop_bit 15 (header_fields m) AND 1 = mQr m AND 1"
    "drop_bit 11 (header_fields m) AND 15 = mOpCode m AND 15"
    "drop_bit 10 (header_fields m) AND 1 = mAA m AND 1"
    "drop_bit 9 (header_fields m) AND 1 = mTC m AND 1"
    "drop_bit 8 (header_fields m) AND 1 = mRD m AND 1"
    "drop_bit 7 (header_fields m) AND 1 = mRA m AND 1"
    "fits16 (header_fields m)"
    by (rule fb)+
qed

subsection \<open>Encoding and decoding\<close>

definition message_ok :: "message \<Rightarrow> bool" where
  "message_ok m \<longleftrightarrow> header_ok m \<and> (\<forall>q\<in>set (mQueries m). query_ok q)
     \<and> (\<forall>r\<in>set (mAnswers m). record_ok r) \<and> (\<forall>r\<in>set (mAuthorities m). record_ok r)
     \<and> (\<forall>r\<in>set (mAdditional m). record_ok r)"

lemma map_each_records:
  assumes "\<forall>r\<in>set rs. record_ok r" and "dns_wf b"
    and "map_each (ResourceRecord_encode uninit) rs b = (Inr rs', b')"
  shows "rs' = rs" and "for_each (rr_put uninit) rs b = (Inr (), b')"
proof -
  have "rs' = rs \<and> for_each (rr_put uninit) rs b = (Inr (), b')" using assms
  proof (induction rs arbitrary: b rs')
    case (Cons r rs)
    from Cons.prems(3) obtain r' b1 rs1 where r: "ResourceRecord_encode uninit r b = (Inr r', b1)"
      and rs: "map_each (ResourceRecord_encode uninit) rs b1 = (Inr rs1, b')" and e: "rs' = r' # rs1"
      by (auto elim!: bnd_InrE)
    have p: "rr_put uninit r b = (Inr (), b1)" using r by (simp add: rr_put_def bnd_def)
    have "dns_wf b1"
      using rr.put_wrote [OF _ Cons.prems(2) p] Cons.prems(1) by (simp add: wrote_def)
    with Cons.IH rs Cons.prems(1) have "rs1 = rs \<and> for_each (rr_put uninit) rs b1 = (Inr (), b')"
      by simp
    moreover have "r' = r" using ResourceRecord_encode_same [OF _ Cons.prems(2) r] Cons.prems(1) by simp
    ultimately show ?case using e p by (simp add: seq_def bnd_def)
  qed simp
  then show "rs' = rs" and "for_each (rr_put uninit) rs b = (Inr (), b')" by simp_all
qed

lemma Message_put_InrE:
  assumes "Message_put uninit m b = (Inr m', b')"
  obtains bh bq ba bn as ns xs where
    "for_each put16bits [mId m, header_fields m, of_nat (length (mQueries m)),
       of_nat (length (mAnswers m)), of_nat (length (mAuthorities m)), of_nat (length (mAdditional m))] b
     = (Inr (), bh)"
    and "for_each (QuerySection_encode uninit) (mQueries m) bh = (Inr (), bq)"
    and "map_each (ResourceRecord_encode uninit) (mAnswers m) bq = (Inr as, ba)"
    and "map_each (ResourceRecord_encode uninit) (mAuthorities m) ba = (Inr ns, bn)"
    and "map_each (ResourceRecord_encode uninit) (mAdditional m) bn = (Inr xs, b')"
    and "m' = m\<lparr>mAnswers := as, mAuthorities := ns, mAdditional := xs\<rparr>"
  using assms unfolding Message_put_def by (auto elim!: seq_InrE bnd_InrE simp del: for_each.simps)

interpretation u16s: wire_codec "for_each put16bits" "get_many get16bits n"
    "\<lambda>vs. length vs = n \<and> (\<forall>v\<in>set vs. fits16 v)" "2 * n" 0 for n
  by (rule u16.many) simp

interpretation qss: wire_codec "for_each (QuerySection_encode uninit)" "get_many QuerySection_decode n"
    "\<lambda>vs. length vs = n \<and> (\<forall>v\<in>set vs. query_ok v)" "5 * n" 0 for uninit n
  by (rule qs.many) simp

interpretation rrs: wire_codec "for_each (rr_put uninit)" "get_many ResourceRecord_decode n"
    "\<lambda>vs. length vs = n \<and> (\<forall>v\<in>set vs. record_ok v)" "11 * n" 0 for uninit n
  by (rule rr.many) simp

text \<open>The reading part of \<open>decode\<close> behind the header.\<close>

definition Message_rest :: "message \<Rightarrow> u32 \<Rightarrow> u32 \<Rightarrow> u32 \<Rightarrow> u32 \<Rightarrow> u32 \<Rightarrow> u32 \<Rightarrow> message dns" where
  "Message_rest m hid flds qdCount anCount nsCount arCount =
     bnd (get_many QuerySection_decode (unat qdCount)) (\<lambda>queries.
     bnd (get_many ResourceRecord_decode (unat anCount)) (\<lambda>answers.
     bnd (get_many ResourceRecord_decode (unat nsCount)) (\<lambda>authorities.
     bnd (get_many ResourceRecord_decode (unat arCount)) (\<lambda>additional.
     bnd getPos (\<lambda>pos. bnd getSize (\<lambda>sz.
       if pos \<noteq> sz then dns_throw ''Message buffer not empty after parsing''
       else ret (m\<lparr>mId := hid, mQr := drop_bit 15 flds AND 1, mOpCode := drop_bit 11 flds AND 15,
         mAA := drop_bit 10 flds AND 1, mTC := drop_bit 9 flds AND 1,
         mRD := drop_bit 8 flds AND 1, mRA := drop_bit 7 flds AND 1,
         mQueries := queries, mAnswers := answers, mAuthorities := authorities,
         mAdditional := additional\<rparr>)))))))"

lemma get_many_6: "get_many g 6 = bnd g (\<lambda>a. bnd g (\<lambda>b. bnd g (\<lambda>c. bnd g (\<lambda>d. bnd g (\<lambda>e. bnd g (\<lambda>f.
    ret [a, b, c, d, e, f]))))))"
proof -
  have six: "6 = Suc (Suc (Suc (Suc (Suc (Suc 0)))))" by simp
  show ?thesis unfolding six get_many.simps bnd_assoc bnd_ret ..
qed

lemma Message_body_eq: "Message_body m = bnd (get_many get16bits 6)
    (\<lambda>hs. Message_rest m (hs ! 0) (hs ! 1) (hs ! 2) (hs ! 3) (hs ! 4) (hs ! 5))"
proof -
  have nth6: "[a, b, c, d, e, f] ! 0 = a" "[a, b, c, d, e, f] ! 1 = b" "[a, b, c, d, e, f] ! 2 = c"
    "[a, b, c, d, e, f] ! 3 = d" "[a, b, c, d, e, f] ! 4 = e" "[a, b, c, d, e, f] ! 5 = f"
    for a b c d e f :: u32
    by simp_all
  show ?thesis
    unfolding Message_body_def Message_rest_def get_many_6 bnd_assoc bnd_ret nth6
      decodeResourceRecords_def ..
qed

lemma put16s_wrote: "for_each put16bits vs b = (Inr (), b') \<Longrightarrow> dns_wf b \<Longrightarrow> wrote b b'"
proof (induction vs arbitrary: b)
  case Nil
  then show ?case by (simp add: wrote_refl)
next
  case (Cons v vs)
  then obtain b1 where v: "put16bits v b = (Inr (), b1)" and vs: "for_each put16bits vs b1 = (Inr (), b')"
    by (auto elim!: seq_InrE)
  have "wrote b b1"
    using put16bits_InrD [OF Cons.prems(2) v] wrote_overwrite [OF Cons.prems(2), of "be16 v"] by simp
  moreover from this have "dns_wf b1" by (simp add: wrote_def)
  ultimately show ?case using Cons.IH [OF vs] wrote_trans by blast
qed

lemma small_count:
  assumes "k * length xs \<le> 0x4000" and "0 < k"
  shows "fits16 (of_nat (length xs))" and "unat (of_nat (length xs) :: u32) = length xs"
proof -
  have "length xs \<le> k * length xs" using assms(2) by (cases k) simp_all
  from le_trans [OF this assms(1)] have "length xs < 2 ^ 16" by simp
  then show "fits16 (of_nat (length xs))" and "unat (of_nat (length xs) :: u32) = length xs"
    by (simp_all add: fits16_of_nat unat_of_nat)
qed

text \<open>What a message is written as: the header, the questions and three lists of records, each behind the other.\<close>

definition header_words :: "message \<Rightarrow> u32 list" where
  "header_words m = [mId m, header_fields m, of_nat (length (mQueries m)), of_nat (length (mAnswers m)),
      of_nat (length (mAuthorities m)), of_nat (length (mAdditional m))]"

lemma Message_put_stages:
  assumes ok: "message_ok m" and wf: "dns_wf b" and put: "Message_put uninit m b = (Inr m', b')"
  obtains bh bq ba bn where
    "for_each put16bits (header_words m) b = (Inr (), bh)" "wrote b bh"
    "for_each (QuerySection_encode uninit) (mQueries m) bh = (Inr (), bq)" "wrote bh bq"
    "for_each (rr_put uninit) (mAnswers m) bq = (Inr (), ba)" "wrote bq ba"
    "for_each (rr_put uninit) (mAuthorities m) ba = (Inr (), bn)" "wrote ba bn"
    "for_each (rr_put uninit) (mAdditional m) bn = (Inr (), b')" "wrote bn b'" "m' = m"
    "mBufferPtr bh + 5 * length (mQueries m) \<le> mBufferPtr bq" "mBufferPtr bq + 11 * length (mAnswers m) \<le> mBufferPtr ba"
    "mBufferPtr ba + 11 * length (mAuthorities m) \<le> mBufferPtr bn" "mBufferPtr bn + 11 * length (mAdditional m) \<le> mBufferPtr b'"
proof -
  from put obtain bh bq ba bn as ns xs where
    h: "for_each put16bits (header_words m) b = (Inr (), bh)"
    and q: "for_each (QuerySection_encode uninit) (mQueries m) bh = (Inr (), bq)"
    and a: "map_each (ResourceRecord_encode uninit) (mAnswers m) bq = (Inr as, ba)"
    and s: "map_each (ResourceRecord_encode uninit) (mAuthorities m) ba = (Inr ns, bn)"
    and x: "map_each (ResourceRecord_encode uninit) (mAdditional m) bn = (Inr xs, b')"
    and m': "m' = m\<lparr>mAnswers := as, mAuthorities := ns, mAdditional := xs\<rparr>"
    unfolding header_words_def by (rule Message_put_InrE)
  have oks: "\<forall>q\<in>set (mQueries m). query_ok q" "\<forall>r\<in>set (mAnswers m). record_ok r"
    "\<forall>r\<in>set (mAuthorities m). record_ok r" "\<forall>r\<in>set (mAdditional m). record_ok r"
    using ok by (simp_all add: message_ok_def)
  have wh: "wrote b bh" by (rule put16s_wrote [OF h wf])
  then have wfh: "dns_wf bh" by (simp add: wrote_def)
  have wq: "wrote bh bq \<and> mBufferPtr bh + 5 * length (mQueries m) \<le> mBufferPtr bq"
    by (rule qss.put_wrote [OF _ wfh q]) (use oks in simp)
  then have wfq: "dns_wf bq" by (simp add: wrote_def)
  note ra = map_each_records [OF oks(2) wfq a]
  have wa: "wrote bq ba \<and> mBufferPtr bq + 11 * length (mAnswers m) \<le> mBufferPtr ba"
    by (rule rrs.put_wrote [OF _ wfq ra(2)]) (use oks in simp)
  then have wfa: "dns_wf ba" by (simp add: wrote_def)
  note rs = map_each_records [OF oks(3) wfa s]
  have ws: "wrote ba bn \<and> mBufferPtr ba + 11 * length (mAuthorities m) \<le> mBufferPtr bn"
    by (rule rrs.put_wrote [OF _ wfa rs(2)]) (use oks in simp)
  then have wfn: "dns_wf bn" by (simp add: wrote_def)
  note rx = map_each_records [OF oks(4) wfn x]
  have wx: "wrote bn b' \<and> mBufferPtr bn + 11 * length (mAdditional m) \<le> mBufferPtr b'"
    by (rule rrs.put_wrote [OF _ wfn rx(2)]) (use oks in simp)
  have "m' = m" using m' ra(1) rs(1) rx(1) by simp
  with h q ra(2) rs(2) rx(2) wh wq wa ws wx show thesis by (elim conjE) (rule that)
qed

lemma Message_decode_encoded:
  assumes ok: "message_ok m" and len: "length buf \<le> MAX_MSG_LEN"
    and enc: "Message_encode uninit m buf = Inr (m', out, n)"
  shows "m' = m \<and> n \<le> length out \<and> Message_decode m0 (take n out) = Inr (m\<lparr>mRCode := mRCode m0\<rparr>)"
proof -
  let ?b = "Buffer_ctor buf"
  from enc obtain b' where put: "Message_put uninit m ?b = (Inr m', b')"
    and out: "out = mBuffer b'" and n: "n = mBufferPtr b'"
    by (auto simp: Message_encode_def split: prod.splits sum.splits)
  have wf: "dns_wf ?b" using len by (rule dns_wf_ctor)
  obtain bh bq ba bn where
    h: "for_each put16bits (header_words m) ?b = (Inr (), bh)" "wrote ?b bh"
    and q: "for_each (QuerySection_encode uninit) (mQueries m) bh = (Inr (), bq)" "wrote bh bq"
    and a: "for_each (rr_put uninit) (mAnswers m) bq = (Inr (), ba)" "wrote bq ba"
    and s: "for_each (rr_put uninit) (mAuthorities m) ba = (Inr (), bn)" "wrote ba bn"
    and x: "for_each (rr_put uninit) (mAdditional m) bn = (Inr (), b')" "wrote bn b'" "m' = m"
    and room: "mBufferPtr bh + 5 * length (mQueries m) \<le> mBufferPtr bq" "mBufferPtr bq + 11 * length (mAnswers m) \<le> mBufferPtr ba"
    "mBufferPtr ba + 11 * length (mAuthorities m) \<le> mBufferPtr bn" "mBufferPtr bn + 11 * length (mAdditional m) \<le> mBufferPtr b'"
    by (rule Message_put_stages [OF ok wf put])
  have oks: "header_ok m" "\<forall>q\<in>set (mQueries m). query_ok q" "\<forall>r\<in>set (mAnswers m). record_ok r"
    "\<forall>r\<in>set (mAuthorities m). record_ok r" "\<forall>r\<in>set (mAdditional m). record_ok r"
    using ok by (simp_all add: message_ok_def)
  have wfs: "dns_wf bh" "dns_wf bq" "dns_wf ba" "dns_wf bn" "dns_wf b'"
    using h q a s x by (simp_all add: wrote_def)
  have w: "wrote ba b'" "wrote bq b'" "wrote bh b'" using q(2) a(2) s(2) x(2) wrote_trans by blast+
  have last: "mBufferPtr b' \<le> length (mBuffer b')" "length (mBuffer b') \<le> 0x4000"
    using wfs(5) by (simp_all add: dns_wf_def)
  have "5 * length (mQueries m) \<le> 0x4000" "11 * length (mAnswers m) \<le> 0x4000"
    "11 * length (mAuthorities m) \<le> 0x4000" "11 * length (mAdditional m) \<le> 0x4000"
    using room last by linarith+
  then have counts: "fits16 (of_nat (length (mQueries m)))" "fits16 (of_nat (length (mAnswers m)))"
      "fits16 (of_nat (length (mAuthorities m)))" "fits16 (of_nat (length (mAdditional m)))"
      "unat (of_nat (length (mQueries m)) :: u32) = length (mQueries m)"
      "unat (of_nat (length (mAnswers m)) :: u32) = length (mAnswers m)"
      "unat (of_nat (length (mAuthorities m)) :: u32) = length (mAuthorities m)"
      "unat (of_nat (length (mAdditional m)) :: u32) = length (mAdditional m)"
    by (auto dest: small_count)
  let ?c = "Buffer_ctor (take n out)" and ?m = "removeAllRecords m0"
  let ?at = "\<lambda>p. ?c\<lparr>mBufferPtr := p\<rparr>"
  have c: "dns_wf ?c" "mLinkPos ?c = []"
      "take (mBufferPtr b') (mBuffer ?c) = take (mBufferPtr b') (mBuffer b')"
      "length (mBuffer ?c) = mBufferPtr b'"
    using last out n by (simp_all add: dns_wf_def Buffer_ctor_def)
  have le: "mBufferPtr bh \<le> mBufferPtr b'" "mBufferPtr bq \<le> mBufferPtr b'"
      "mBufferPtr ba \<le> mBufferPtr b'" "mBufferPtr bn \<le> mBufferPtr b'"
    using room by linarith+
  have p0: "?c = ?at (mBufferPtr ?b)" by (simp add: Buffer_ctor_def)
  have 1: "bnd (get_many get16bits 6) f ?c = f (header_words m) (?at (mBufferPtr bh))" for f :: "_ \<Rightarrow> message dns"
    by (subst p0, rule u16s.put_run [OF _ wf h(1) w(3) c(1-3)])
      (use counts header_fields_bits(7) oks(1) le c(4) in \<open>simp_all add: header_ok_def header_words_def\<close>)
  have 2: "bnd (get_many QuerySection_decode (length (mQueries m))) f (?at (mBufferPtr bh))
      = f (mQueries m) (?at (mBufferPtr bq))" for f :: "_ \<Rightarrow> message dns"
    by (rule qss.put_run [OF _ wfs(1) q(1) w(2) c(1-3)]) (use oks le c(4) in simp_all)
  have 3: "bnd (get_many ResourceRecord_decode (length (mAnswers m))) f (?at (mBufferPtr bq))
      = f (mAnswers m) (?at (mBufferPtr ba))" for f :: "_ \<Rightarrow> message dns"
    by (rule rrs.put_run [OF _ wfs(2) a(1) w(1) c(1-3)]) (use oks le c(4) in simp_all)
  have 4: "bnd (get_many ResourceRecord_decode (length (mAuthorities m))) f (?at (mBufferPtr ba))
      = f (mAuthorities m) (?at (mBufferPtr bn))" for f :: "_ \<Rightarrow> message dns"
    by (rule rrs.put_run [OF _ wfs(3) s(1) x(2) c(1-3)]) (use oks le c(4) in simp_all)
  have 5: "bnd (get_many ResourceRecord_decode (length (mAdditional m))) f (?at (mBufferPtr bn))
      = f (mAdditional m) (?at (mBufferPtr b'))" for f :: "_ \<Rightarrow> message dns"
    by (rule rrs.put_run [OF _ wfs(4) x(1) wrote_refl [OF wfs(5)] c(1-3)]) (use oks le c(4) in simp_all)
  let ?r = "?m\<lparr>mId := mId m, mQr := mQr m, mOpCode := mOpCode m, mAA := mAA m, mTC := mTC m,
      mRD := mRD m, mRA := mRA m, mQueries := mQueries m, mAnswers := mAnswers m,
      mAuthorities := mAuthorities m, mAdditional := mAdditional m\<rparr>"
  have "Message_body ?m ?c = Message_rest ?m (mId m) (header_fields m) (of_nat (length (mQueries m)))
      (of_nat (length (mAnswers m))) (of_nat (length (mAuthorities m)))
      (of_nat (length (mAdditional m))) (?at (mBufferPtr bh))"
    unfolding Message_body_eq 1 by (simp add: header_words_def)
  also have "\<dots> = (Inr ?r, ?at (mBufferPtr b'))"
    using oks(1) c(4) unfolding Message_rest_def counts 2 3 4 5 header_fields_bits
    by (simp add: bnd_def getPos_def getSize_def header_ok_def)
  finally have body: "fst (Message_body ?m ?c) = Inr ?r" by simp
  have r: "?r = m\<lparr>mRCode := mRCode m0\<rparr>" by (simp add: removeAllRecords_def)
  have "length (mBuffer b') = length buf"
    using w(3) h(2) by (simp add: wrote_def Buffer_ctor_def)
  then have "length (take n out) \<le> MAX_MSG_LEN" using len out by simp
  then have "Message_decode m0 (take n out) = Inr (m\<lparr>mRCode := mRCode m0\<rparr>)"
    using body unfolding r Message_decode_def by auto
  moreover have "n \<le> length out" using last(1) n out by simp
  ultimately show ?thesis using x(3) by simp
qed

end
