(* ===== verification/DnsSafety.thy ===== *)
theory DnsSafety
  imports DnsMessage
begin

section \<open>What the DNS codec does on hostile input\<close>

text \<open>
  The bytes of a DNS response come from the network, and the name of a query from the client.
  The lemmas show that decoding any message ends, stays inside the buffer and fails only with
  \<open>dns::Exception\<close>, with one exception (a service record that is too short), and they show
  the name for which encoding leaves the bounds of its local array.
\<close>

subsection \<open>Readers that stay inside the buffer\<close>

definition dns_reader :: "(fault \<Rightarrow> bool) \<Rightarrow> 'a dns \<Rightarrow> bool" where
  "dns_reader E m \<longleftrightarrow> (\<forall>b. dns_wf b \<longrightarrow>
     wpre m (\<lambda>_ b'. dns_wf b' \<and> mBuffer b' = mBuffer b) (\<lambda>e _. E e) b)"

named_theorems readers \<open>readers that stay inside the buffer\<close>

lemma dns_readerI:
  assumes "\<And>b. dns_wf b \<Longrightarrow> wpre m (\<lambda>_ b'. dns_wf b' \<and> mBuffer b' = mBuffer b) (\<lambda>e _. E e) b"
  shows "dns_reader E m"
  using assms by (simp add: dns_reader_def)

lemma dns_reader_InrD:
  assumes "dns_reader E m" and "dns_wf b" and "m b = (Inr x, b')"
  shows "dns_wf b' \<and> mBuffer b' = mBuffer b"
  using assms by (auto simp: dns_reader_def dest!: spec [of _ b] wpre_InrD)

lemma dns_reader_InlD:
  assumes "dns_reader E m" and "dns_wf b" and "m b = (Inl e, b')"
  shows "E e"
  using assms by (auto simp: dns_reader_def dest!: spec [of _ b] wpre_InlD)

lemma dns_reader_mono: "dns_reader E m \<Longrightarrow> (\<And>e. E e \<Longrightarrow> E' e) \<Longrightarrow> dns_reader E' m"
  unfolding dns_reader_def by (blast intro: wpre_mono)

lemma dns_reader_ret [readers]: "dns_reader E (ret x)" "dns_reader E (Pair (Inr x))"
  by (simp_all add: dns_reader_def wp)

lemma dns_reader_throw [readers]: "E e \<Longrightarrow> dns_reader E (throw e)"
  by (simp add: dns_reader_def wp)

lemma dns_reader_asks [readers]: "dns_reader E (asks f)" "dns_reader E getPos" "dns_reader E getSize"
  by (simp_all add: dns_reader_def getPos_def getSize_def wp)

lemma dns_reader_bnd [readers]:
  assumes "dns_reader E m" and "\<And>x. dns_reader E (f x)"
  shows "dns_reader E (bnd m f)"
proof (rule dns_readerI)
  fix b :: dnsbuf
  assume b: "dns_wf b"
  show "wpre (bnd m f) (\<lambda>_ b'. dns_wf b' \<and> mBuffer b' = mBuffer b) (\<lambda>e _. E e) b"
    unfolding wpre_bnd
  proof (rule wpre_mono)
    show "wpre m (\<lambda>_ b'. dns_wf b' \<and> mBuffer b' = mBuffer b) (\<lambda>e _. E e) b"
      using assms(1) b by (simp add: dns_reader_def)
  next
    fix x t
    assume t: "dns_wf t \<and> mBuffer t = mBuffer b"
    then show "wpre (f x) (\<lambda>_ b'. dns_wf b' \<and> mBuffer b' = mBuffer b) (\<lambda>e _. E e) t"
      using assms(2) [of x] by (auto simp: dns_reader_def)
  qed
qed

lemma dns_reader_if [readers]:
  "dns_reader E m \<Longrightarrow> dns_reader E n \<Longrightarrow> dns_reader E (if c then m else n)"
  by simp

lemma dns_reader_get_many [readers]: "dns_reader E g \<Longrightarrow> dns_reader E (get_many g n)"
  by (induction n) (auto intro!: readers)

text \<open>The accessors.\<close>

abbreviation dns_only :: "'a dns \<Rightarrow> bool" where
  "dns_only \<equiv> dns_reader is_dns_exception"

lemma get8bits_reader [readers]: "dns_only get8bits"
  by (rule dns_readerI) (auto simp: wpre_def get8bits_exec dns_wf_def)

lemma get16bits_reader [readers]: "dns_only get16bits"
  by (rule dns_readerI) (auto simp: wpre_def get16bits_def checkAvailableSpace_exec seq_def bnd_def
      peek_def skip_def dns_wf_def)

lemma get32bits_reader [readers]: "dns_only get32bits"
  by (rule dns_readerI) (auto simp: wpre_def get32bits_def checkAvailableSpace_exec seq_def bnd_def
      peek_def skip_def dns_wf_def)

lemma getBytes_reader [readers]:
  assumes "n < 2 ^ 31"
  shows "dns_only (getBytes n)"
proof (rule dns_readerI)
  fix b :: dnsbuf
  assume b: "dns_wf b"
  then have "(mBufferPtr b + n) mod 2 ^ 32 = mBufferPtr b + n"
    using assms by (intro mod_less) (simp add: dns_wf_def)
  with b show "wpre (getBytes n) (\<lambda>_ b'. dns_wf b' \<and> mBuffer b' = mBuffer b)
      (\<lambda>e _. is_dns_exception e) b"
    by (auto simp: wpre_def getBytes_def checkAvailableSpace_def seq_def bnd_def skip_def dns_wf_def)
qed

lemma getDnsCharacterString_reader [readers]: "dns_only getDnsCharacterString"
  unfolding getDnsCharacterString_def
proof (intro readers)
  fix n :: byte
  have "unat n < 2 ^ LENGTH(8)" by (rule unsigned_less)
  then show "unat n < 2 ^ 31" by (rule order.strict_trans) simp
qed

lemma setPos_reader [readers]: "dns_only (setPos p)"
  by (rule dns_readerI) (auto simp: wpre_def setPos_def bnd_def dns_wf_def)

text \<open>Running a reader: it fails, or it goes on with the rest.\<close>

lemma reader_cases:
  assumes "dns_reader E m" and "dns_wf b"
  obtains (fail) e t where "m b = (Inl e, t)" and "E e"
  | (run) x t where "m b = (Inr x, t)" and "dns_wf t" and "mBuffer t = mBuffer b"
proof (cases "m b")
  case (Pair r t)
  then show thesis
    using that assms by (cases r) (auto dest: dns_reader_InlD dns_reader_InrD)
qed

text \<open>Domain names.\<close>

lemma name_reader_aux:
  "dns_wf b \<Longrightarrow> wpre (getDnsDomainName c) (\<lambda>n b'. dns_wf b' \<and> mBuffer b' = mBuffer b \<and> length n \<le> 255)
     (\<lambda>e _. is_dns_exception e) b"
  "dns_wf b \<Longrightarrow> wpre (dn_loop c d) (\<lambda>_ b'. dns_wf b' \<and> mBuffer b' = mBuffer b)
     (\<lambda>e _. is_dns_exception e) b"
proof (induction c b and c d b rule: getDnsDomainName_dn_loop.induct)
  case (1 c b)
  let ?b = "b\<lparr>mLinkPos := mLinkPos b @ [mBufferPtr b]\<rparr>"
  show ?case
  proof (cases "mBufferPtr b \<in> set (mLinkPos b)")
    case True
    then show ?thesis by (simp add: wpre_def getDnsDomainName.simps)
  next
    case False
    then have "wpre (dn_loop c []) (\<lambda>_ b'. dns_wf b' \<and> mBuffer b' = mBuffer ?b)
        (\<lambda>e _. is_dns_exception e) ?b"
      using 1 by simp
    then show ?thesis
      using False by (auto simp: wpre_def getDnsDomainName.simps bnd_def seq_def MAX_DOMAIN_LEN_def
          split: prod.splits sum.splits if_splits)
  qed
next
  case step: (2 c d b)
  have byte: "unat (x :: byte) < 2 ^ 31" for x
  proof -
    have "unat x < 2 ^ LENGTH(8)" by (rule unsigned_less)
    then show ?thesis by (rule order.strict_trans) simp
  qed
  note wpre_def [simp] bnd_def [simp] seq_def [simp]
  from get8bits_reader step(3) show ?case
  proof (cases rule: reader_cases)
    case (fail e t)
    then show ?thesis by (simp add: dn_loop.simps [of _ d b])
  next
    case x: (run x t)
    let ?d = "if 0 < length d then d @ [dot] else d"
    let ?p = "unat (x AND 63) * 256"
    consider "x = 0" | "x \<noteq> 0" "drop_bit 6 x = 3" "\<not> c" | "x \<noteq> 0" "drop_bit 6 x = 3" "c"
      | "x \<noteq> 0" "drop_bit 6 x \<noteq> 3" "MAX_LABEL_LEN < unat x"
      | "x \<noteq> 0" "drop_bit 6 x \<noteq> 3" "\<not> MAX_LABEL_LEN < unat x" by blast
    then show ?thesis
    proof cases
      case l: 3
      from get8bits_reader x(2) show ?thesis
      proof (cases rule: reader_cases)
        case (fail e t2)
        then show ?thesis using x l by (simp add: dn_loop.simps [of _ d b])
      next
        case y: (run y t2)
        from setPos_reader [of "?p + unat y"] y(2) show ?thesis
        proof (cases rule: reader_cases)
          case (fail e t3)
          then show ?thesis using x l y by (simp add: dn_loop.simps [of _ d b])
        next
          case u: (run u t3)
          note IH = step(1) [OF x(1) l(1,2) _ y(1) u(1,2)]
          obtain r t4 where r: "getDnsDomainName True t3 = (r, t4)" by (cases "getDnsDomainName True t3")
          show ?thesis
          proof (cases r)
            case (Inl e)
            then show ?thesis using IH x l y u r by (simp add: dn_loop.simps [of _ d b])
          next
            case (Inr n)
            with IH l r have t4: "dns_wf t4" "mBuffer t4 = mBuffer t3" by simp_all
            from setPos_reader [of "mBufferPtr t2"] t4(1) show ?thesis
              by (cases rule: reader_cases)
                (use x l y u r Inr t4 in \<open>simp_all add: dn_loop.simps [of _ d b]\<close>)
          qed
        qed
      qed
    next
      case l: 5
      from getBytes_reader [OF byte [of x]] x(2) show ?thesis
      proof (cases rule: reader_cases)
        case (fail e t2)
        then show ?thesis using x l by (simp add: dn_loop.simps [of _ d b])
      next
        case y: (run y t2)
        then show ?thesis
          using step(2) [OF x(1) l y(1,2)] x l by (simp add: dn_loop.simps [of _ d b])
      qed
    qed (use x in \<open>simp_all add: dn_loop.simps [of _ d b]\<close>)
  qed
qed

lemma getDnsDomainName_reader [readers]: "dns_only (getDnsDomainName c)"
  by (rule dns_readerI, rule wpre_mono, erule name_reader_aux(1)) simp_all

lemma getDnsDomainName_length:
  "dns_wf b \<Longrightarrow> getDnsDomainName c b = (Inr n, b') \<Longrightarrow> length n \<le> 255"
  by (drule name_reader_aux(1), drule wpre_InrD) auto

subsection \<open>Records and messages\<close>

definition decode_fault :: "fault \<Rightarrow> bool" where
  "decode_fault e \<longleftrightarrow> is_dns_exception e \<or> e = UndefinedBehaviour ''pop_back of empty string''"

lemma dns_only_decode [readers]: "dns_only m \<Longrightarrow> dns_reader decode_fault m"
  by (erule dns_reader_mono) (simp add: decode_fault_def)

lemma pop_back_reader: "dns_reader decode_fault (pop_back s)"
  by (simp add: pop_back_def decode_fault_def dns_reader_ret dns_reader_throw)

lemma txt_loop_reader: "dns_only (txt_loop ps n ts)"
proof (rule dns_readerI)
  fix b :: dnsbuf
  assume "dns_wf b"
  then show "wpre (txt_loop ps n ts) (\<lambda>_ b'. dns_wf b' \<and> mBuffer b' = mBuffer b)
      (\<lambda>e _. is_dns_exception e) b"
  proof (induction ps n ts b rule: txt_loop.induct)
    case (1 ps n ts b)
    from getDnsCharacterString_reader 1(2) show ?case
    proof (cases rule: reader_cases)
      case (fail e t)
      then show ?thesis using 1(2) by (simp add: wpre_def bnd_def txt_loop.simps [of ps n ts b])
    next
      case (run x t)
      then show ?thesis using 1(1) [OF _ run(1,2)] 1(2)
        by (simp add: wpre_def bnd_def txt_loop.simps [of ps n ts b])
    qed
  qed
qed

lemma srv_loop_reader: "dns_only (srv_loop ps n ts)"
proof (rule dns_readerI)
  fix b :: dnsbuf
  assume "dns_wf b"
  then show "wpre (srv_loop ps n ts) (\<lambda>_ b'. dns_wf b' \<and> mBuffer b' = mBuffer b)
      (\<lambda>e _. is_dns_exception e) b"
  proof (induction ps n ts b rule: srv_loop.induct)
    case (1 ps n ts b)
    from getDnsCharacterString_reader 1(2) show ?case
    proof (cases rule: reader_cases)
      case (fail e t)
      then show ?thesis using 1(2) by (simp add: wpre_def bnd_def srv_loop.simps [of ps n ts b])
    next
      case (run x t)
      then show ?thesis using 1(1) [OF _ run(1,2)] 1(2)
        by (simp add: wpre_def bnd_def srv_loop.simps [of ps n ts b])
    qed
  qed
qed

lemmas decode_readers = getDnsDomainName_reader [THEN dns_only_decode]
  getDnsCharacterString_reader [THEN dns_only_decode] get8bits_reader [THEN dns_only_decode]
  get16bits_reader [THEN dns_only_decode] get32bits_reader [THEN dns_only_decode]
  getBytes_reader [THEN dns_only_decode] txt_loop_reader [THEN dns_only_decode]
  srv_loop_reader [THEN dns_only_decode] pop_back_reader dns_reader_bnd dns_reader_ret
  dns_reader_asks dns_reader_if dns_reader_get_many

text \<open>No type makes \<open>decode\<close> create an \<open>RDataWKS\<close>, whose decoder could overrun its array.\<close>

lemma new_rdata_cases:
  "new_rdata t \<in> {RDataCNAME [], RDataHINFO [] [], RDataMB [], RDataMD [], RDataMF [], RDataMG [],
     RDataMINFO [] [], RDataMR [], RDataMX 0 [], RDataNS [], RDataPTR [], RDataSOA [] [] 0 0 0 0 0,
     RDataTXT [], RDataA (replicate 4 0), RDataAAAA (replicate 16 0), RDataNAPTR 0 0 [] [] [] [],
     RDataSRV 0 0 0 [], RDataNULL []}"
  by (simp add: new_rdata_def)

lemma RData_decode_reader:
  assumes "n < 2 ^ 31"
  shows "dns_reader decode_fault (RData_decode (new_rdata t) n)"
  using new_rdata_cases [of t] assms
  by (auto intro!: decode_readers)

text \<open>A two-byte field is below $2^{16}$.\<close>

lemma get16bits_bound:
  assumes "get16bits b = (Inr v, b')"
  shows "unat v < 2 ^ 16"
proof -
  from assms obtain x y :: byte where v: "v = push_bit 8 (ucast x) + ucast y"
    by (auto simp: get16bits_def peek_def skip_def elim!: seq_InrE bnd_InrE split: if_splits)
  have x: "unat x < 256" and y: "unat y < 256"
    using unsigned_less [of x] unsigned_less [of y] by simp_all
  have "unat (push_bit 8 (ucast x) :: u32) = 256 * unat x"
    using x by (simp only: unsigned_push_bit_eq unsigned_ucast_eq)
      (simp add: push_bit_eq_mult take_bit_eq_mod)
  moreover have "unat (ucast y :: u32) = unat y"
    using y by (simp only: unsigned_ucast_eq) (simp add: take_bit_eq_mod)
  moreover have "unat v \<le> unat (push_bit 8 (ucast x) :: u32) + unat (ucast y :: u32)"
    by (simp only: v unat_word_ariths mod_less_eq_dividend)
  ultimately have "unat v \<le> 256 * unat x + unat y" by simp
  with x y show ?thesis by simp
qed

lemma dns_reader_bnd_P:
  assumes "dns_reader E m" and "\<And>b x b'. m b = (Inr x, b') \<Longrightarrow> P x" and "\<And>x. P x \<Longrightarrow> dns_reader E (f x)"
  shows "dns_reader E (bnd m f)"
proof (rule dns_readerI)
  fix b :: dnsbuf
  assume b: "dns_wf b"
  from assms(1) b show "wpre (bnd m f) (\<lambda>_ b'. dns_wf b' \<and> mBuffer b' = mBuffer b) (\<lambda>e _. E e) b"
  proof (cases rule: reader_cases)
    case (run x t)
    then show ?thesis
      using assms(3) [OF assms(2) [OF run(1)]]
      by (auto simp: wpre_def bnd_def dns_reader_def dest!: spec [of _ t] split: sum.splits)
  qed (simp add: wpre_def bnd_def)
qed

lemma ResourceRecord_decode_reader: "dns_reader decode_fault ResourceRecord_decode"
proof -
  have mismatch: "dns_reader decode_fault
      (dns_throw ''Number of decoded bytes are different than expected size'')"
    by (rule dns_reader_throw) (simp add: decode_fault_def)
  have data: "dns_reader decode_fault (RData_decode (new_rdata t) (unat n))" if "unat n < 2 ^ 16"
    for t and n :: u32
    by (rule RData_decode_reader) (use that in simp)
  have tail: "dns_reader decode_fault (rr_get_tail n t c l)" for n t c l
    unfolding rr_get_tail_def Let_def
    by (rule dns_reader_bnd_P [where P = "\<lambda>v. unat v < 2 ^ 16"])
      (erule get16bits_bound | intro decode_readers mismatch data | assumption)+
  show ?thesis
    unfolding ResourceRecord_decode_eq by (intro decode_readers tail)
qed

lemma QuerySection_decode_reader: "dns_reader decode_fault QuerySection_decode"
  unfolding QuerySection_decode_def by (intro decode_readers)

lemma Message_body_reader: "dns_reader decode_fault (Message_body m)"
proof -
  have mismatch: "dns_reader decode_fault (dns_throw ''Message buffer not empty after parsing'')"
    by (rule dns_reader_throw) (simp add: decode_fault_def)
  show ?thesis
    unfolding Message_body_def decodeResourceRecords_def
    by (intro decode_readers mismatch QuerySection_decode_reader ResourceRecord_decode_reader)
qed

subsection \<open>The properties\<close>





text \<open>
  C25: on any bytes at all, decoding a message ends, and when it fails it throws
  \<open>dns::Exception\<close>, never reading or writing outside the buffer: the one undefined behaviour
  left is \<open>pop_back\<close> on an empty string.
\<close>

theorem Message_decode_faults:
  assumes "Message_decode m bs = Inl e"
  shows "is_dns_exception e \<or> e = UndefinedBehaviour ''pop_back of empty string''"
proof (cases "length bs \<le> MAX_MSG_LEN")
  case True
  then have wf: "dns_wf (Buffer_ctor bs)" by (rule dns_wf_ctor)
  obtain b' where "Message_body (removeAllRecords m) (Buffer_ctor bs) = (Inl e, b')"
    using assms True by (cases "Message_body (removeAllRecords m) (Buffer_ctor bs)")
      (auto simp: Message_decode_def)
  then show ?thesis
    using dns_reader_InlD [OF Message_body_reader wf] by (simp add: decode_fault_def)
qed (use assms in \<open>auto simp: Message_decode_def\<close>)

theorem Message_decode_faults_witness:
  "is_dns_exception (DnsException ''Try to read behind buffer'')
   \<or> DnsException ''Try to read behind buffer'' = UndefinedBehaviour ''pop_back of empty string''"
  by (rule Message_decode_faults [of Message "[0]"]) code_simp

text \<open>
  a service record whose data is exactly its three numbers makes \<open>decode\<close> remove a
  character from an empty string, which is undefined behaviour: the exception of the previous
  property happens.
\<close>

theorem RDataSRV_decode_empty_target:
  "fst (RData_decode (new_rdata RDATA_SRV) 6 (Buffer_ctor [0, 1, 0, 2, 0, 80]))
   = Inl (UndefinedBehaviour ''pop_back of empty string'')"
  by code_simp

text \<open>
  a name that the encoder has written, compressed or not, is read back by the decoder, on
  the same bytes or on any later buffer that still holds the bytes up to its end, as long as
  one more byte follows.
\<close>

theorem DnsDomainName_roundtrip:
  assumes "name_ok v" and "dns_wf b" and "putDnsDomainName uninit v True b = (Inr (), b')"
    and "dns_wf c" and "mBufferPtr c = mBufferPtr b" and "mLinkPos c = []"
    and "take (mBufferPtr b') (mBuffer c) = take (mBufferPtr b') (mBuffer b')"
    and "mBufferPtr b' < length (mBuffer c)"
  shows "getDnsDomainName True c = (Inr v, c\<lparr>mBufferPtr := mBufferPtr b'\<rparr>)"
  by (rule readsD [OF name.put_reads [OF assms(1-3)]]) (use assms in simp_all)

theorem DnsDomainName_roundtrip_witness:
  "getDnsDomainName True (Buffer_ctor [1, 97, 0, 9])
   = (Inr [97], Buffer_ctor [1, 97, 0, 9]\<lparr>mBufferPtr := 3\<rparr>)"
proof -
  have put: "putDnsDomainName (\<lambda>_. 0) [97] True (Buffer_ctor (replicate 4 0))
      = (Inr (), Buffer_ctor [1, 97, 0, 0]\<lparr>mBufferPtr := 3\<rparr>)" by code_simp
  have "getDnsDomainName True (Buffer_ctor [1, 97, 0, 9])
      = (Inr [97], Buffer_ctor [1, 97, 0, 9]\<lparr>mBufferPtr := mBufferPtr (Buffer_ctor [1, 97, 0, 0]\<lparr>mBufferPtr := 3\<rparr>)\<rparr>)"
    by (rule DnsDomainName_roundtrip [OF _ _ put])
      (simp_all add: name_ok_def labels_ok_def label_ok_def dns_wf_def Buffer_ctor_def)
  then show ?thesis by simp
qed

text \<open>
  a name whose compressed form ends the buffer cannot be read back: \<open>setPos\<close>, which takes
  the decoder behind the link, refuses the end of the buffer.
\<close>

theorem compressed_name_at_end_refused:
  "fst (getDnsDomainName True ((Buffer_ctor [1, 97, 0, 192, 0, 7])\<lparr>mBufferPtr := 3\<rparr>)) = Inr [97]
   \<and> fst (getDnsDomainName True ((Buffer_ctor [1, 97, 0, 192, 0])\<lparr>mBufferPtr := 3\<rparr>))
     = Inl (DnsException ''Try to set pos behind buffer'')"
  by code_simp

text \<open>
  C39: encoding a name of exactly 255 characters, which the length check lets through, stores
  the final zero byte outside the local array of 256 elements.
\<close>

theorem putDnsDomainName_255_overflows:
  assumes "labels_ok (split_dots v)" and "length v = 255"
  shows "putDnsDomainName uninit v compressionAllowed b
       = (Inl (UndefinedBehaviour ''write outside array''), b)"
proof -
  have "dn_labels v uninit [] 0 0 1 0 = Inl (UndefinedBehaviour ''write outside array'')"
    using dn_labels_enc [of "split_dots v" 0 v "[]" uninit] assms by (simp add: dotted_split)
  moreover have "v \<noteq> []" using assms(2) by auto
  ultimately show ?thesis
    using assms(2) by (simp add: putDnsDomainName_def MAX_DOMAIN_LEN_def)
qed

theorem putDnsDomainName_255_overflows_witness:
  "putDnsDomainName (\<lambda>_. 0) (concat (replicate 127 [97, 46]) @ [97]) True (Buffer_ctor [])
   = (Inl (UndefinedBehaviour ''write outside array''), Buffer_ctor [])"
proof (rule putDnsDomainName_255_overflows)
  have s: "split_dots (concat (replicate n [97, 46]) @ [97]) = replicate (n + 1) [97 :: byte]" for n
    by (induction n) simp_all
  show "labels_ok (split_dots (concat (replicate 127 [97, 46]) @ [97]))"
    by (simp only: s) (simp add: labels_ok_def label_ok_def list_all_iff)
  have "length (concat (replicate n [97 :: byte, 46])) = 2 * n" for n
    by (induction n) simp_all
  then show "length (concat (replicate 127 [97, 46]) @ [97 :: byte]) = 255" by simp
qed

text \<open>
  A name with a label of more than 63 characters, wherever it stands, is refused with
  \<open>dns::Exception\<close> before anything is written.
\<close>

theorem putDnsDomainName_long_label_refused:
  assumes "labels_ok pre" and "v = concat (map (\<lambda>l. l @ [dot]) pre) @ l @ rest"
    and "rest = [] \<or> hd rest = dot" and "dot \<notin> set l" and "length l > 63" and "length v \<le> 255"
  shows "putDnsDomainName uninit v compressionAllowed b = (Inl (DnsException
    ''Encoding failed because of too long domain label (max length is 63 characters)''), b)"
proof -
  have "dn_labels v uninit [] 0 0 1 0 = Inl (DnsException
      ''Encoding failed because of too long domain label (max length is 63 characters)'')"
    using dn_labels_too_long [of pre 0 v l rest "[]" uninit] assms by simp
  moreover have "v \<noteq> []" using assms(2,5) by auto
  ultimately show ?thesis
    using assms(6) by (simp add: putDnsDomainName_def MAX_DOMAIN_LEN_def)
qed

theorem putDnsDomainName_long_label_refused_witness:
  "putDnsDomainName (\<lambda>_. 0) ([98, 46] @ replicate 64 97) True (Buffer_ctor []) = (Inl (DnsException
    ''Encoding failed because of too long domain label (max length is 63 characters)''), Buffer_ctor [])"
  by (rule putDnsDomainName_long_label_refused [of "[[98]]" _ "replicate 64 97" "[]"])
    (simp_all add: labels_ok_def label_ok_def)

end
