(* ===== verification/DnsApi.thy ===== *)
theory DnsApi
  imports DnsSafety
begin

section \<open>Building DNS data\<close>

text \<open>
  The setters of \<open>dnslib/rr.h\<close>, \<open>dnslib/qs.h\<close> and \<open>dnslib/message.h\<close>, with which a program builds
  records and messages. A setter of a record class is defined for the objects of that class only. What
  is built with them from well-formed parts is well-formed, so it survives encoding and decoding.
\<close>

subsection \<open>Record data\<close>

fun setName :: "bytes \<Rightarrow> rdata \<Rightarrow> rdata" where
  "setName newName (RDataCNAME _) = RDataCNAME newName"
| "setName newName (RDataMB _) = RDataMB newName"
| "setName newName (RDataMD _) = RDataMD newName"
| "setName newName (RDataMF _) = RDataMF newName"
| "setName newName (RDataMG _) = RDataMG newName"
| "setName newName (RDataMR _) = RDataMR newName"
| "setName newName (RDataNS _) = RDataNS newName"
| "setName newName (RDataPTR _) = RDataPTR newName"

fun getName :: "rdata \<Rightarrow> bytes" where
  "getName (RDataCNAME n) = n"
| "getName (RDataMB n) = n"
| "getName (RDataMD n) = n"
| "getName (RDataMF n) = n"
| "getName (RDataMG n) = n"
| "getName (RDataMR n) = n"
| "getName (RDataNS n) = n"
| "getName (RDataPTR n) = n"

fun setCpu :: "bytes \<Rightarrow> rdata \<Rightarrow> rdata" where
  "setCpu newCpu (RDataHINFO _ o') = RDataHINFO newCpu o'"

fun setOs :: "bytes \<Rightarrow> rdata \<Rightarrow> rdata" where
  "setOs newOs (RDataHINFO c _) = RDataHINFO c newOs"

fun setRMailBx :: "bytes \<Rightarrow> rdata \<Rightarrow> rdata" where
  "setRMailBx newRMailBx (RDataMINFO _ m) = RDataMINFO newRMailBx m"

fun setMailBx :: "bytes \<Rightarrow> rdata \<Rightarrow> rdata" where
  "setMailBx newMailBx (RDataMINFO r _) = RDataMINFO r newMailBx"

text \<open>The preference of \<open>RDataMX\<close> and of \<open>RDataNAPTR\<close>.\<close>

fun setPreference :: "u32 \<Rightarrow> rdata \<Rightarrow> rdata" where
  "setPreference newPreference (RDataMX _ e) = RDataMX newPreference e"
| "setPreference newPreference (RDataNAPTR ord _ f sv r rep) = RDataNAPTR ord newPreference f sv r rep"

fun setExchange :: "bytes \<Rightarrow> rdata \<Rightarrow> rdata" where
  "setExchange newExchange (RDataMX p _) = RDataMX p newExchange"

fun setMName :: "bytes \<Rightarrow> rdata \<Rightarrow> rdata" where
  "setMName newMName (RDataSOA _ r s f t e m) = RDataSOA newMName r s f t e m"

fun setRName :: "bytes \<Rightarrow> rdata \<Rightarrow> rdata" where
  "setRName newRName (RDataSOA n _ s f t e m) = RDataSOA n newRName s f t e m"

fun setSerial :: "u32 \<Rightarrow> rdata \<Rightarrow> rdata" where
  "setSerial newSerial (RDataSOA n r _ f t e m) = RDataSOA n r newSerial f t e m"

fun setRefresh :: "u32 \<Rightarrow> rdata \<Rightarrow> rdata" where
  "setRefresh newRefresh (RDataSOA n r s _ t e m) = RDataSOA n r s newRefresh t e m"

fun setRetry :: "u32 \<Rightarrow> rdata \<Rightarrow> rdata" where
  "setRetry newRetry (RDataSOA n r s f _ e m) = RDataSOA n r s f newRetry e m"

fun setExpire :: "u32 \<Rightarrow> rdata \<Rightarrow> rdata" where
  "setExpire newExpire (RDataSOA n r s f t _ m) = RDataSOA n r s f t newExpire m"

fun setMinimum :: "u32 \<Rightarrow> rdata \<Rightarrow> rdata" where
  "setMinimum newMinimum (RDataSOA n r s f t e _) = RDataSOA n r s f t e newMinimum"

fun addTxt :: "bytes \<Rightarrow> rdata \<Rightarrow> rdata" where
  "addTxt newTxt (RDataTXT ts) = RDataTXT (ts @ [newTxt])"


text \<open>The setter of \<open>RDataA\<close> for a literal: \<open>inet_pton\<close> leaves the address when it fails.\<close>

fun setAddress_string :: "(bytes \<Rightarrow> bytes option) \<Rightarrow> bytes \<Rightarrow> rdata \<Rightarrow> rdata" where
  "setAddress_string pton addr (RDataA old) = RDataA (case pton addr of None \<Rightarrow> old | Some a \<Rightarrow> a)"

fun setProtocol :: "u32 \<Rightarrow> rdata \<Rightarrow> rdata" where
  "setProtocol newProtocol (RDataWKS a _ b) = RDataWKS a newProtocol b"

fun setOrder :: "u32 \<Rightarrow> rdata \<Rightarrow> rdata" where
  "setOrder newOrder (RDataNAPTR _ p f sv r rep) = RDataNAPTR newOrder p f sv r rep"

fun setFlags :: "bytes \<Rightarrow> rdata \<Rightarrow> rdata" where
  "setFlags newFlags (RDataNAPTR ord p _ sv r rep) = RDataNAPTR ord p newFlags sv r rep"

fun setServices :: "bytes \<Rightarrow> rdata \<Rightarrow> rdata" where
  "setServices newServices (RDataNAPTR ord p f _ r rep) = RDataNAPTR ord p f newServices r rep"

fun setRegExp :: "bytes \<Rightarrow> rdata \<Rightarrow> rdata" where
  "setRegExp newRegExp (RDataNAPTR ord p f sv _ rep) = RDataNAPTR ord p f sv newRegExp rep"

fun setReplacement :: "bytes \<Rightarrow> rdata \<Rightarrow> rdata" where
  "setReplacement newReplacement (RDataNAPTR ord p f sv r _) = RDataNAPTR ord p f sv r newReplacement"

fun setPriority :: "u32 \<Rightarrow> rdata \<Rightarrow> rdata" where
  "setPriority newPriority (RDataSRV _ w p t) = RDataSRV newPriority w p t"

fun setWeight :: "u32 \<Rightarrow> rdata \<Rightarrow> rdata" where
  "setWeight newWeight (RDataSRV pr _ p t) = RDataSRV pr newWeight p t"

fun setPort :: "u32 \<Rightarrow> rdata \<Rightarrow> rdata" where
  "setPort newPort (RDataSRV pr w _ t) = RDataSRV pr w newPort t"

fun setTarget :: "bytes \<Rightarrow> rdata \<Rightarrow> rdata" where
  "setTarget newTarget (RDataSRV pr w p _) = RDataSRV pr w p newTarget"

subsection \<open>Records and questions\<close>







definition QS_setName :: "bytes \<Rightarrow> query_section \<Rightarrow> query_section" where
  "QS_setName qName qs = qs\<lparr>mQName := qName\<rparr>"

subsection \<open>Messages\<close>










text \<open>The counts are \<open>uint\<close>.\<close>

definition getQdCount :: "message \<Rightarrow> u32" where "getQdCount m = of_nat (length (mQueries m))"
definition getAnCount :: "message \<Rightarrow> u32" where "getAnCount m = of_nat (length (mAnswers m))"
definition getNsCount :: "message \<Rightarrow> u32" where "getNsCount m = of_nat (length (mAuthorities m))"
definition getArCount :: "message \<Rightarrow> u32" where "getArCount m = of_nat (length (mAdditional m))"

subsection \<open>What a program builds\<close>















end
