(* ===== verification/NetAddr.thy ===== *)
theory NetAddr
  imports Prelude
begin

section \<open>Network addresses\<close>

text \<open>
  \<open>core/ip_address.hpp\<close>, \<open>core/ip_address.cxx\<close> and the struct \<open>SocketInfo\<close> of
  \<open>core/socket.hpp\<close>: an \<open>IPAddress\<close> keeps its port in host order, a \<open>SocketInfo\<close> in network
  order, and both keep the address in an array of 16 bytes of which IPv4 uses four. A
  \<open>sockaddr\<close> is what the system calls take and return. \<open>inet_pton\<close> is a parameter.
\<close>

datatype family = AF_INET | AF_INET6

text \<open>The family decides which bytes of a \<open>sockaddr_storage\<close> mean the address and the port.\<close>

datatype sockaddr = SockIn (sa_ip: bytes) (sa_port: u16) | SockIn6 (sa_ip: bytes) (sa_port: u16)

fun sa_family :: "sockaddr \<Rightarrow> family" where
  "sa_family (SockIn _ _) = AF_INET"
| "sa_family (SockIn6 _ _) = AF_INET6"

text \<open>\<open>sizeof(sockaddr_in)\<close>, \<open>sizeof(sockaddr_in6)\<close> and \<open>sizeof(sockaddr_storage)\<close>.\<close>

fun sa_size :: "family \<Rightarrow> nat" where
  "sa_size AF_INET = 16"
| "sa_size AF_INET6 = 28"

definition storage_size :: nat where "storage_size = 128"

abbreviation sa_len :: "sockaddr \<Rightarrow> nat" where
  "sa_len a \<equiv> sa_size (sa_family a)"

fun sa_ok :: "sockaddr \<Rightarrow> bool" where
  "sa_ok (SockIn ip _) \<longleftrightarrow> length ip = 4"
| "sa_ok (SockIn6 ip _) \<longleftrightarrow> length ip = 16"

text \<open>\<open>sin_port = 0\<close> or \<open>sin6_port = 0\<close>, by the family.\<close>

fun sa_clear_port :: "sockaddr \<Rightarrow> sockaddr" where
  "sa_clear_port (SockIn ip _) = SockIn ip 0"
| "sa_clear_port (SockIn6 ip _) = SockIn6 ip 0"

datatype ip_version = IPv4 | IPv6

subsection \<open>SocketInfo\<close>

record sockinfo =
  si_ip :: bytes
  si_port :: u16
  si_version :: ip_version

text \<open>A local \<open>SocketInfo\<close> is not initialised: its array holds the bytes of the stack.\<close>

definition SocketInfo_fresh :: "mem \<Rightarrow> sockinfo" where
  "SocketInfo_fresh junk = \<lparr>si_ip = mem_read junk 0 16, si_port = mk16 (junk 17) (junk 16),
     si_version = (if junk 18 = 0 then IPv4 else IPv6)\<rparr>"

fun SocketInfo_from :: "sockaddr \<Rightarrow> sockinfo \<Rightarrow> sockinfo" where
  "SocketInfo_from (SockIn ip port) info =
     info\<lparr>si_ip := overwrite 0 ip (si_ip info), si_port := port, si_version := IPv4\<rparr>"
| "SocketInfo_from (SockIn6 ip port) info =
     info\<lparr>si_ip := overwrite 0 ip (si_ip info), si_port := port, si_version := IPv6\<rparr>"

text \<open>The address and the length it is stored with.\<close>

definition SocketInfo_to :: "sockinfo \<Rightarrow> sockaddr \<times> nat" where
  "SocketInfo_to info =
     (if si_version info = IPv4 then (SockIn (take 4 (si_ip info)) (si_port info), sa_size AF_INET)
      else (SockIn6 (take 16 (si_ip info)) (si_port info), sa_size AF_INET6))"

definition SocketInfo_eq :: "sockinfo \<Rightarrow> sockinfo \<Rightarrow> bool" where
  "SocketInfo_eq a b =
     (if si_version a \<noteq> si_version b then False
      else if si_port a \<noteq> si_port b then False
      else if si_version a = IPv4 then take 4 (si_ip a) = take 4 (si_ip b)
      else take 16 (si_ip a) = take 16 (si_ip b))"

definition si_ok :: "sockinfo \<Rightarrow> bool" where
  "si_ok info \<longleftrightarrow> length (si_ip info) = 16"

lemma si_ok_fresh [simp]: "si_ok (SocketInfo_fresh junk)"
  by (simp add: si_ok_def SocketInfo_fresh_def)

lemma si_ok_from: "si_ok info \<Longrightarrow> sa_ok a \<Longrightarrow> si_ok (SocketInfo_from a info)"
  by (cases a) (simp_all add: si_ok_def)

lemma take_overwrite_0: "length ys = n \<Longrightarrow> take n (overwrite 0 ys xs) = ys"
  by (simp add: overwrite_def)

text \<open>The abstraction of a \<open>SocketInfo\<close>: the socket address it stands for.\<close>

definition si_addr :: "sockinfo \<Rightarrow> sockaddr" where
  "si_addr info = fst (SocketInfo_to info)"

lemma si_addr_from [simp]: "sa_ok a \<Longrightarrow> si_addr (SocketInfo_from a info) = a"
  by (cases a) (simp_all add: si_addr_def SocketInfo_to_def take_overwrite_0)

lemma SocketInfo_to_addr: "SocketInfo_to info = (si_addr info, sa_len (si_addr info))"
  by (simp add: si_addr_def SocketInfo_to_def)

lemma si_addr_eq_iff: "SocketInfo_eq a b \<longleftrightarrow> si_addr a = si_addr b"
  by (cases "si_version a"; cases "si_version b")
    (auto simp: SocketInfo_eq_def si_addr_def SocketInfo_to_def)

lemma sa_ok_si_addr: "si_ok info \<Longrightarrow> sa_ok (si_addr info)"
  by (simp add: si_addr_def SocketInfo_to_def si_ok_def)

lemma si_addr_port [simp]: "sa_port (si_addr info) = si_port info"
  by (simp add: si_addr_def SocketInfo_to_def)

subsection \<open>IPAddress\<close>

record ipaddress =
  ia_storage :: bytes
  ia_port :: u16
  ia_version :: ip_version

type_synonym pton = "family \<Rightarrow> bytes \<Rightarrow> bytes option"

text \<open>From a string, with \<open>inet_pton\<close>: IPv4 is tried before IPv6. The array is not initialised.\<close>

definition IPAddress_of_string :: "pton \<Rightarrow> mem \<Rightarrow> bytes \<Rightarrow> u16 \<Rightarrow> bool \<Rightarrow> fault + ipaddress" where
  "IPAddress_of_string inet_pton junk ip port netport =
     (let storage = mem_read junk 0 16;
          p = (if netport then ntohs port else port) in
      case inet_pton AF_INET ip of
        Some a \<Rightarrow> Inr \<lparr>ia_storage = overwrite 0 a storage, ia_port = p, ia_version = IPv4\<rparr>
      | None \<Rightarrow>
        (case inet_pton AF_INET6 ip of
           Some a \<Rightarrow> Inr \<lparr>ia_storage = overwrite 0 a storage, ia_port = p, ia_version = IPv6\<rparr>
         | None \<Rightarrow> Inl (RuntimeError ''Invalid IP address: '')))"

text \<open>From bytes: \<open>ip\<close> is the block the pointer leads to.\<close>

definition IPAddress_of_bytes :: "mem \<Rightarrow> ip_version \<Rightarrow> mem \<Rightarrow> u16 \<Rightarrow> bool \<Rightarrow> ipaddress" where
  "IPAddress_of_bytes junk version ip port netport =
     (let storage = mem_read junk 0 16 in
      \<lparr>ia_storage = overwrite 0 (mem_read ip 0 (if version = IPv4 then 4 else 16)) storage,
       ia_port = (if netport then ntohs port else port), ia_version = version\<rparr>)"

definition get_netport :: "ipaddress \<Rightarrow> u16" where
  "get_netport a = htons (ia_port a)"

definition ia_ok :: "ipaddress \<Rightarrow> bool" where
  "ia_ok a \<longleftrightarrow> length (ia_storage a) = 16"

text \<open>
  The address a socket is connected or a datagram sent to, as \<open>RemoteSocket::try_connect_next\<close>
  and \<open>DnsSocket::query\<close> fill it in: the port in network order.
\<close>

definition ia_sockaddr :: "ipaddress \<Rightarrow> sockaddr" where
  "ia_sockaddr a =
     (if ia_version a = IPv4 then SockIn (take 4 (ia_storage a)) (get_netport a)
      else SockIn6 (take 16 (ia_storage a)) (get_netport a))"

lemma ia_ok_of_bytes: "ia_ok (IPAddress_of_bytes junk v ip port netport)"
  by (simp add: ia_ok_def IPAddress_of_bytes_def Let_def)

lemma ia_sockaddr_of_bytes:
  "ia_sockaddr (IPAddress_of_bytes junk v ip port False) =
     (if v = IPv4 then SockIn (mem_read ip 0 4) (htons port) else SockIn6 (mem_read ip 0 16) (htons port))"
  by (auto simp: ia_sockaddr_def IPAddress_of_bytes_def Let_def get_netport_def overwrite_def)

end
