(* ===== verification/S5.thy ===== *)
theory S5
  imports Prelude
begin

section \<open>SOCKS5 messages\<close>

text \<open>
  \<open>core/s5_enums.hpp\<close>, \<open>core/s5.hpp\<close> and \<open>core/s5.cxx\<close>: the protocol's enumerations,
  and the classes \<open>S5Address\<close> and \<open>S5R_Base\<close> that read and write a message in place. An
  object of these classes is a pointer into a block, here the block and an offset. The
  enumerations have type \<open>uint8_t\<close> underneath and are made by casting any byte, so each
  datatype has a constructor for the values the source does not name.
\<close>

subsection \<open>Enumerations\<close>

datatype auth_method = NoAuth | UserPass | AuthInvalid | AuthOther byte

datatype addr_type = AT_IPv4 | AT_DomainName | AT_IPv6 | AT_Invalid | AT_Other byte

datatype command = Cmd_Connect | Cmd_Bind | Cmd_UdpAssociate | Cmd_Invalid | Cmd_Other byte

datatype reply =
    Rep_Success | Rep_GeneralFailure | Rep_NotAllowed | Rep_Unreachable | Rep_HostUnreachable
  | Rep_ConnectionRefused | Rep_TTLExpired | Rep_CommandNotSupported
  | Rep_AddrTypeNotSupported | Rep_Invalid

definition auth_method_of :: "byte \<Rightarrow> auth_method" where
  "auth_method_of b = (if b = 0x00 then NoAuth else if b = 0x02 then UserPass
     else if b = 0xFF then AuthInvalid else AuthOther b)"

fun auth_method_byte :: "auth_method \<Rightarrow> byte" where
  "auth_method_byte NoAuth = 0x00"
| "auth_method_byte UserPass = 0x02"
| "auth_method_byte AuthInvalid = 0xFF"
| "auth_method_byte (AuthOther b) = b"

definition addr_type_of :: "byte \<Rightarrow> addr_type" where
  "addr_type_of b = (if b = 0x01 then AT_IPv4 else if b = 0x03 then AT_DomainName
     else if b = 0x04 then AT_IPv6 else if b = 0xFF then AT_Invalid else AT_Other b)"

fun addr_type_byte :: "addr_type \<Rightarrow> byte" where
  "addr_type_byte AT_IPv4 = 0x01"
| "addr_type_byte AT_DomainName = 0x03"
| "addr_type_byte AT_IPv6 = 0x04"
| "addr_type_byte AT_Invalid = 0xFF"
| "addr_type_byte (AT_Other b) = b"

definition command_of :: "byte \<Rightarrow> command" where
  "command_of b = (if b = 0x01 then Cmd_Connect else if b = 0x02 then Cmd_Bind
     else if b = 0x03 then Cmd_UdpAssociate else if b = 0xFF then Cmd_Invalid else Cmd_Other b)"

fun reply_byte :: "reply \<Rightarrow> byte" where
  "reply_byte Rep_Success = 0x00"
| "reply_byte Rep_GeneralFailure = 0x01"
| "reply_byte Rep_NotAllowed = 0x02"
| "reply_byte Rep_Unreachable = 0x03"
| "reply_byte Rep_HostUnreachable = 0x04"
| "reply_byte Rep_ConnectionRefused = 0x05"
| "reply_byte Rep_TTLExpired = 0x06"
| "reply_byte Rep_CommandNotSupported = 0x07"
| "reply_byte Rep_AddrTypeNotSupported = 0x08"
| "reply_byte Rep_Invalid = 0xFF"

lemma auth_method_byte_of [simp]: "auth_method_byte (auth_method_of b) = b"
  by (simp add: auth_method_of_def)

lemma addr_type_byte_of [simp]: "addr_type_byte (addr_type_of b) = b"
  by (simp add: addr_type_of_def)

lemma addr_type_of_iff:
  "addr_type_of b = AT_IPv4 \<longleftrightarrow> b = 1"
  "addr_type_of b = AT_DomainName \<longleftrightarrow> b = 3"
  "addr_type_of b = AT_IPv6 \<longleftrightarrow> b = 4"
  by (auto simp: addr_type_of_def)

subsection \<open>S5Address\<close>

definition S5Address_get_type :: "mem \<Rightarrow> nat \<Rightarrow> addr_type" where
  "S5Address_get_type m a = addr_type_of (m a)"

definition S5Address_set_type :: "addr_type \<Rightarrow> nat \<Rightarrow> mem \<Rightarrow> mem" where
  "S5Address_set_type t a m = m(a := addr_type_byte t)"

text \<open>\<open>get_address\<close> is the pointer one past the type byte.\<close>

definition S5Address_get_address :: "nat \<Rightarrow> nat" where
  "S5Address_get_address a = a + 1"

definition S5Address_get_size :: "mem \<Rightarrow> nat \<Rightarrow> nat" where
  "S5Address_get_size m a = (case S5Address_get_type m a of
       AT_IPv4 \<Rightarrow> 7
     | AT_IPv6 \<Rightarrow> 19
     | AT_DomainName \<Rightarrow> unat (m (S5Address_get_address a)) + 4
     | _ \<Rightarrow> 0)"

text \<open>The \<open>uint16_t\<close> at an offset: low byte first.\<close>

definition load16 :: "mem \<Rightarrow> nat \<Rightarrow> u16" where
  "load16 m p = mk16 (m (p + 1)) (m p)"

definition store16 :: "u16 \<Rightarrow> nat \<Rightarrow> mem \<Rightarrow> mem" where
  "store16 v p m = mem_write m p [lo8 v, hi8 v]"

definition S5Address_get_port :: "mem \<Rightarrow> nat \<Rightarrow> u16" where
  "S5Address_get_port m a = (let sz = S5Address_get_size m a in
     if sz = 0 then 0 else ntohs (load16 m (a + sz - 2)))"

definition S5Address_set_port :: "u16 \<Rightarrow> bool \<Rightarrow> nat \<Rightarrow> mem \<Rightarrow> mem" where
  "S5Address_set_port port netport a m = (let sz = S5Address_get_size m a in
     if sz = 0 then m else store16 (if netport then port else htons port) (a + sz - 2) m)"

text \<open>\<open>src\<close> is the block the argument points to.\<close>

definition S5Address_set_address :: "mem \<Rightarrow> nat \<Rightarrow> mem \<Rightarrow> mem" where
  "S5Address_set_address src a m = (case S5Address_get_type m a of
       AT_IPv4 \<Rightarrow> mem_write m (S5Address_get_address a) (mem_read src 0 4)
     | AT_IPv6 \<Rightarrow> mem_write m (S5Address_get_address a) (mem_read src 0 16)
     | AT_DomainName \<Rightarrow>
         (let port = S5Address_get_port m a in
          S5Address_set_port port False a
            (mem_write m (S5Address_get_address a) (mem_read src 0 (unat (src 0) + 1))))
     | _ \<Rightarrow> m)"

subsection \<open>S5R\_Base and its subclasses\<close>

text \<open>Command, reply and UDP header are three bytes and an address.\<close>

definition S5R_get_address :: "nat \<Rightarrow> nat" where
  "S5R_get_address d = d + 3"

definition S5R_get_size :: "mem \<Rightarrow> nat \<Rightarrow> nat" where
  "S5R_get_size m d = S5Address_get_size m (S5R_get_address d) + 3"

definition S5R_set_version :: "byte \<Rightarrow> nat \<Rightarrow> mem \<Rightarrow> mem" where
  "S5R_set_version v d m = m(d := v)"

definition S5R_get_cmd_or_rep :: "mem \<Rightarrow> nat \<Rightarrow> byte" where
  "S5R_get_cmd_or_rep m d = m (d + 1)"

definition S5R_set_cmd_or_rep :: "byte \<Rightarrow> nat \<Rightarrow> mem \<Rightarrow> mem" where
  "S5R_set_cmd_or_rep v d m = m(d + 1 := v)"

definition S5CommandMessage_get_command :: "mem \<Rightarrow> nat \<Rightarrow> command" where
  "S5CommandMessage_get_command m d = command_of (S5R_get_cmd_or_rep m d)"

definition S5ReplyMessage_set_reply :: "reply \<Rightarrow> nat \<Rightarrow> mem \<Rightarrow> mem" where
  "S5ReplyMessage_set_reply r d m = S5R_set_cmd_or_rep (reply_byte r) d m"

subsection \<open>The wire format\<close>

text \<open>
  What the classes implement: the address field of RFC 1928, a type byte, the address (for
  a domain name with its length before it) and the port with its high byte first.
\<close>

datatype endpoint =
    EpIPv4 bytes u16
  | EpIPv6 bytes u16
  | EpDomain bytes u16

fun ep_ok :: "endpoint \<Rightarrow> bool" where
  "ep_ok (EpIPv4 ip p) \<longleftrightarrow> length ip = 4"
| "ep_ok (EpIPv6 ip p) \<longleftrightarrow> length ip = 16"
| "ep_ok (EpDomain d p) \<longleftrightarrow> length d < 256"

fun ep_type :: "endpoint \<Rightarrow> addr_type" where
  "ep_type (EpIPv4 _ _) = AT_IPv4"
| "ep_type (EpIPv6 _ _) = AT_IPv6"
| "ep_type (EpDomain _ _) = AT_DomainName"

fun ep_port :: "endpoint \<Rightarrow> u16" where
  "ep_port (EpIPv4 _ p) = p"
| "ep_port (EpIPv6 _ p) = p"
| "ep_port (EpDomain _ p) = p"

text \<open>What \<open>get_address\<close> points to.\<close>

fun ep_addr :: "endpoint \<Rightarrow> bytes" where
  "ep_addr (EpIPv4 ip _) = ip"
| "ep_addr (EpIPv6 ip _) = ip"
| "ep_addr (EpDomain d _) = of_nat (length d) # d"

definition ep_wire :: "endpoint \<Rightarrow> bytes" where
  "ep_wire e = addr_type_byte (ep_type e) # ep_addr e @ [hi8 (ep_port e), lo8 (ep_port e)]"

text \<open>Writing an address: the three setters in the order every caller uses.\<close>

definition S5Address_put :: "addr_type \<Rightarrow> mem \<Rightarrow> u16 \<Rightarrow> bool \<Rightarrow> nat \<Rightarrow> mem \<Rightarrow> mem" where
  "S5Address_put t src port netport a m =
     S5Address_set_port port netport a (S5Address_set_address src a (S5Address_set_type t a m))"

subsection \<open>Reading the wire format\<close>

lemma length_ep_wire: "length (ep_wire e) = length (ep_addr e) + 3"
  by (simp add: ep_wire_def)

lemma ep_wire_at:
  assumes "mem_read m a (length (ep_wire e)) = ep_wire e" and "i < length (ep_wire e)"
  shows "m (a + i) = ep_wire e ! i"
  using nth_mem_read [OF assms(2), of m a] assms(1) by simp

lemma get_type_wire:
  assumes "mem_read m a (length (ep_wire e)) = ep_wire e"
  shows "S5Address_get_type m a = ep_type e"
  using ep_wire_at [OF assms, of 0]
  by (cases e) (simp_all add: length_ep_wire S5Address_get_type_def ep_wire_def addr_type_of_def)

lemma get_size_wire:
  assumes "mem_read m a (length (ep_wire e)) = ep_wire e" and "ep_ok e"
  shows "S5Address_get_size m a = length (ep_wire e)"
  using get_type_wire [OF assms(1)] assms(2) ep_wire_at [OF assms(1), of 1]
  by (cases e) (simp_all add: S5Address_get_size_def S5Address_get_address_def
      length_ep_wire unat_of_nat_byte ep_wire_def)

lemma get_address_wire:
  assumes "mem_read m a (length (ep_wire e)) = ep_wire e"
  shows "mem_read m (S5Address_get_address a) (length (ep_addr e)) = ep_addr e"
proof (rule nth_equalityI)
  fix i assume "i < length (mem_read m (S5Address_get_address a) (length (ep_addr e)))"
  then have i: "i < length (ep_addr e)" by simp
  then have "m (a + Suc i) = ep_wire e ! Suc i"
    by (intro ep_wire_at [OF assms]) (simp add: length_ep_wire)
  with i show "mem_read m (S5Address_get_address a) (length (ep_addr e)) ! i = ep_addr e ! i"
    by (simp add: S5Address_get_address_def ep_wire_def nth_append)
qed simp

lemma get_port_wire:
  assumes "mem_read m a (length (ep_wire e)) = ep_wire e" and "ep_ok e"
  shows "S5Address_get_port m a = ep_port e"
proof -
  let ?n = "length (ep_addr e)"
  have "m (a + (?n + 1)) = hi8 (ep_port e)" and "m (a + (?n + 2)) = lo8 (ep_port e)"
    using ep_wire_at [OF assms(1), of "?n + 1"] ep_wire_at [OF assms(1), of "?n + 2"]
    by (simp_all add: length_ep_wire ep_wire_def nth_append nth_Cons')
  then show ?thesis
    using get_size_wire [OF assms]
    by (simp add: S5Address_get_port_def load16_def length_ep_wire add.commute add.left_commute)
qed

subsection \<open>Writing the wire format\<close>

text \<open>\<open>src\<close> points to the address bytes of \<open>e\<close>.\<close>

definition ep_src :: "mem \<Rightarrow> endpoint \<Rightarrow> bool" where
  "ep_src src e \<longleftrightarrow> mem_read src 0 (length (ep_addr e)) = ep_addr e"

lemma get_size_mem_write:
  "ep_ok e \<Longrightarrow> length (ep_wire e) \<le> length bs + 2 \<Longrightarrow> take (length bs) (ep_wire e) = bs
   \<Longrightarrow> S5Address_get_size (mem_write m a bs) a = length (ep_wire e)"
proof -
  assume ok: "ep_ok e" and len: "length (ep_wire e) \<le> length bs + 2"
    and bs: "take (length bs) (ep_wire e) = bs"
  have n: "length bs = min (length bs) (length (ep_wire e))"
    using bs by (metis length_take min.commute)
  have nth: "mem_write m a bs (a + i) = ep_wire e ! i" if "i < length bs" for i
    using that bs n by (simp add: mem_write_def) (metis nth_take)
  have "1 \<le> length bs" using len by (simp add: length_ep_wire)
  then have t: "mem_write m a bs a = addr_type_byte (ep_type e)"
    using nth [of 0] by (cases bs) (simp_all add: ep_wire_def)
  show ?thesis
  proof (cases e)
    case (EpDomain d p)
    then have "2 \<le> length bs" using len by (simp add: length_ep_wire)
    then have "mem_write m a bs (a + 1) = of_nat (length d)"
      using nth [of 1] EpDomain by (simp add: ep_wire_def)
    with t EpDomain ok show ?thesis
      by (simp add: S5Address_get_size_def S5Address_get_type_def addr_type_of_def
          S5Address_get_address_def length_ep_wire unat_of_nat_byte)
  qed (use t ok in \<open>simp_all add: S5Address_get_size_def S5Address_get_type_def
      addr_type_of_def length_ep_wire\<close>)
qed

lemma set_port_mem_write:
  assumes "ep_ok e" and "bs = addr_type_byte (ep_type e) # ep_addr e"
    and "v = (if netport then htons p else p)"
  shows "S5Address_set_port v netport a (mem_write m a bs) = mem_write m a (bs @ [hi8 p, lo8 p])"
proof -
  have bs: "ep_wire e = bs @ [hi8 (ep_port e), lo8 (ep_port e)]"
    by (simp add: assms(2) ep_wire_def)
  have "S5Address_get_size (mem_write m a bs) a = length (ep_wire e)"
    by (rule get_size_mem_write [OF assms(1)]) (simp_all add: bs)
  moreover have "store16 (htons p) (a + length bs) (mem_write m a bs)
      = mem_write m a (bs @ [hi8 p, lo8 p])"
    using mem_write_append [of m a bs "[hi8 p, lo8 p]"] by (simp add: store16_def)
  ultimately show ?thesis
    using assms(3) by (simp add: S5Address_set_port_def bs)
qed

lemma set_port_wire:
  assumes "ep_ok e" and "v = (if netport then htons (ep_port e) else ep_port e)"
    and "w = addr_type_byte (ep_type e) # ep_addr e @ [hi8 q, lo8 q]"
  shows "S5Address_set_port v netport a (mem_write m a w) = mem_write m a (ep_wire e)"
proof -
  let ?bs = "addr_type_byte (ep_type e) # ep_addr e"
  have w: "mem_write m a w = mem_write (mem_write m (a + length ?bs) [hi8 q, lo8 q]) a ?bs"
    using assms(3) by (intro ext) (auto simp: mem_write_def nth_append nth_Cons')
  have "S5Address_set_port v netport a (mem_write m a w)
      = mem_write (mem_write m (a + length ?bs) [hi8 q, lo8 q]) a
          (?bs @ [hi8 (ep_port e), lo8 (ep_port e)])"
    unfolding w by (rule set_port_mem_write [OF assms(1) refl assms(2)])
  also have "\<dots> = mem_write m a (ep_wire e)"
    by (intro ext) (auto simp: mem_write_def ep_wire_def nth_append nth_Cons')
  finally show ?thesis .
qed

text \<open>
  The three setters together write exactly the wire format of the endpoint, whatever the
  block held before, with the port given in host order or, with \<open>netport\<close>, in network order.
\<close>

lemma S5Address_put_wire:
  assumes ok: "ep_ok e" and src: "ep_src src e"
    and v: "v = (if netport then htons (ep_port e) else ep_port e)"
  shows "S5Address_put (ep_type e) src v netport a m = mem_write m a (ep_wire e)"
proof -
  let ?t = "addr_type_byte (ep_type e)"
  let ?m = "mem_write m a [?t]"
  have t: "S5Address_get_type ?m a = ep_type e"
    by (cases e) (simp_all add: S5Address_get_type_def addr_type_of_def)
  have m1: "mem_write ?m (S5Address_get_address a) (ep_addr e) = mem_write m a (?t # ep_addr e)"
    using mem_write_append [of m a "[?t]" "ep_addr e"] by (simp add: S5Address_get_address_def)
  have plain: ?thesis
    if "S5Address_set_address src a ?m = mem_write m a (?t # ep_addr e)"
    using that set_port_mem_write [OF ok refl v, of a m]
    by (simp add: S5Address_put_def S5Address_set_type_def mem_write_single ep_wire_def)
  show ?thesis
  proof (cases e)
    case (EpIPv4 ip p)
    then show ?thesis
      using m1 t src ok by (intro plain) (simp add: S5Address_set_address_def ep_src_def)
  next
    case (EpIPv6 ip p)
    then show ?thesis
      using m1 t src ok by (intro plain) (simp add: S5Address_set_address_def ep_src_def)
  next
    case (EpDomain d p)
    let ?q = "S5Address_get_port ?m a"
    have "src 0 = of_nat (length d)"
      using EpDomain src nth_mem_read [of 0 "Suc (length d)" src 0] by (simp add: ep_src_def)
    then have "mem_read src 0 (unat (src 0) + 1) = ep_addr e"
      using EpDomain src ok by (simp add: ep_src_def unat_of_nat_byte)
    then have "S5Address_set_address src a ?m
        = S5Address_set_port ?q False a (mem_write m a (?t # ep_addr e))"
      using t m1 EpDomain by (simp add: S5Address_set_address_def Let_def)
    also have "\<dots> = mem_write m a (?t # ep_addr e @ [hi8 ?q, lo8 ?q])"
      using set_port_mem_write [OF ok refl, of ?q False ?q a m] by simp
    finally show ?thesis
      using set_port_wire [OF ok v refl, of a m ?q]
      by (simp add: S5Address_put_def S5Address_set_type_def mem_write_single)
  qed
qed

text \<open>A type the source does not know: only the type byte is written, the size is 0.\<close>

lemma S5Address_put_other:
  assumes "t \<notin> {AT_IPv4, AT_IPv6, AT_DomainName}" and "addr_type_of (addr_type_byte t) = t"
  shows "S5Address_put t src v netport a m = m(a := addr_type_byte t)"
    and "S5Address_get_size (m(a := addr_type_byte t)) a = 0"
  using assms
  by (cases t; simp add: S5Address_put_def S5Address_set_type_def S5Address_set_address_def
      S5Address_get_type_def S5Address_set_port_def S5Address_get_size_def)+

subsection \<open>Messages: three bytes and an address\<close>

locale address_view =
  fixes size_of :: "mem \<Rightarrow> nat \<Rightarrow> nat"
    and put :: "'e \<Rightarrow> nat \<Rightarrow> mem \<Rightarrow> mem"
    and wire :: "'e \<Rightarrow> bytes"
    and ok :: "'e \<Rightarrow> bool"
  assumes put_wire: "ok e \<Longrightarrow> put e a m = mem_write m a (wire e)"
    and size_wire: "ok e \<Longrightarrow> mem_read m a (length (wire e)) = wire e \<Longrightarrow> size_of m a = length (wire e)"
begin

text \<open>A header of \<open>h\<close> followed by an address: the bytes to send, and their number.\<close>

lemma message_bytes:
  assumes "ok e" and "mem_read m d (length h) = h"
  shows "mem_read (put e (d + length h) m) d (length h + length (wire e)) = h @ wire e"
proof -
  let ?m = "mem_write m (d + length h) (wire e)"
  have "mem_read ?m d (length h) = h"
    using assms(2) by (simp add: mem_read_write_other)
  then show ?thesis
    using assms(1) by (simp add: put_wire mem_read_append)
qed

lemma message_size: "ok e \<Longrightarrow> size_of (put e a m) a = length (wire e)"
  by (rule size_wire) (simp_all add: put_wire)

end

text \<open>
  The provider: \<open>S5Address\<close> over an endpoint, a block that holds its address bytes and the
  byte order in which its port is given.
\<close>

fun put_view :: "endpoint \<times> mem \<times> bool \<Rightarrow> nat \<Rightarrow> mem \<Rightarrow> mem" where
  "put_view (e, src, netport) a m =
     S5Address_put (ep_type e) src (if netport then htons (ep_port e) else ep_port e) netport a m"

fun view_ok :: "endpoint \<times> mem \<times> bool \<Rightarrow> bool" where
  "view_ok (e, src, netport) \<longleftrightarrow> ep_ok e \<and> ep_src src e"

interpretation s5: address_view S5Address_get_size put_view "\<lambda>v. ep_wire (fst v)" view_ok
proof unfold_locales
  fix v :: "endpoint \<times> mem \<times> bool" and a m
  assume "view_ok v"
  then show "put_view v a m = mem_write m a (ep_wire (fst v))"
    by (cases v) (simp add: S5Address_put_wire)
next
  fix v :: "endpoint \<times> mem \<times> bool" and m a
  assume "view_ok v" and "mem_read m a (length (ep_wire (fst v))) = ep_wire (fst v)"
  then show "S5Address_get_size m a = length (ep_wire (fst v))"
    by (cases v) (simp add: get_size_wire)
qed

text \<open>
  Every accessor of a message at offset 0 stays within 262 bytes (three, a type byte, a length
  byte, 255 bytes and a port): two blocks that agree there are read alike.
\<close>

lemma S5R_footprint:
  assumes "\<And>i. i < 262 \<Longrightarrow> m i = m' i"
  shows "S5R_get_cmd_or_rep m 0 = S5R_get_cmd_or_rep m' 0"
    and "S5Address_get_type m 3 = S5Address_get_type m' 3"
    and "S5Address_get_size m 3 = S5Address_get_size m' 3"
    and "S5Address_get_port m 3 = S5Address_get_port m' 3"
    and "S5Address_get_size m 3 \<le> 259"
proof -
  show "S5R_get_cmd_or_rep m 0 = S5R_get_cmd_or_rep m' 0"
    by (simp add: S5R_get_cmd_or_rep_def assms)
  show t: "S5Address_get_type m 3 = S5Address_get_type m' 3"
    by (simp add: S5Address_get_type_def assms)
  show s: "S5Address_get_size m 3 = S5Address_get_size m' 3"
    by (simp add: S5Address_get_size_def t S5Address_get_address_def assms split: addr_type.split)
  have "unat (m 4) < 256" using unsigned_less [of "m 4", where ?'a = nat] by simp
  then show b: "S5Address_get_size m 3 \<le> 259"
    by (simp add: S5Address_get_size_def S5Address_get_address_def split: addr_type.splits)
  have "load16 m (3 + S5Address_get_size m 3 - 2) = load16 m' (3 + S5Address_get_size m 3 - 2)"
    using b by (simp add: load16_def assms)
  then show "S5Address_get_port m 3 = S5Address_get_port m' 3"
    by (simp add: S5Address_get_port_def s Let_def)
qed

subsection \<open>Properties\<close>

text \<open>
  C26: Setting the type, the address and the port of an \<open>S5Address\<close> writes exactly the RFC 1928
  wire format of the endpoint over the block and nothing else, for each of the three address
  types and whatever the block held before (for a domain name the setter itself reads and
  rewrites a port at a place that depends on the old contents).
\<close>

theorem S5Address_setters_write_wire_format:
  assumes "ep_ok e" and "ep_src src e"
  shows "S5Address_set_port (ep_port e) False a
          (S5Address_set_address src a (S5Address_set_type (ep_type e) a m))
        = mem_write m a (ep_wire e)"
  using S5Address_put_wire [OF assms, of "ep_port e" False] by (simp add: S5Address_put_def)

theorem S5Address_setters_write_wire_format_witness:
  "S5Address_set_port 80 False 3
     (S5Address_set_address (mem_write (\<lambda>_. 0) 0 [2, 97, 98]) 3
        (S5Address_set_type AT_DomainName 3 (\<lambda>_. 7)))
   = mem_write (\<lambda>_. 7) 3 [3, 2, 97, 98, 0, 80]"
  using S5Address_setters_write_wire_format
    [of "EpDomain [97, 98] 80" "mem_write (\<lambda>_. 0) 0 [2, 97, 98]" 3 "\<lambda>_. 7"]
  by (simp add: ep_src_def mem_read_write_prefix ep_wire_def hi8_def lo8_def)

text \<open>
  C27: Reading back: on a block that holds the wire format of an endpoint, the getters of
  \<open>S5Address\<close> return its type, its size, its address bytes and its port.
\<close>

theorem S5Address_getters_parse_wire_format:
  assumes "ep_ok e" and "mem_read m a (length (ep_wire e)) = ep_wire e"
  shows "S5Address_get_type m a = ep_type e
       \<and> S5Address_get_size m a = length (ep_wire e)
       \<and> mem_read m (S5Address_get_address a) (length (ep_addr e)) = ep_addr e
       \<and> S5Address_get_port m a = ep_port e"
  using assms get_type_wire get_size_wire get_address_wire get_port_wire by blast

theorem S5Address_getters_parse_wire_format_witness:
  "S5Address_get_type (mem_write (\<lambda>_. 0) 3 [1, 10, 0, 0, 1, 0, 80]) 3 = AT_IPv4
   \<and> S5Address_get_port (mem_write (\<lambda>_. 0) 3 [1, 10, 0, 0, 1, 0, 80]) 3 = 80"
  using S5Address_getters_parse_wire_format
    [of "EpIPv4 [10, 0, 0, 1] 80" "mem_write (\<lambda>_. 0) 3 [1, 10, 0, 0, 1, 0, 80]" 3]
  by (simp add: ep_wire_def hi8_def lo8_def mem_read_write_prefix)

end
