(* ===== verification/Config.thy ===== *)
theory Config
  imports NetAddr S5
begin

section \<open>The server's configuration\<close>

text \<open>
  \<open>server/server_params.hpp\<close>, the constructor and the getters of \<open>server/server.cxx\<close>, the Linux
  branch of \<open>server/utils.cxx\<close>, \<open>core/utils.cxx\<close> and the log level of \<open>server_cli/src/cli.cxx\<close>.
  Strings are lists of bytes. The contents of \<open>/etc/resolv.conf\<close> are an argument, \<open>None\<close> when
  the file cannot be opened.
\<close>

record server_params =
  listen_ip :: bytes
  listen_port :: u16
  username :: bytes
  password :: bytes
  dns_ip :: bytes
  dns_port :: u16
  client_tcp_nodelay :: bool
  client_tcp_keepalive :: bool
  remote_tcp_nodelay :: bool
  remote_tcp_keepalive :: bool

text \<open>The bytes of a literal.\<close>

definition str :: "string \<Rightarrow> bytes" where
  "str s = map (\<lambda>c. of_nat (of_char c)) s"

definition ServerParams_default :: server_params where
  "ServerParams_default = \<lparr>listen_ip = [], listen_port = 1080, username = [], password = [],
     dns_ip = [], dns_port = 53, client_tcp_nodelay = False, client_tcp_keepalive = False,
     remote_tcp_nodelay = False, remote_tcp_keepalive = False\<rparr>"

subsection \<open>Address literals\<close>

definition is_digit :: "byte \<Rightarrow> bool" where
  "is_digit c \<longleftrightarrow> 48 \<le> c \<and> c \<le> 57"

definition is_hex :: "byte \<Rightarrow> bool" where
  "is_hex c \<longleftrightarrow> is_digit c \<or> (97 \<le> c \<and> c \<le> 102) \<or> (65 \<le> c \<and> c \<le> 70)"

fun split_on :: "byte \<Rightarrow> bytes \<Rightarrow> bytes list" where
  "split_on sep [] = [[]]"
| "split_on sep (c # cs) =
     (if c = sep then [] # split_on sep cs
      else case split_on sep cs of [] \<Rightarrow> [[c]] | l # ls \<Rightarrow> (c # l) # ls)"

text \<open>One number of the IPv4 pattern: 25[0-5], 2[0-4][0-9] or [01]?[0-9][0-9]?.\<close>

fun ipv4_octet :: "bytes \<Rightarrow> bool" where
  "ipv4_octet [a] \<longleftrightarrow> is_digit a"
| "ipv4_octet [a, b] \<longleftrightarrow> is_digit a \<and> is_digit b"
| "ipv4_octet [a, b, c] \<longleftrightarrow>
     (a = 50 \<and> b = 53 \<and> 48 \<le> c \<and> c \<le> 53) \<or> (a = 50 \<and> 48 \<le> b \<and> b \<le> 52 \<and> is_digit c)
     \<or> ((a = 48 \<or> a = 49) \<and> is_digit b \<and> is_digit c)"
| "ipv4_octet _ \<longleftrightarrow> False"

text \<open>
  \<open>regex_match\<close> of the whole string; both word boundaries lie between a digit and an end of the
  string, so they always hold.
\<close>

definition is_ipv4_address :: "bytes \<Rightarrow> bool" where
  "is_ipv4_address a \<longleftrightarrow> (let ps = split_on 46 a in length ps = 4 \<and> list_all ipv4_octet ps)"

definition hex_group :: "bytes \<Rightarrow> bool" where
  "hex_group g \<longleftrightarrow> 1 \<le> length g \<and> length g \<le> 4 \<and> list_all is_hex g"

text \<open>
  The IPv6 pattern has two alternatives: eight groups, or one to seven groups, two colons and
  one to seven groups. The second alternative also allows groups that begin with a colon, but
  it starts with a word boundary, which does not hold before a colon at the start of the
  string, so that branch never matches.
\<close>

definition is_ipv6_address :: "bytes \<Rightarrow> bool" where
  "is_ipv6_address a \<longleftrightarrow> (let ps = split_on 58 a;
       l = takeWhile (\<lambda>g. g \<noteq> []) ps; r = drop (length l + 1) ps in
     (length ps = 8 \<and> list_all hex_group ps)
     \<or> (length l < length ps \<and> 1 \<le> length l \<and> length l \<le> 7 \<and> 1 \<le> length r \<and> length r \<le> 7
        \<and> list_all hex_group l \<and> list_all hex_group r))"

definition is_ip_address :: "bytes \<Rightarrow> bool" where
  "is_ip_address a \<longleftrightarrow> is_ipv4_address a \<or> is_ipv6_address a"

subsection \<open>Name servers of the host\<close>

text \<open>\<open>std::getline\<close>: the parts between line feeds; an empty last part is no line.\<close>

definition lines_of :: "bytes \<Rightarrow> bytes list" where
  "lines_of f = (let ps = split_on 10 f in if last ps = [] then butlast ps else ps)"

definition get_dns_nameservers :: "bytes option \<Rightarrow> bytes list" where
  "get_dns_nameservers resolv_file = (case resolv_file of
     None \<Rightarrow> []
   | Some f \<Rightarrow> map (drop 11) (filter (\<lambda>line. take 11 line = str ''nameserver '') (lines_of f)))"

subsection \<open>The constructor\<close>

definition tolower :: "byte \<Rightarrow> byte" where
  "tolower c = (if 65 \<le> c \<and> c \<le> 90 then c + 32 else c)"

definition Server_resolve_dns_ip :: "bytes option \<Rightarrow> bytes \<Rightarrow> bytes" where
  "Server_resolve_dns_ip resolv_file ip =
     (let ip = (if ip = [] then str ''auto'' else map tolower ip) in
      if ip = str ''none'' then []
      else if ip = str ''auto'' then
        (let nameservers = get_dns_nameservers resolv_file in
         if nameservers = [] then [] else hd nameservers)
      else if \<not> is_ip_address ip then []
      else ip)"

definition Server_params :: "bytes option \<Rightarrow> server_params \<Rightarrow> server_params" where
  "Server_params resolv_file p = p\<lparr>dns_ip := Server_resolve_dns_ip resolv_file (dns_ip p)\<rparr>"

subsection \<open>Authentication\<close>

definition get_auth_method :: "server_params \<Rightarrow> auth_method" where
  "get_auth_method p = (if username p = [] \<and> password p = [] then NoAuth else UserPass)"

definition authenticate :: "server_params \<Rightarrow> bytes \<Rightarrow> bytes \<Rightarrow> bool" where
  "authenticate p user pass =
     (if get_auth_method p = NoAuth then True else username p = user \<and> password p = pass)"

lemma authenticate_iff:
  "authenticate p user pass \<longleftrightarrow>
     (username p = [] \<and> password p = []) \<or> (user = username p \<and> pass = password p)"
  by (auto simp: authenticate_def get_auth_method_def)

subsection \<open>Command line\<close>

datatype log_level = Off | Error | Warning | Info | Debug

definition log_level_of :: "bytes \<Rightarrow> log_level" where
  "log_level_of s = (if s = str ''error'' then Error else if s = str ''warning'' then Warning
     else if s = str ''info'' then Info else if s = str ''debug'' then Debug else Off)"

subsection \<open>Properties\<close>

lemma split_on_not_Nil [simp]: "split_on sep v \<noteq> []"
  by (cases v) (auto split: list.splits)

text \<open>
  The DNS server the constructor settles on is empty (no resolution), or an address literal
  that was configured (in lower case), or, for an empty setting or \<open>auto\<close>, the first
  \<open>nameserver\<close> line of the resolver configuration, taken as it stands there.
\<close>

lemma Server_dns_ip_cases:
  "Server_resolve_dns_ip f ip = []
   \<or> (is_ip_address (map tolower ip) \<and> Server_resolve_dns_ip f ip = map tolower ip)
   \<or> ((ip = [] \<or> map tolower ip = str ''auto'')
      \<and> (\<exists>c line rest. f = Some c \<and> lines_of c = rest \<and> line \<in> set rest
           \<and> line = str ''nameserver '' @ Server_resolve_dns_ip f ip))"
proof -
  have str_auto: "str ''auto'' = [97, 117, 116, 111]" and str_none: "str ''none'' = [110, 111, 110, 101]"
    by (simp_all add: str_def)
  let ?ip = "if ip = [] then str ''auto'' else map tolower ip"
  consider "?ip = str ''none''" | "?ip = str ''auto''" "get_dns_nameservers f = []"
    | "?ip = str ''auto''" "get_dns_nameservers f \<noteq> []"
    | "?ip \<noteq> str ''none''" "?ip \<noteq> str ''auto''" by blast
  then show ?thesis
  proof cases
    case 3
    then obtain c where c: "f = Some c" by (auto simp: get_dns_nameservers_def split: option.splits)
    let ?ls = "filter (\<lambda>line. take 11 line = str ''nameserver '') (lines_of c)"
    have ls: "?ls \<noteq> []" using 3(2) c by (auto simp: get_dns_nameservers_def)
    have "hd ?ls \<in> set ?ls" by (rule hd_in_set [OF ls])
    then have h: "hd ?ls \<in> set (lines_of c)" "take 11 (hd ?ls) = str ''nameserver ''"
      by (simp_all only: set_filter mem_Collect_eq)
    have "Server_resolve_dns_ip f ip = drop 11 (hd ?ls)"
      using 3 c ls by (simp add: Server_resolve_dns_ip_def Let_def get_dns_nameservers_def hd_map
          str_auto str_none)
    then have "hd ?ls = str ''nameserver '' @ Server_resolve_dns_ip f ip"
      using h(2) by (metis append_take_drop_id)
    moreover have "ip = [] \<or> map tolower ip = str ''auto''" using 3(1) by (auto split: if_splits)
    ultimately show ?thesis using c h(1) by blast
  next
    case 4
    then show ?thesis
      by (auto simp: Server_resolve_dns_ip_def Let_def split: if_splits)
  qed (simp_all add: Server_resolve_dns_ip_def Let_def str_auto str_none)
qed

text \<open>
  The IPv6 pattern refuses a literal that begins with two colons, such as the loopback
  address, although its second alternative is written to allow it; it accepts a compressed
  address that begins with a group.
\<close>

theorem is_ipv6_address_leading_colons:
  "\<not> is_ipv6_address (str ''::1'') \<and> is_ipv6_address (str ''fe80::1'')"
  by code_simp

end
