(* ===== verification/Decimal.thy ===== *)
theory Decimal
  imports Config
begin

section \<open>Numbers in text\<close>

text \<open>
  How a stream prints a natural number and how \<open>std::from_chars\<close> reads one. The DNS classes print theirs, the
  argument parser reads ports.
\<close>

subsection \<open>Printing\<close>

definition digit :: "nat \<Rightarrow> byte" where
  "digit n = (if n < 10 then of_nat (48 + n) else of_nat (87 + n))"

fun in_base :: "nat \<Rightarrow> nat \<Rightarrow> bytes" where
  "in_base b n = (if b < 2 \<or> n < b then [digit n] else in_base b (n div b) @ [digit (n mod b)])"

declare in_base.simps [simp del]

abbreviation dec :: "nat \<Rightarrow> bytes" where "dec \<equiv> in_base 10"
abbreviation hex :: "nat \<Rightarrow> bytes" where "hex \<equiv> in_base 16"

text \<open>\<open>showbase\<close>: a zero has no prefix.\<close>

definition hex_showbase :: "nat \<Rightarrow> bytes" where
  "hex_showbase n = (if n = 0 then hex 0 else str ''0x'' @ hex n)"

text \<open>\<open>setw\<close> and \<open>setfill\<close>.\<close>

definition padded :: "byte \<Rightarrow> nat \<Rightarrow> bytes \<Rightarrow> bytes" where
  "padded fill w s = replicate (w - length s) fill @ s"

definition uint :: "u32 \<Rightarrow> bytes" where "uint v = dec (unat v)"

text \<open>Parts with a separator between them.\<close>

fun joined :: "byte \<Rightarrow> bytes list \<Rightarrow> bytes" where
  "joined sep [] = []"
| "joined sep [p] = p"
| "joined sep (p # q # ps) = p @ sep # joined sep (q # ps)"

subsection \<open>Reading\<close>

definition read_dec :: "bytes \<Rightarrow> nat" where
  "read_dec ds = foldl (\<lambda>n c. 10 * n + (unat c - 48)) 0 ds"

lemma byte_less: "unat (b :: byte) < 256"
  using unsigned_less [of b] by simp

lemma ten_cases: "(n :: nat) < 10 \<Longrightarrow> n \<in> {0, 1, 2, 3, 4, 5, 6, 7, 8, 9}"
  by auto

lemma dec_digit:
  assumes "n < 10"
  shows "is_digit (digit n)" "digit n \<noteq> 46" "unat (digit n) = 48 + n"
  using ten_cases [OF assms] by (elim insertE; simp add: digit_def is_digit_def)+

lemma dec_induct [case_names less more]:
  assumes "\<And>n. n < 10 \<Longrightarrow> P n" and "\<And>n. 10 \<le> n \<Longrightarrow> P (n div 10) \<Longrightarrow> P n"
  shows "P (n :: nat)"
proof (induction n rule: less_induct)
  case (less n)
  then show ?case using assms by (cases "n < 10") auto
qed

lemma dec_less: "n < 10 \<Longrightarrow> dec n = [digit n]"
  by (simp add: in_base.simps [of 10 n])

lemma dec_more: "10 \<le> n \<Longrightarrow> dec n = dec (n div 10) @ [digit (n mod 10)]"
  by (simp add: in_base.simps [of 10 n])

lemma dec_digits: "list_all is_digit (dec n)"
  by (induction n rule: dec_induct) (simp_all add: dec_less dec_more dec_digit)

lemma dec_not_Nil: "dec n \<noteq> []"
  by (cases "n < 10") (simp_all add: dec_less dec_more)

lemma read_dec_snoc: "read_dec (ds @ [c]) = 10 * read_dec ds + (unat c - 48)"
  by (simp add: read_dec_def)

lemma read_dec: "read_dec (dec n) = n"
proof (induction n rule: dec_induct)
  case (less n)
  then show ?case by (simp add: dec_less read_dec_def dec_digit)
next
  case (more n)
  then show ?case by (simp add: dec_more read_dec_snoc dec_digit)
qed

end
