(* ===== verification/DnsPrint.thy ===== *)
theory DnsPrint
  imports DnsApi Decimal
begin

section \<open>Printing DNS data\<close>

text \<open>
  The \<open>asString\<close> functions of \<open>dnslib/rr.cpp\<close>, \<open>dnslib/qs.cpp\<close> and \<open>dnslib/message.cpp\<close>, \<open>Buffer::dump\<close>
  and \<open>SocketInfo::str\<close>. Each writes to a stream; what the manipulators set stays set in
  that stream, which matters for the message: \<open>hex\<close>, set for the id, is never taken back, so the counts
  are printed in base 16 as well.
\<close>

subsection \<open>Record data\<close>

definition RDataCNAME_asString :: "bytes \<Rightarrow> bytes" where
  "RDataCNAME_asString n = str ''<<CNAME domainName='' @ n"

definition RDataHINFO_asString :: "bytes \<Rightarrow> bytes \<Rightarrow> bytes" where
  "RDataHINFO_asString cpu os = str ''<<HINFO cpu='' @ cpu @ str '' os='' @ os"

definition RDataMB_asString :: "bytes \<Rightarrow> bytes" where
  "RDataMB_asString n = str ''<<MB madname='' @ n"

definition RDataMD_asString :: "bytes \<Rightarrow> bytes" where
  "RDataMD_asString n = str ''<<MD madname='' @ n"

definition RDataMF_asString :: "bytes \<Rightarrow> bytes" where
  "RDataMF_asString n = str ''<<MF madname='' @ n"

definition RDataMG_asString :: "bytes \<Rightarrow> bytes" where
  "RDataMG_asString n = str ''<<MG madname='' @ n"

definition RDataMINFO_asString :: "bytes \<Rightarrow> bytes \<Rightarrow> bytes" where
  "RDataMINFO_asString r m = str ''<<MINFO rmailbx='' @ r @ str '' mailbx='' @ m"

definition RDataMR_asString :: "bytes \<Rightarrow> bytes" where
  "RDataMR_asString n = str ''<<MR newname='' @ n"

definition RDataMX_asString :: "u32 \<Rightarrow> bytes \<Rightarrow> bytes" where
  "RDataMX_asString p e = str ''<<MX preference='' @ uint p @ str '' exchange='' @ e"

definition RDataNULL_asString :: "bytes \<Rightarrow> bytes" where
  "RDataNULL_asString d = str ''<<NULL size='' @ dec (length d)"

definition RDataNS_asString :: "bytes \<Rightarrow> bytes" where
  "RDataNS_asString n = str ''<<NS nsdname='' @ n"

definition RDataPTR_asString :: "bytes \<Rightarrow> bytes" where
  "RDataPTR_asString n = str ''<<PTR ptrdname='' @ n"

text \<open>The refresh time is printed twice, the first time also as a retry time.\<close>

definition RDataSOA_asString :: "bytes \<Rightarrow> bytes \<Rightarrow> u32 \<Rightarrow> u32 \<Rightarrow> u32 \<Rightarrow> u32 \<Rightarrow> u32 \<Rightarrow> bytes" where
  "RDataSOA_asString mname rname serial refresh retry expire minimum =
     str ''<<SOA mname='' @ mname @ str '' rname='' @ rname @ str '' serial='' @ uint serial
     @ str '' refresh='' @ uint refresh @ str '' retry='' @ uint refresh @ str '' retry='' @ uint retry
     @ str '' expire='' @ uint expire @ str '' minimum='' @ uint minimum"

definition RDataTXT_asString :: "bytes list \<Rightarrow> bytes" where
  "RDataTXT_asString ts = str ''<<TXT items='' @ dec (length ts) @ concat (map (\<lambda>t. [32, 39] @ t @ [39]) ts)"

text \<open>The four numbers with dots; the sixteen as eight pairs with colons, each of two digits.\<close>

definition dotted_quad :: "bytes \<Rightarrow> bytes" where
  "dotted_quad a = joined 46 (map (\<lambda>b. dec (unat b)) a)"

definition RDataA_asString :: "bytes \<Rightarrow> bytes" where
  "RDataA_asString a = str ''<<RData A addr='' @ dotted_quad a"

definition RDataWKS_asString :: "bytes \<Rightarrow> u32 \<Rightarrow> bytes \<Rightarrow> bytes" where
  "RDataWKS_asString a protocol bitmap =
     str ''<<RData WKS addr='' @ dotted_quad a @ str '' protocol='' @ uint protocol @ str '' bitmap-size='' @ dec (length bitmap)"

definition two_digits :: "byte \<Rightarrow> bytes" where
  "two_digits b = padded 48 2 (hex (unat b))"

fun paired :: "bytes \<Rightarrow> bytes list" where
  "paired (a # b # bs) = (two_digits a @ two_digits b) # paired bs"
| "paired _ = []"

definition RDataAAAA_asString :: "bytes \<Rightarrow> bytes" where
  "RDataAAAA_asString a = str ''<<RData AAAA addr='' @ joined 58 (paired a)"

definition RDataNAPTR_asString :: "u32 \<Rightarrow> u32 \<Rightarrow> bytes \<Rightarrow> bytes \<Rightarrow> bytes \<Rightarrow> bytes \<Rightarrow> bytes" where
  "RDataNAPTR_asString ord pref fl services regexp replacement =
     str ''<<NAPTR order='' @ uint ord @ str '' preference='' @ uint pref @ str '' flags='' @ fl
     @ str '' services='' @ services @ str '' regexp='' @ regexp @ str '' replacement='' @ replacement"

definition RDataSRV_asString :: "u32 \<Rightarrow> u32 \<Rightarrow> u32 \<Rightarrow> bytes \<Rightarrow> bytes" where
  "RDataSRV_asString priority weight port target =
     str ''mPriority: '' @ uint priority @ str '', mWeight: '' @ uint weight @ str '', mPort: '' @ uint port
     @ str '', mTarget: '' @ target @ [10]"

text \<open>The virtual call.\<close>

fun RData_asString :: "rdata \<Rightarrow> bytes" where
  "RData_asString (RDataCNAME n) = RDataCNAME_asString n"
| "RData_asString (RDataHINFO c o') = RDataHINFO_asString c o'"
| "RData_asString (RDataMB n) = RDataMB_asString n"
| "RData_asString (RDataMD n) = RDataMD_asString n"
| "RData_asString (RDataMF n) = RDataMF_asString n"
| "RData_asString (RDataMG n) = RDataMG_asString n"
| "RData_asString (RDataMINFO r m) = RDataMINFO_asString r m"
| "RData_asString (RDataMR n) = RDataMR_asString n"
| "RData_asString (RDataMX p e) = RDataMX_asString p e"
| "RData_asString (RDataNULL d) = RDataNULL_asString d"
| "RData_asString (RDataNS n) = RDataNS_asString n"
| "RData_asString (RDataPTR n) = RDataPTR_asString n"
| "RData_asString (RDataSOA n r s f t e m) = RDataSOA_asString n r s f t e m"
| "RData_asString (RDataTXT ts) = RDataTXT_asString ts"
| "RData_asString (RDataA a) = RDataA_asString a"
| "RData_asString (RDataWKS a p b) = RDataWKS_asString a p b"
| "RData_asString (RDataAAAA a) = RDataAAAA_asString a"
| "RData_asString (RDataNAPTR ord p f sv r rep) = RDataNAPTR_asString ord p f sv r rep"
| "RData_asString (RDataSRV pr w p t) = RDataSRV_asString pr w p t"

definition ResourceRecord_asString :: "resource_record \<Rightarrow> bytes" where
  "ResourceRecord_asString rr = (case rr_mRData rr of None \<Rightarrow> [] | Some d \<Rightarrow> RData_asString d) @ [10]"

definition QuerySection_asString :: "query_section \<Rightarrow> bytes" where
  "QuerySection_asString qs = str ''<DNS Question: '' @ mQName qs @ str '' qtype='' @ uint (mQType qs)
     @ str '' qclass='' @ uint (mQClass qs) @ [10]"

subsection \<open>Messages\<close>

definition section_asString :: "bytes \<Rightarrow> ('a \<Rightarrow> bytes) \<Rightarrow> 'a list \<Rightarrow> bytes" where
  "section_asString title f xs =
     (if xs = [] then [] else title @ [10] @ concat (map (\<lambda>x. str ''  '' @ f x) xs))"

definition Message_asString :: "message \<Rightarrow> bytes" where
  "Message_asString m = str ''Header:'' @ [10]
     @ str ''ID: '' @ hex_showbase (unat (mId m)) @ [10]
     @ str ''  fields: [ QR: '' @ hex (unat (mQr m)) @ str '' opCode: '' @ hex (unat (mOpCode m)) @ str '' ]'' @ [10]
     @ str ''  QDcount: '' @ hex (length (mQueries m)) @ [10]
     @ str ''  ANcount: '' @ hex (length (mAnswers m)) @ [10]
     @ str ''  NScount: '' @ hex (length (mAuthorities m)) @ [10]
     @ str ''  ARcount: '' @ hex (length (mAdditional m)) @ [10]
     @ section_asString (str ''Queries:'') QuerySection_asString (mQueries m)
     @ section_asString (str ''Answers:'') ResourceRecord_asString (mAnswers m)
     @ section_asString (str ''Authorities:'') ResourceRecord_asString (mAuthorities m)
     @ section_asString (str ''Additional:'') ResourceRecord_asString (mAdditional m)"

text \<open>
  \<open>dump\<close> prints the first \<open>count\<close> bytes, or all for 0, ten to a line; a count larger than the buffer
  reads behind it.
\<close>

definition dump_byte :: "nat \<Rightarrow> byte \<Rightarrow> bytes" where
  "dump_byte i c = (if i mod 10 = 0 then [10] @ padded 48 2 (dec i) @ str '': '' else [])
     @ padded 48 2 (hex (unat c)) @ [32]"

definition dump :: "nat \<Rightarrow> dnsbuf \<Rightarrow> fault + bytes" where
  "dump count b = (let size = length (mBuffer b); dumpCount = (if count > 0 then count else size) in
     if dumpCount > size then Inl (UndefinedBehaviour ''read behind buffer'')
     else Inr (str ''Buffer dump'' @ [10] @ str ''size: '' @ dec size @ str '' bytes'' @ [10]
       @ str ''---------------------------------''
       @ concat (map (\<lambda>i. dump_byte i (mBuffer b ! i)) [0..<dumpCount])
       @ [10] @ str ''---------------------------------'' @ [10]))"

subsection \<open>Socket addresses\<close>

text \<open>
  \<open>inet_ntop\<close> is a parameter: the text of an address. It is written with a terminating zero to a local array that
  is not initialised; the IPv4 branch takes the text up to the zero, the IPv6 branch always
  39 bytes, whatever they hold.
\<close>

definition SocketInfo_str :: "(family \<Rightarrow> bytes \<Rightarrow> bytes) \<Rightarrow> mem \<Rightarrow> sockinfo \<Rightarrow> bytes" where
  "SocketInfo_str ntop junk si =
     (case si_version si of
        IPv4 \<Rightarrow> ntop AF_INET (take 4 (si_ip si))
      | IPv6 \<Rightarrow> mem_read (mem_write junk 0 (ntop AF_INET6 (si_ip si) @ [0])) 0 39)
     @ [58] @ dec (unat (ntohs (si_port si)))"

subsection \<open>Reading back what is printed\<close>

lemma split_on_part: "sep \<notin> set p \<Longrightarrow> split_on sep p = [p]"
  by (induction p) auto

lemma split_on_append: "sep \<notin> set p \<Longrightarrow> split_on sep (p @ sep # r) = p # split_on sep r"
proof (induction p)
  case (Cons c p)
  then show ?case by (auto simp: eq_commute [of c])
qed simp

lemma split_on_joined: "ps \<noteq> [] \<Longrightarrow> \<forall>p \<in> set ps. sep \<notin> set p \<Longrightarrow> split_on sep (joined sep ps) = ps"
  by (induction sep ps rule: joined.induct) (simp_all add: split_on_part split_on_append)

text \<open>Digits, and the one to three of an octet.\<close>

lemma hex_digit:
  assumes "n < 16"
  shows "is_hex (digit n)" "digit n \<noteq> 58"
proof -
  have "n \<in> {0, 1, 2, 3, 4, 5, 6, 7, 8, 9, 10, 11, 12, 13, 14, 15}"
    using assms by (simp add: numeral_eq_Suc less_Suc_eq)
  then show "is_hex (digit n)" "digit n \<noteq> 58"
    by (elim insertE; simp add: digit_def is_hex_def is_digit_def)+
qed

lemma hundreds: "n div 10 div 10 = n div (100 :: nat)"
  by (simp add: div_mult2_eq [of n 10 10, symmetric])

lemma dec_octet:
  assumes "n < 256"
  shows "dec n = (if n < 10 then [digit n] else if n < 100 then [digit (n div 10), digit (n mod 10)]
    else [digit (n div 100), digit (n div 10 mod 10), digit (n mod 10)])"
proof -
  consider "n < 10" | "10 \<le> n" "n < 100" | "100 \<le> n" by linarith
  then show ?thesis
  proof cases
    case 2
    then have "n div 10 < 10" by auto
    with 2 show ?thesis by (simp add: dec_more [of n] dec_less)
  next
    case 3
    then have "10 \<le> n div 10" "n div 100 < 10" using assms by auto
    with 3 show ?thesis by (simp add: dec_more [of n] dec_more [of "n div 10"] dec_less hundreds)
  qed (simp add: dec_less)
qed

lemma dec_value: "100 * (n div 100) + 10 * (n div 10 mod 10) + n mod 10 = (n :: nat)"
proof -
  have "10 * (n div 100) + n div 10 mod 10 = n div 10" using mult_div_mod_eq [of 10 "n div 10"] by (simp only: hundreds)
  moreover have "10 * (n div 10) + n mod 10 = n" by simp
  ultimately show ?thesis by linarith
qed

text \<open>The three forms of a number of three digits that the pattern has.\<close>

lemma octet_hundreds:
  fixes n :: nat
  assumes "100 \<le> n" and "n < 256"
  shows "n div 100 = 1 \<or> (n div 100 = 2 \<and> n div 10 mod 10 < 5) \<or> (n div 100 = 2 \<and> n div 10 mod 10 = 5 \<and> n mod 10 \<le> 5)"
proof (cases "n < 200")
  case True
  with assms have "n div 100 = 1" by auto
  then show ?thesis ..
next
  case False
  with assms have h: "n div 100 = 2" by auto
  have d: "n div 10 mod 10 < 10" "n mod 10 < 10" by simp_all
  have "10 * (n div 10 mod 10) + n mod 10 < 56" using dec_value [of n] assms(2) h by linarith
  with d h show ?thesis by linarith
qed

lemma low_digits: "k < 5 \<Longrightarrow> 48 \<le> digit k \<and> digit k \<le> 52" "k \<le> 5 \<Longrightarrow> 48 \<le> digit k \<and> digit k \<le> 53"
proof -
  assume "k < 5"
  then have "k \<in> {0, 1, 2, 3, 4}" by auto
  then show "48 \<le> digit k \<and> digit k \<le> 52" by (elim insertE; simp add: digit_def)
next
  assume "k \<le> 5"
  then have "k \<in> {0, 1, 2, 3, 4, 5}" by auto
  then show "48 \<le> digit k \<and> digit k \<le> 53" by (elim insertE; simp add: digit_def)
qed

lemma digit_values: "digit (Suc 0) = 49" "digit 2 = 50" "digit 5 = 53"
  by (simp_all add: digit_def)

lemma octet_pattern: "n < 256 \<Longrightarrow> ipv4_octet (dec n)"
proof -
  assume n: "n < 256"
  consider "n < 10" | "10 \<le> n" "n < 100" | "100 \<le> n" by linarith
  then show ?thesis
  proof cases
    case 2
    then have "n div 10 < 10" by auto
    with 2 show ?thesis by (simp add: dec_octet [OF n] dec_digit)
  next
    case 3
    have d: "is_digit (digit (n div 10 mod 10))" "is_digit (digit (n mod 10))" by (simp_all add: dec_digit)
    from octet_hundreds [OF 3 n] have "ipv4_octet [digit (n div 100), digit (n div 10 mod 10), digit (n mod 10)]"
    proof (elim disjE conjE)
      assume "n div 100 = 1"
      with d show ?thesis by (simp add: digit_values)
    next
      assume "n div 100 = 2" "n div 10 mod 10 < 5"
      with d low_digits(1) show ?thesis by (simp add: digit_values)
    next
      assume "n div 100 = 2" "n div 10 mod 10 = 5" "n mod 10 \<le> 5"
      with low_digits(2) show ?thesis by (simp add: digit_values)
    qed
    with 3 show ?thesis by (simp add: dec_octet [OF n])
  qed (simp add: dec_octet [OF n] dec_digit)
qed

lemma octet_digits: "46 \<notin> set (dec n) \<and> read_dec (dec n) = n"
  using dec_digits [of n] by (auto simp: read_dec list_all_iff is_digit_def)

lemma octet: "ipv4_octet (dec (unat (b :: byte)))" "46 \<notin> set (dec (unat b))" "read_dec (dec (unat b)) = unat b"
  using octet_pattern octet_digits byte_less [of b] by simp_all

lemma two_digits: "length (two_digits b) = 2" "list_all is_hex (two_digits b)" "58 \<notin> set (two_digits b)"
proof -
  define n where "n = unat b"
  have d: "n div 16 < 16" "n mod 16 < 16" using byte_less [of b] by (auto simp: n_def)
  have "two_digits b = [digit (n div 16), digit (n mod 16)]"
    using d by (auto simp: two_digits_def padded_def n_def [symmetric] in_base.simps [of 16 n]
        in_base.simps [of 16 "n div 16"] digit_def)
  then show "length (two_digits b) = 2" "list_all is_hex (two_digits b)" "58 \<notin> set (two_digits b)"
    using hex_digit d by (auto simp: eq_commute [of 58])
qed

lemma split_quad: "a \<noteq> [] \<Longrightarrow> split_on 46 (dotted_quad a) = map (\<lambda>b. dec (unat b)) a"
  unfolding dotted_quad_def by (rule split_on_joined) (auto simp: octet(2))

lemma paired_groups: "list_all (\<lambda>g. hex_group g \<and> 58 \<notin> set g) (paired a)"
  by (induction a rule: paired.induct) (simp_all add: hex_group_def two_digits)

lemma length_paired: "length (paired a) = length a div 2"
  by (induction a rule: paired.induct) simp_all

text \<open>
  C30: What \<open>asString\<close> prints for an A record is an address that the server's own check of address
  literals takes, and its four numbers, read back, are the bytes of the record; what it prints for an
  AAAA record is such an address too, in the form with eight groups.
\<close>

theorem printed_addresses_are_literals:
  assumes "length a = 4" and "length b = 16"
  shows "\<exists>d e. RDataA_asString a = str ''<<RData A addr='' @ d \<and> is_ip_address d
      \<and> map read_dec (split_on 46 d) = map unat a
    \<and> RDataAAAA_asString b = str ''<<RData AAAA addr='' @ e \<and> is_ip_address e \<and> length (split_on 58 e) = 8"
proof -
  have a: "a \<noteq> []" "length (paired b) = 8" "paired b \<noteq> []" using assms length_paired [of b] by auto
  have d: "is_ipv4_address (dotted_quad a)" "map read_dec (split_on 46 (dotted_quad a)) = map unat a"
    using assms(1) by (simp_all add: is_ipv4_address_def split_quad [OF a(1)] octet list_all_iff comp_def)
  have e: "split_on 58 (joined 58 (paired b)) = paired b"
    by (rule split_on_joined [OF a(3)]) (use paired_groups [of b] in \<open>simp add: list_all_iff\<close>)
  have "is_ipv6_address (joined 58 (paired b))"
    using paired_groups [of b] a(2) by (simp add: is_ipv6_address_def e list_all_iff)
  with d e a(2) show ?thesis
    unfolding RDataA_asString_def RDataAAAA_asString_def is_ip_address_def by auto
qed

theorem printed_addresses_are_literals_witness:
  "\<exists>d e. RDataA_asString [127, 0, 0, 1] = str ''<<RData A addr='' @ d \<and> is_ip_address d
    \<and> RDataAAAA_asString (replicate 15 0 @ [1]) = str ''<<RData AAAA addr='' @ e \<and> is_ip_address e"
  using printed_addresses_are_literals [of "[127, 0, 0, 1]" "replicate 15 0 @ [1]"] by auto

text \<open>The counts of a message with sixteen questions are printed as if there were ten.\<close>

lemma Message_asString_count_base:
  "take 58 (Message_asString (Message\<lparr>mQueries := replicate 16 (QuerySection [97])\<rparr>))
     = str ''Header:'' @ [10] @ str ''ID: 0'' @ [10] @ str ''  fields: [ QR: 0 opCode: 0 ]'' @ [10] @ str ''  QDcount: 10'' @ [10]"
  by code_simp

end
