(* ===== verification/MemBuffer.thy ===== *)
theory MemBuffer
  imports Prelude
begin

section \<open>Memory buffers\<close>

text \<open>
  \<open>core/memory_buffer.hpp\<close> and \<open>core/buffer.cxx\<close>: a \<open>MemoryBuffer\<close> is a pointer to a
  block of bytes with the number of bytes in use and the capacity of the block; a \<open>Buffer\<close>
  allocates its block. A null pointer is \<open>None\<close>; the contents of a fresh block are
  indeterminate, so they are an argument of the definitions that allocate.
\<close>

record membuf =
  mb_ptr :: "mem option"
  mb_size :: nat
  mb_cap :: nat

text \<open>The default constructor, and the constructor over a block.\<close>

definition MemoryBuffer_null :: membuf where
  "MemoryBuffer_null = \<lparr>mb_ptr = None, mb_size = 0, mb_cap = 0\<rparr>"

definition MemoryBuffer :: "mem \<Rightarrow> nat \<Rightarrow> nat \<Rightarrow> membuf" where
  "MemoryBuffer m n cap = \<lparr>mb_ptr = Some m, mb_size = n, mb_cap = cap\<rparr>"

definition set_size :: "nat \<Rightarrow> membuf \<Rightarrow> membuf" where
  "set_size n b = b\<lparr>mb_size := n\<rparr>"

text \<open>
  \<open>copy_from\<close> clips the length to the capacity. Writing a positive number of bytes through
  the null pointer is undefined; the null buffer of the default constructor has capacity 0.
\<close>

definition copy_from :: "mem \<Rightarrow> nat \<Rightarrow> (membuf, nat) exec" where
  "copy_from src n = bnd (asks (\<lambda>b. b)) (\<lambda>b.
     let copy_size = (if mb_cap b > n then n else mb_cap b)
     in case mb_ptr b of
          None \<Rightarrow> if copy_size = 0 then seq (upd (\<lambda>b. b\<lparr>mb_size := 0\<rparr>)) (ret 0)
                  else throw (UndefinedBehaviour ''memcpy to null'')
        | Some m \<Rightarrow>
            seq (upd (\<lambda>b. b\<lparr>mb_ptr := Some (mem_write m 0 (mem_read src 0 copy_size)),
                            mb_size := copy_size\<rparr>))
                (ret copy_size))"

text \<open>The bytes in use, as the calls that send the buffer read them.\<close>

fun mb_data :: "membuf \<Rightarrow> bytes" where
  "mb_data b = (case mb_ptr b of None \<Rightarrow> [] | Some m \<Rightarrow> mem_read m 0 (mb_size b))"

text \<open>
  \<open>Buffer(capacity)\<close>: \<open>malloc\<close> may fail (\<open>ok = False\<close>), which throws; otherwise the
  first byte is cleared.
\<close>

definition Buffer_new :: "bool \<Rightarrow> mem \<Rightarrow> nat \<Rightarrow> fault + membuf" where
  "Buffer_new ok fresh cap =
     (if \<not> ok then Inl (MemoryAllocationException cap)
      else if cap = 0 then Inl (UndefinedBehaviour ''write to empty block'')
      else Inr \<lparr>mb_ptr = Some (fresh(0 := 0)), mb_size = 0, mb_cap = cap\<rparr>)"

subsection \<open>Well-formed buffers\<close>

definition mb_wf :: "membuf \<Rightarrow> bool" where
  "mb_wf b \<longleftrightarrow> mb_size b \<le> mb_cap b \<and> (mb_ptr b = None \<longrightarrow> mb_cap b = 0)"

lemma mb_wf_null [simp]: "mb_wf MemoryBuffer_null"
  by (simp add: mb_wf_def MemoryBuffer_null_def)

lemma mb_wf_new [simp]: "mb_wf (MemoryBuffer m 0 cap)"
  by (simp add: mb_wf_def MemoryBuffer_def)

lemma mb_wf_set_size_0: "mb_wf b \<Longrightarrow> mb_wf (set_size 0 b)"
  by (simp add: mb_wf_def set_size_def)

lemma Buffer_new_wf: "Buffer_new ok fresh cap = Inr b \<Longrightarrow> mb_wf b \<and> mb_cap b = cap \<and> mb_data b = []"
  by (auto simp: Buffer_new_def mb_wf_def split: if_splits)

text \<open>\<open>copy_from\<close> on a well-formed buffer returns and keeps it well-formed.\<close>

lemma copy_from_wf:
  assumes "mb_wf b"
  obtains b' where "copy_from src n b = (Inr (min n (mb_cap b)), b')"
    and "mb_wf b'" and "mb_cap b' = mb_cap b"
    and "mb_data b' = mem_read src 0 (min n (mb_cap b))"
proof (cases "mb_ptr b")
  case None
  with assms have "mb_cap b = 0" by (simp add: mb_wf_def)
  with None that show ?thesis
    by (simp add: copy_from_def bnd_def seq_def mb_wf_def)
next
  case (Some m)
  let ?k = "min n (mb_cap b)"
  let ?b = "b\<lparr>mb_ptr := Some (mem_write m 0 (mem_read src 0 ?k)), mb_size := ?k\<rparr>"
  have k: "(if mb_cap b > n then n else mb_cap b) = ?k" by simp
  have data: "mb_data ?b = mem_read src 0 ?k"
    using mem_read_write_same [of m 0 "mem_read src 0 ?k"] by simp
  have "copy_from src n b = (Inr ?k, ?b)"
    unfolding copy_from_def by (simp only: k Let_def) (simp add: bnd_def seq_def Some)
  moreover have "mb_wf ?b" using Some by (simp add: mb_wf_def)
  ultimately show ?thesis using that data by simp
qed

lemma mb_data_MemoryBuffer: "mb_data (MemoryBuffer m n cap) = mem_read m 0 n"
  by (simp add: MemoryBuffer_def)

lemma mb_data_Some: "mb_ptr b = Some m \<Longrightarrow> mb_data b = mem_read m 0 (mb_size b)"
  by simp

lemma length_mb_data: "mb_ptr b \<noteq> None \<Longrightarrow> length (mb_data b) = mb_size b"
  by auto

declare mb_data.simps [simp del]

end
