(* ===== verification/System.thy ===== *)
theory System
  imports NetAddr MemBuffer
begin

section \<open>The operating system\<close>

text \<open>
  The program's world: the kernel is a parameter, a function from everything that has been
  called and answered so far and the call now made to the answer, so that it can answer in any
  way; every call and its answer are recorded in \<open>trace\<close>, the latest first. A local variable
  that is not initialised holds what \<open>stack\<close> gives, which may differ at every point of a run.
  The documented behaviour of the calls is written into the definitions that make them: a
  count that is returned is at most the size that was passed, a failed call returns -1 and
  sets \<open>errno\<close>.
\<close>

subsection \<open>Calls and answers\<close>

datatype socktype = SOCK_STREAM | SOCK_DGRAM

text \<open>
  The pointers that the poller keeps with its events: the server, or a socket of a session.
  A session is named by the number of its creation, a DNS socket by its place in the session.
\<close>

datatype ptr = PNull | PServer | PClient nat | PRemote nat | PUdp nat | PDns nat nat

datatype epoll_op = EPOLL_CTL_ADD | EPOLL_CTL_MOD | EPOLL_CTL_DEL

datatype syscall =
    Sys_socket family socktype
  | Sys_close int
  | Sys_shutdown int
  | Sys_fionbio int bool
  | Sys_nodelay int bool
  | Sys_keepalive int bool
  | Sys_connect int sockaddr nat
  | Sys_bind int sockaddr nat
  | Sys_listen int int
  | Sys_accept int
  | Sys_recv int nat
  | Sys_recvfrom int nat
  | Sys_send int bytes
  | Sys_sendto int bytes sockaddr nat
  | Sys_getsockname int
  | Sys_getpeername int
  | Sys_epoll_create
  | Sys_epoll_ctl epoll_op int ptr u32
  | Sys_epoll_wait int

record sysret =
  sr_ok :: bool
  sr_val :: nat
  sr_errno :: int
  sr_data :: bytes
  sr_addr :: sockaddr
  sr_events :: "(u32 \<times> ptr) list"

type_synonym history = "(syscall \<times> sysret) list"

record world =
  os :: "history \<Rightarrow> syscall \<Rightarrow> sysret"
  stack :: "history \<Rightarrow> mem"
  inet_pton :: pton
  trace :: history
  errno :: int

type_synonym ('w, 'a) io = "('w world_scheme, 'a) exec"

definition syscall :: "syscall \<Rightarrow> ('w, sysret) io" where
  "syscall c s = (let r = os s (trace s) c in
     (Inr r, s\<lparr>trace := (c, r) # trace s, errno := (if sr_ok r then errno s else sr_errno r)\<rparr>))"

text \<open>The answer as the \<open>int\<close> that the call returns.\<close>

definition sys_int :: "syscall \<Rightarrow> ('w, int) io" where
  "sys_int c = bnd (syscall c) (\<lambda>r. ret (if sr_ok r then int (sr_val r) else -1))"

definition uninit :: "('w, mem) io" where
  "uninit = asks (\<lambda>s. stack s (trace s))"

text \<open>Linux values.\<close>

definition EINTR :: int where "EINTR = 4"
definition EWOULDBLOCK :: int where "EWOULDBLOCK = 11"
definition EAGAIN :: int where "EAGAIN = 11"
definition EINPROGRESS :: int where "EINPROGRESS = 115"

lemma syscall_exec [exec_simps]:
  "syscall c s = (Inr (os s (trace s) c), s\<lparr>trace := (c, os s (trace s) c) # trace s,
     errno := (if sr_ok (os s (trace s) c) then errno s else sr_errno (os s (trace s) c))\<rparr>)"
  by (simp add: syscall_def Let_def)

lemma wpre_syscall [wp]:
  "wpre (syscall c) Q E s = (let r = os s (trace s) c in
     Q r (s\<lparr>trace := (c, r) # trace s, errno := (if sr_ok r then errno s else sr_errno r)\<rparr>))"
  by (simp add: wpre_def syscall_def Let_def)

lemma wpre_sys_int [wp]:
  "wpre (sys_int c) Q E s = (let r = os s (trace s) c in
     Q (if sr_ok r then int (sr_val r) else -1)
       (s\<lparr>trace := (c, r) # trace s, errno := (if sr_ok r then errno s else sr_errno r)\<rparr>))"
  by (simp add: sys_int_def wp Let_def)

lemma wpre_uninit [wp]: "wpre uninit Q E s = Q (stack s (trace s)) s"
  by (simp add: uninit_def wp)

text \<open>The calls of a run, in order.\<close>

definition calls :: "'w world_scheme \<Rightarrow> syscall list" where
  "calls s = map fst (rev (trace s))"

subsection \<open>What calls leave unchanged\<close>

text \<open>A property of the state that calls preserve.\<close>

definition sys_closed :: "('w world_scheme \<Rightarrow> bool) \<Rightarrow> bool" where
  "sys_closed P \<longleftrightarrow> (\<forall>s c. P s \<longrightarrow> P (snd (syscall c s)))"

text \<open>It is enough that the property does not read what calls change.\<close>

lemma sys_closedI: "(\<And>s t e. P (s\<lparr>trace := t, errno := e\<rparr>) = P s) \<Longrightarrow> sys_closed P"
  by (simp add: sys_closed_def syscall_def Let_def)

lemma keeps_syscall [intro]: "sys_closed P \<Longrightarrow> keeps P (syscall c)"
  by (simp add: keeps_def sys_closed_def)

lemma keeps_sys_int [intro]: "sys_closed P \<Longrightarrow> keeps P (sys_int c)"
  by (auto simp: sys_int_def)

text \<open>
  What the poller has registered changes with two calls only; a property of the registrations is
  preserved by all others.
\<close>

fun sets_event :: "syscall \<Rightarrow> bool" where
  "sets_event (Sys_epoll_ctl opr _ _ _) = (opr \<noteq> EPOLL_CTL_DEL)"
| "sets_event _ = False"

definition plain_closed :: "('w world_scheme \<Rightarrow> bool) \<Rightarrow> bool" where
  "plain_closed P \<longleftrightarrow> (\<forall>s c. \<not> sets_event c \<longrightarrow> P s \<longrightarrow> P (snd (syscall c s)))"

lemma sys_closed_plain [intro]: "sys_closed P \<Longrightarrow> plain_closed P"
  by (simp add: sys_closed_def plain_closed_def)

lemma keeps_plain [intro]:
  assumes "plain_closed P" and "\<not> sets_event c"
  shows "keeps P (syscall c)" "keeps P (sys_int c)"
proof -
  show "keeps P (syscall c)" using assms by (simp add: keeps_def plain_closed_def)
  then show "keeps P (sys_int c)" by (auto simp: sys_int_def)
qed

lemma keeps_uninit [intro]: "keeps P uninit"
  by (auto simp: uninit_def)

subsection \<open>Concrete worlds\<close>

text \<open>Answers and a world to run the definitions in, for the concrete instances of properties.\<close>

definition answer :: "nat \<Rightarrow> sysret" where
  "answer n = \<lparr>sr_ok = True, sr_val = n, sr_errno = 0, sr_data = [], sr_addr = SockIn [0, 0, 0, 0] 0,
     sr_events = []\<rparr>"

definition refuse :: "int \<Rightarrow> sysret" where
  "refuse e = (answer 0)\<lparr>sr_ok := False, sr_errno := e\<rparr>"

definition deliver :: "bytes \<Rightarrow> sockaddr \<Rightarrow> sysret" where
  "deliver d a = (answer (length d))\<lparr>sr_data := d, sr_addr := a\<rparr>"

definition world_of :: "(history \<Rightarrow> syscall \<Rightarrow> sysret) \<Rightarrow> world" where
  "world_of f = \<lparr>os = f, stack = (\<lambda>_ _. 0), inet_pton = (\<lambda>_ _. None), trace = [], errno = 0\<rparr>"

lemma world_of_sel [simp]:
  "os (world_of f) = f" "trace (world_of f) = []" "stack (world_of f) = (\<lambda>_ _. 0)"
  by (simp_all add: world_of_def)

lemma answer_sel [simp]:
  "sr_ok (answer n)" "sr_val (answer n) = n" "\<not> sr_ok (refuse e)" "sr_errno (refuse e) = e"
  "sr_ok (deliver d a)" "sr_data (deliver d a) = d" "sr_addr (deliver d a) = a"
  by (simp_all add: answer_def refuse_def deliver_def)

end
