(* ===== verification/Socket.thy ===== *)
theory Socket
  imports System
begin

section \<open>Sockets\<close>

text \<open>
  \<open>core/socket.hpp\<close> and \<open>core/socket.cxx\<close>, the Linux branch. A \<open>Socket\<close> is its file
  descriptor, -1 when it owns none; a moved-from socket is such a socket, so moves do not
  appear in the model. The destructor closes the descriptor; the definitions that destroy a
  socket call \<open>Socket_close\<close>.
\<close>

text \<open>\<open>_make_address\<close>; when neither family parses, the IPv6 address is indeterminate.\<close>

definition make_address :: "pton \<Rightarrow> mem \<Rightarrow> bytes \<Rightarrow> u16 \<Rightarrow> sockaddr" where
  "make_address to_n junk ip port =
     (case to_n AF_INET ip of
        Some a \<Rightarrow> SockIn a (htons port)
      | None \<Rightarrow> (case to_n AF_INET6 ip of
          Some a \<Rightarrow> SockIn6 a (htons port)
        | None \<Rightarrow> SockIn6 (mem_read junk 8 16) (htons port)))"

definition Socket_open :: "family \<Rightarrow> socktype \<Rightarrow> ('w, int) io" where
  "Socket_open domain type = bnd (sys_int (Sys_socket domain type)) (\<lambda>fd.
     if fd = -1 then bnd (asks errno) (\<lambda>e. throw (SocketCreationException e)) else ret fd)"

definition open_tcp :: "('w, int) io" where "open_tcp = Socket_open AF_INET SOCK_STREAM"
definition open_tcp6 :: "('w, int) io" where "open_tcp6 = Socket_open AF_INET6 SOCK_STREAM"
definition open_udp :: "('w, int) io" where "open_udp = Socket_open AF_INET SOCK_DGRAM"
definition open_udp6 :: "('w, int) io" where "open_udp6 = Socket_open AF_INET6 SOCK_DGRAM"

text \<open>\<open>ioctl\<close> returns 0 for success, so the result is false when it worked.\<close>

definition set_blocking :: "int \<Rightarrow> bool \<Rightarrow> ('w, bool) io" where
  "set_blocking fd enabled = bnd (sys_int (Sys_fionbio fd (\<not> enabled))) (\<lambda>r. ret (r \<noteq> 0))"

definition set_nodelay :: "int \<Rightarrow> bool \<Rightarrow> ('w, bool) io" where
  "set_nodelay fd enabled = bnd (sys_int (Sys_nodelay fd enabled)) (\<lambda>r. ret (0 = r))"

definition set_keepalive :: "int \<Rightarrow> bool \<Rightarrow> ('w, bool) io" where
  "set_keepalive fd enabled = bnd (sys_int (Sys_keepalive fd enabled)) (\<lambda>r. ret (0 = r))"

definition Socket_connect_ip :: "int \<Rightarrow> bytes \<Rightarrow> u16 \<Rightarrow> ('w, unit) io" where
  "Socket_connect_ip fd ip port = bnd uninit (\<lambda>junk. bnd (asks inet_pton) (\<lambda>pton.
     let addr = make_address pton junk ip port in
     bnd (sys_int (Sys_connect fd addr (sa_len addr))) (\<lambda>r.
       if r \<noteq> 0 then bnd (asks errno) (\<lambda>e. throw (SocketConnectionException e)) else ret ())))"

definition Socket_connect :: "int \<Rightarrow> sockaddr \<Rightarrow> nat \<Rightarrow> ('w, int) io" where
  "Socket_connect fd addr len = sys_int (Sys_connect fd addr len)"

definition Socket_bind_ip :: "int \<Rightarrow> bytes \<Rightarrow> u16 \<Rightarrow> ('w, unit) io" where
  "Socket_bind_ip fd ip port = bnd uninit (\<lambda>junk. bnd (asks inet_pton) (\<lambda>pton.
     let addr = make_address pton junk ip port in
     bnd (sys_int (Sys_bind fd addr (sa_len addr))) (\<lambda>r.
       if r \<noteq> 0 then bnd (asks errno) (\<lambda>e. throw (SocketBindException e)) else ret ())))"

definition Socket_bind :: "int \<Rightarrow> sockaddr \<Rightarrow> nat \<Rightarrow> ('w, int) io" where
  "Socket_bind fd addr len = sys_int (Sys_bind fd addr len)"

definition Socket_listen :: "int \<Rightarrow> int \<Rightarrow> ('w, unit) io" where
  "Socket_listen fd count = bnd (sys_int (Sys_listen fd count)) (\<lambda>_. ret ())"

text \<open>No caller passes a \<open>SocketInfo\<close> to \<open>accept\<close>.\<close>

definition Socket_accept :: "int \<Rightarrow> ('w, int) io" where
  "Socket_accept fd = bnd (sys_int (Sys_accept fd)) (\<lambda>new_socket.
     if new_socket = -1 then bnd (asks errno) (\<lambda>e. throw (SocketAcceptException e))
     else ret new_socket)"

text \<open>The data a call delivers is cut to the size that was passed.\<close>

definition sys_recv :: "int \<Rightarrow> nat \<Rightarrow> mem \<Rightarrow> ('w, int \<times> mem) io" where
  "sys_recv fd sz m = bnd (syscall (Sys_recv fd sz)) (\<lambda>r.
     if sr_ok r then let d = take sz (sr_data r) in ret (int (length d), mem_write m 0 d)
     else ret (-1, m))"

text \<open>The address is that of the sender; with a failed call it is not written.\<close>

definition sys_recvfrom :: "int \<Rightarrow> nat \<Rightarrow> mem \<Rightarrow> ('w, int \<times> mem \<times> sockaddr option) io" where
  "sys_recvfrom fd sz m = bnd (syscall (Sys_recvfrom fd sz)) (\<lambda>r.
     if sr_ok r then let d = take sz (sr_data r) in
       ret (int (length d), mem_write m 0 d, Some (sr_addr r))
     else ret (-1, m, None))"

definition sys_send :: "int \<Rightarrow> bytes \<Rightarrow> ('w, int) io" where
  "sys_send fd d = bnd (syscall (Sys_send fd d)) (\<lambda>r.
     ret (if sr_ok r then int (min (sr_val r) (length d)) else -1))"

definition sys_sendto :: "int \<Rightarrow> bytes \<Rightarrow> sockaddr \<Rightarrow> nat \<Rightarrow> ('w, int) io" where
  "sys_sendto fd d addr len = bnd (syscall (Sys_sendto fd d addr len)) (\<lambda>r.
     ret (if sr_ok r then int (min (sr_val r) (length d)) else -1))"

text \<open>The overloads over a \<open>MemoryBuffer\<close>, which throw; \<open>recv_from\<close> passes the buffer's size.\<close>

definition Socket_recv_buffer :: "int \<Rightarrow> membuf \<Rightarrow> ('w, int \<times> membuf) io" where
  "Socket_recv_buffer fd b = (case mb_ptr b of
     None \<Rightarrow> throw (UndefinedBehaviour ''recv to null'')
   | Some m \<Rightarrow> bnd (sys_recv fd (mb_cap b) m) (\<lambda>(n, m).
       if n = -1 then bnd (asks errno) (\<lambda>e. throw (IOException e))
       else ret (n, set_size (nat n) (b\<lparr>mb_ptr := Some m\<rparr>))))"

definition Socket_recv_from_buffer ::
  "int \<Rightarrow> membuf \<Rightarrow> sockinfo \<Rightarrow> ('w, int \<times> membuf \<times> sockinfo) io" where
  "Socket_recv_from_buffer fd b info = (case mb_ptr b of
     None \<Rightarrow> throw (UndefinedBehaviour ''recv to null'')
   | Some m \<Rightarrow> bnd (sys_recvfrom fd (mb_size b) m) (\<lambda>(n, m, addr).
       if n = -1 then bnd (asks errno) (\<lambda>e. throw (IOException e))
       else ret (n, set_size (nat n) (b\<lparr>mb_ptr := Some m\<rparr>),
              case addr of None \<Rightarrow> info | Some a \<Rightarrow> SocketInfo_from a info)))"

definition Socket_send_buffer :: "int \<Rightarrow> membuf \<Rightarrow> ('w, int) io" where
  "Socket_send_buffer fd b = bnd (sys_send fd (mb_data b)) (\<lambda>n.
     if n = -1 then bnd (asks errno) (\<lambda>e. throw (IOException e)) else ret n)"

text \<open>Here the length passed is that of the whole storage.\<close>

definition Socket_send_to_buffer :: "int \<Rightarrow> membuf \<Rightarrow> sockinfo \<Rightarrow> ('w, int \<times> membuf) io" where
  "Socket_send_to_buffer fd b info =
     bnd (sys_sendto fd (mb_data b) (si_addr info) storage_size) (\<lambda>n.
     if n = -1 then bnd (asks errno) (\<lambda>e. throw (IOException e))
     else ret (n, set_size (nat n) b))"

definition Socket_close :: "int \<Rightarrow> ('w, int) io" where
  "Socket_close fd = (if fd \<noteq> -1 then bnd (sys_int (Sys_close fd)) (\<lambda>_. ret (-1)) else ret (-1))"

definition Socket_shutdown :: "int \<Rightarrow> ('w, int) io" where
  "Socket_shutdown fd = sys_int (Sys_shutdown fd)"

definition get_bound_address :: "int \<Rightarrow> ('w, sockinfo) io" where
  "get_bound_address fd = bnd uninit (\<lambda>junk. bnd (syscall (Sys_getsockname fd)) (\<lambda>r.
     if \<not> sr_ok r then throw (RuntimeError ''getsockname'')
     else ret (SocketInfo_from (sr_addr r) (SocketInfo_fresh junk))))"

definition get_peer_address :: "int \<Rightarrow> ('w, sockinfo) io" where
  "get_peer_address fd = bnd uninit (\<lambda>junk. bnd (syscall (Sys_getpeername fd)) (\<lambda>r.
     if \<not> sr_ok r then throw (RuntimeError ''getpeername'')
     else ret (SocketInfo_from (sr_addr r) (SocketInfo_fresh junk))))"

subsection \<open>SessionSocket\<close>

text \<open>
  \<open>server/session_socket.hpp\<close>: the operations every socket of a session inherits. They do not
  throw; \<open>recv\<close> leaves an empty buffer when the call failed.
\<close>

definition SessionSocket_recv :: "int \<Rightarrow> membuf \<Rightarrow> ('w, int \<times> membuf) io" where
  "SessionSocket_recv fd b = (case mb_ptr b of
     None \<Rightarrow> throw (UndefinedBehaviour ''recv to null'')
   | Some m \<Rightarrow> bnd (sys_recv fd (mb_cap b) m) (\<lambda>(n, m).
       ret (n, set_size (if n > 0 then nat n else 0) (b\<lparr>mb_ptr := Some m\<rparr>))))"

definition SessionSocket_recv_from :: "int \<Rightarrow> membuf \<Rightarrow> ('w, int \<times> membuf \<times> sockaddr option) io" where
  "SessionSocket_recv_from fd b = (case mb_ptr b of
     None \<Rightarrow> throw (UndefinedBehaviour ''recv to null'')
   | Some m \<Rightarrow> bnd (sys_recvfrom fd (mb_cap b) m) (\<lambda>(n, m, addr).
       ret (n, set_size (if n > 0 then nat n else 0) (b\<lparr>mb_ptr := Some m\<rparr>), addr)))"

definition SessionSocket_send :: "int \<Rightarrow> membuf \<Rightarrow> ('w, int) io" where
  "SessionSocket_send fd b = sys_send fd (mb_data b)"

definition SessionSocket_send_to :: "int \<Rightarrow> membuf \<Rightarrow> sockaddr \<Rightarrow> nat \<Rightarrow> ('w, int) io" where
  "SessionSocket_send_to fd b addr len = sys_sendto fd (mb_data b) addr len"

subsection \<open>Weakest preconditions\<close>

abbreviation after :: "syscall \<Rightarrow> 'w world_scheme \<Rightarrow> 'w world_scheme" where
  "after c s \<equiv> s\<lparr>trace := (c, os s (trace s) c) # trace s,
     errno := (if sr_ok (os s (trace s) c) then errno s else sr_errno (os s (trace s) c))\<rparr>"

lemma wpre_sys_send [wp]:
  "wpre (sys_send fd d) Q E s =
     Q (if sr_ok (os s (trace s) (Sys_send fd d))
        then int (min (sr_val (os s (trace s) (Sys_send fd d))) (length d)) else -1)
       (after (Sys_send fd d) s)"
  by (simp add: sys_send_def wp Let_def)

lemma wpre_sys_sendto [wp]:
  "wpre (sys_sendto fd d a n) Q E s =
     Q (if sr_ok (os s (trace s) (Sys_sendto fd d a n))
        then int (min (sr_val (os s (trace s) (Sys_sendto fd d a n))) (length d)) else -1)
       (after (Sys_sendto fd d a n) s)"
  by (simp add: sys_sendto_def wp Let_def)

text \<open>What the operations leave unchanged.\<close>

lemmas socket_defs = Socket_open_def open_tcp_def open_tcp6_def open_udp_def open_udp6_def
  set_blocking_def set_nodelay_def set_keepalive_def Socket_connect_ip_def Socket_connect_def
  Socket_bind_ip_def Socket_bind_def Socket_listen_def Socket_accept_def sys_recv_def
  sys_recvfrom_def sys_send_def sys_sendto_def Socket_close_def Socket_shutdown_def
  get_bound_address_def get_peer_address_def SessionSocket_send_def SessionSocket_send_to_def

lemma keeps_socket [intro]:
  assumes P: "plain_closed P"
  shows "keeps P (Socket_open d t)" "keeps P open_tcp" "keeps P open_tcp6" "keeps P open_udp"
    "keeps P open_udp6" "keeps P (set_blocking fd e)" "keeps P (set_nodelay fd e)"
    "keeps P (set_keepalive fd e)" "keeps P (Socket_connect_ip fd ip port)"
    "keeps P (Socket_connect fd a n)" "keeps P (Socket_bind_ip fd ip port)"
    "keeps P (Socket_bind fd a n)" "keeps P (Socket_listen fd k)" "keeps P (Socket_accept fd)"
    "keeps P (sys_recv fd n m)" "keeps P (sys_recvfrom fd n m)" "keeps P (sys_send fd bs)"
    "keeps P (sys_sendto fd bs a n)" "keeps P (Socket_close fd)" "keeps P (Socket_shutdown fd)"
    "keeps P (get_bound_address fd)" "keeps P (get_peer_address fd)"
    "keeps P (SessionSocket_send fd b)" "keeps P (SessionSocket_send_to fd b a n)"
  unfolding socket_defs Let_def using P by (auto intro!: keeps_bnd keeps_if)

lemma keeps_session_recv [intro]:
  assumes P: "plain_closed P"
  shows "keeps P (SessionSocket_recv fd b)" "keeps P (SessionSocket_recv_from fd b)"
  unfolding SessionSocket_recv_def SessionSocket_recv_from_def using P
  by (auto split: option.splits intro!: keeps_bnd)

end
