(* ===== verification/ClientSocket.thy ===== *)
theory ClientSocket
  imports Socket S5
begin

section \<open>The client's socket\<close>

text \<open>
  \<open>server/client_socket.hpp\<close> and \<open>server/client_socket.cxx\<close>: the three answers the server
  gives a client. The lemmas show the bytes each of them sends.
\<close>

definition ClientSocket_new :: "int \<Rightarrow> ('w, int) io" where
  "ClientSocket_new fd = bnd (set_blocking fd False) (\<lambda>_. ret fd)"

definition send_auth :: "int \<Rightarrow> auth_method \<Rightarrow> ('w, bool) io" where
  "send_auth fd method =
     bnd (sys_send fd [0x05, auth_method_byte method]) (\<lambda>r. ret (r \<noteq> -1))"

definition send_auth_status :: "int \<Rightarrow> byte \<Rightarrow> ('w, bool) io" where
  "send_auth_status fd status = bnd (sys_send fd [0x05, status]) (\<lambda>r. ret (r \<noteq> -1))"

text \<open>
  The reply is built in a local array; its third byte is never written. The result of \<open>send\<close>
  is converted to \<open>bool\<close>, so only 0 counts as failure. \<open>bind_addr\<close> is the block the pointer
  leads to.
\<close>

definition reply_block :: "reply \<Rightarrow> addr_type \<Rightarrow> mem \<Rightarrow> u16 \<Rightarrow> mem \<Rightarrow> mem" where
  "reply_block r addr_type bind_addr bind_port data =
     (let m = S5ReplyMessage_set_reply r 0 (S5R_set_version 5 0 data);
          m = S5Address_set_type addr_type (S5R_get_address 0) m;
          m = S5Address_set_address bind_addr (S5R_get_address 0) m
      in S5Address_set_port bind_port False (S5R_get_address 0) m)"

definition send_reply :: "int \<Rightarrow> reply \<Rightarrow> addr_type \<Rightarrow> mem \<Rightarrow> u16 \<Rightarrow> ('w, bool) io" where
  "send_reply fd r addr_type bind_addr bind_port = bnd uninit (\<lambda>data.
     let m = reply_block r addr_type bind_addr bind_port data in
     bnd (sys_send fd (mem_read m 0 (S5R_get_size m 0))) (\<lambda>n. ret (n \<noteq> 0)))"

lemma keeps_client_socket [intro]:
  assumes "plain_closed P"
  shows "keeps P (ClientSocket_new fd)" "keeps P (send_auth fd m)" "keeps P (send_auth_status fd st)"
    "keeps P (send_reply fd r t a p)"
  using assms by (auto simp: ClientSocket_new_def send_auth_def send_auth_status_def send_reply_def Let_def)

text \<open>The bytes of a reply, for an address the message classes know.\<close>

lemma reply_block_wire:
  assumes "ep_ok e" and "ep_src src e"
  shows "mem_read (reply_block r (ep_type e) src (ep_port e) data) 0
           (S5R_get_size (reply_block r (ep_type e) src (ep_port e) data) 0)
       = [5, reply_byte r, data 2] @ ep_wire e"
proof -
  let ?h = "[5, reply_byte r, data 2]"
  let ?m = "S5ReplyMessage_set_reply r 0 (S5R_set_version 5 0 data)"
  have h: "mem_read ?m 0 (length ?h) = ?h"
    by (simp add: mem_read_def S5ReplyMessage_set_reply_def S5R_set_cmd_or_rep_def S5R_set_version_def
        upt_conv_Cons numeral_2_eq_2 numeral_3_eq_3)
  have ok: "view_ok (e, src, False)" using assms by simp
  have b: "reply_block r (ep_type e) src (ep_port e) data = put_view (e, src, False) (0 + length ?h) ?m"
    by (simp add: reply_block_def Let_def S5Address_put_def S5R_get_address_def numeral_3_eq_3)
  have sz: "S5R_get_size (put_view (e, src, False) (0 + length ?h) ?m) 0 = length ?h + length (ep_wire e)"
    using s5.message_size [OF ok, of "0 + length ?h" ?m] by (simp add: S5R_get_size_def S5R_get_address_def numeral_3_eq_3)
  show ?thesis
    unfolding b sz using s5.message_bytes [OF ok h] by simp
qed

text \<open>A type the classes do not know: the reply ends behind its third byte.\<close>

lemma reply_block_other:
  assumes "t \<notin> {AT_IPv4, AT_IPv6, AT_DomainName}" and "addr_type_of (addr_type_byte t) = t"
  shows "mem_read (reply_block r t src p data) 0 (S5R_get_size (reply_block r t src p data) 0)
       = [5, reply_byte r, data 2]"
proof -
  let ?m = "S5ReplyMessage_set_reply r 0 (S5R_set_version 5 0 data)"
  note put = S5Address_put_other(1) [OF assms, of src p False 3 ?m]
  have b: "reply_block r t src p data = ?m(3 := addr_type_byte t)"
    using put by (simp add: reply_block_def Let_def S5Address_put_def S5R_get_address_def)
  have "S5R_get_size (reply_block r t src p data) 0 = 3"
    using S5Address_put_other(2) [OF assms] by (simp add: b S5R_get_size_def S5R_get_address_def)
  then show ?thesis
    by (simp add: b mem_read_def S5ReplyMessage_set_reply_def S5R_set_cmd_or_rep_def S5R_set_version_def
        upt_conv_Cons numeral_2_eq_2 numeral_3_eq_3)
qed

text \<open>
  C28: \<open>send_reply\<close> makes one call, which sends the reply of RFC 1928: version 5, the reply
  code, a reserved byte (indeterminate, for the code never sets it), and the address and port
  in wire format; it reports success unless the call returned 0.
\<close>

theorem send_reply_sends_wire_format:
  assumes "ep_ok e" and "ep_src src e"
  shows "send_reply fd r (ep_type e) src (ep_port e) s
       = bnd (sys_send fd ([5, reply_byte r, stack s (trace s) 2] @ ep_wire e)) (\<lambda>n. ret (n \<noteq> 0)) s"
  using reply_block_wire [OF assms] by (simp add: send_reply_def bnd_def uninit_def Let_def)

theorem send_reply_sends_wire_format_witness:
  "trace (snd (send_reply 5 Rep_Success AT_IPv4 (mem_write (\<lambda>_. 0) 0 [10, 0, 0, 1]) 80
     (world_of (\<lambda>_ _. answer 10))))
   = [(Sys_send 5 [5, 0, 0, 1, 10, 0, 0, 1, 0, 80], answer 10)]"
  using send_reply_sends_wire_format [of "EpIPv4 [10, 0, 0, 1] 80" "mem_write (\<lambda>_. 0) 0 [10, 0, 0, 1]"
      5 Rep_Success "world_of (\<lambda>_ _. answer 10)"]
  by (simp add: ep_src_def mem_read_write_prefix ep_wire_def hi8_def lo8_def bnd_def sys_send_def
      syscall_def Let_def)

end
