(* ===== verification/UdpSocket.thy ===== *)
theory UdpSocket
  imports Socket S5
begin

section \<open>The client's side of a UDP association\<close>

text \<open>
  \<open>server/udp_socket.hpp\<close> and \<open>server/udp_socket.cxx\<close>: \<open>recv_from\<close> takes a datagram of the
  client, checks the sender, strips the header of RFC 1928 and remembers which port of the
  client talks to which remote port; \<open>send_to\<close> puts the header before a datagram for the
  client. Ports in the map are in network order.
\<close>

definition BUFFER_SIZE :: nat where "BUFFER_SIZE = 8192"

record udpsock =
  us_fd :: int
  us_port_maps :: "u16 \<Rightarrow> u16 option"
  us_client :: sockinfo

definition UDPSocket_new :: "int \<Rightarrow> sockinfo \<Rightarrow> ('w, udpsock) io" where
  "UDPSocket_new fd client_info = bnd (set_blocking fd False) (\<lambda>_.
     ret \<lparr>us_fd = fd, us_port_maps = Map.empty, us_client = client_info\<rparr>)"

text \<open>
  \<open>memcpy\<close> of the first \<open>n\<close> bytes of a socket address over another one in its storage. An
  IPv6 address cut at 16 bytes keeps its family, its port and eight bytes; behind them the
  storage holds what it held.
\<close>

definition copy_storage :: "mem \<Rightarrow> sockaddr \<Rightarrow> nat \<Rightarrow> sockaddr" where
  "copy_storage junk remote n =
     (if n \<ge> sa_len remote then remote
      else SockIn6 (take 8 (sa_ip remote) @ mem_read junk 16 8) (sa_port remote))"

text \<open>
  The datagram is moved down over its header. The \<open>memcpy\<close> overlaps for every payload longer
  than the header; the model copies the bytes, as the implementations do for a copy downwards.
  A header longer than the datagram makes the length negative, which is a huge \<open>size_t\<close>.
\<close>

definition UDPSocket_recv_from ::
  "udpsock \<Rightarrow> membuf \<Rightarrow> ('w, int \<times> membuf \<times> (sockaddr \<times> nat) option \<times> udpsock) io" where
  "UDPSocket_recv_from us b = bnd uninit (\<lambda>junk. bnd (SessionSocket_recv_from (us_fd us) b) (\<lambda>(res, b, from).
     let addr = map_option (\<lambda>a. (a, sa_len a)) from in
     if res \<le> 10 then ret (res, b, addr, us)
     else case (from, mb_ptr b) of
       (Some a, Some m) \<Rightarrow>
         let info = SocketInfo_from a (SocketInfo_fresh junk);
             is_client = SocketInfo_eq info ((us_client us)\<lparr>si_port := si_port info\<rparr>) in
         if \<not> is_client then ret (0, b, addr, us)
         else let remote_address = S5R_get_address 0;
                  t = S5Address_get_type m remote_address;
                  port = htons (S5Address_get_port m remote_address);
                  ip = S5Address_get_address remote_address in
         if t \<noteq> AT_IPv4 \<and> t \<noteq> AT_IPv6 then ret (0, b, addr, us)
         else let remote_addr = (if t = AT_IPv4 then SockIn (mem_read m ip 4) port
                                 else SockIn6 (mem_read m ip 16) port);
                  new_len = (if sa_len a < storage_size then sa_len a else storage_size);
                  us' = us\<lparr>us_port_maps := (us_port_maps us)(port \<mapsto> si_port info)\<rparr>;
                  header_size = S5R_get_size m 0 in
         if header_size > mb_size b then throw (UndefinedBehaviour ''memcpy of negative size'')
         else let n = mb_size b - header_size;
                  b' = set_size n (b\<lparr>mb_ptr := Some (mem_write m 0 (mem_read m header_size n))\<rparr>) in
         ret (int n, b', Some (copy_storage junk remote_addr new_len, new_len), us')
     | _ \<Rightarrow> throw (UndefinedBehaviour ''address of failed call'')))"

text \<open>The block a list of bytes stands in.\<close>

definition bytes_mem :: "bytes \<Rightarrow> mem" where
  "bytes_mem bs = mem_write (\<lambda>_. 0) 0 bs"

definition UDPSocket_send_to :: "udpsock \<Rightarrow> membuf \<Rightarrow> sockaddr \<Rightarrow> ('w, int) io" where
  "UDPSocket_send_to us b addr = bnd uninit (\<lambda>junk.
     let remote_info = SocketInfo_from addr (SocketInfo_fresh junk) in
     case us_port_maps us (si_port remote_info) of
       None \<Rightarrow> ret 0
     | Some port \<Rightarrow>
         let header = mem_write junk 0 [0, 0, 0];
             address = S5R_get_address 0;
             header = S5Address_set_type (if si_version remote_info = IPv4 then AT_IPv4 else AT_IPv6)
                        address header;
             header = S5Address_set_address (bytes_mem (si_ip remote_info)) address header;
             header = S5Address_set_port (si_port remote_info) True address header;
             h = S5R_get_size header 0;
             header = mem_write header h (mb_data b);
             send_buffer = MemoryBuffer header (h + mb_size b) (BUFFER_SIZE + 22);
             send_addr = si_addr ((us_client us)\<lparr>si_port := port\<rparr>) in
         bnd (SessionSocket_send_to (us_fd us) send_buffer send_addr (sa_len send_addr)) (\<lambda>res.
           if res \<le> 0 then ret res else ret (int (mb_size b))))"

lemma keeps_udp_socket [intro]:
  assumes "plain_closed P"
  shows "keeps P (UDPSocket_new fd i)" "keeps P (UDPSocket_recv_from us b)" "keeps P (UDPSocket_send_to us b a)"
  using assms
  by (auto simp: UDPSocket_new_def UDPSocket_recv_from_def UDPSocket_send_to_def Let_def
      split: option.splits intro!: keeps_bnd keeps_if)

subsection \<open>Encapsulation\<close>

text \<open>The endpoint of the wire format that stands for a socket address.\<close>

fun addr_endpoint :: "sockaddr \<Rightarrow> endpoint" where
  "addr_endpoint (SockIn ip port) = EpIPv4 ip (ntohs port)"
| "addr_endpoint (SockIn6 ip port) = EpIPv6 ip (ntohs port)"

lemma addr_endpoint_ok: "sa_ok a \<Longrightarrow> ep_ok (addr_endpoint a)"
  by (cases a) simp_all

lemma ep_src_bytes:
  assumes "sa_ok a" and "si_ok info"
  shows "ep_src (bytes_mem (si_ip (SocketInfo_from a info))) (addr_endpoint a)"
  using assms
  by (cases a) (simp_all add: ep_src_def bytes_mem_def mem_read_write_prefix si_ok_def overwrite_def)

text \<open>The header and the payload of the datagram sent to the client.\<close>

definition udp_datagram :: "sockaddr \<Rightarrow> bytes \<Rightarrow> bytes" where
  "udp_datagram a d = [0, 0, 0] @ ep_wire (addr_endpoint a) @ d"

lemma UDPSocket_send_to_mapped:
  assumes "sa_ok a" and "us_port_maps us (sa_port a) = Some port" and "mb_ptr b \<noteq> None"
  shows "UDPSocket_send_to us b a s =
     bnd (sys_sendto (us_fd us) (udp_datagram a (mb_data b)) (si_addr ((us_client us)\<lparr>si_port := port\<rparr>))
            (sa_len (si_addr ((us_client us)\<lparr>si_port := port\<rparr>))))
       (\<lambda>res. ret (if res \<le> 0 then res else int (mb_size b))) s"
proof -
  let ?junk = "stack s (trace s)"
  let ?info = "SocketInfo_from a (SocketInfo_fresh ?junk)"
  let ?h = "[0, 0, 0] :: bytes" and ?m = "mem_write ?junk 0 [0, 0, 0]"
  let ?e = "addr_endpoint a" and ?src = "bytes_mem (si_ip (SocketInfo_from a (SocketInfo_fresh ?junk)))"
  have port: "si_port ?info = sa_port a" by (cases a) simp_all
  have ok: "view_ok (?e, ?src, True)"
    using addr_endpoint_ok ep_src_bytes assms(1) by simp
  have t: "(if si_version ?info = IPv4 then AT_IPv4 else AT_IPv6) = ep_type ?e"
    by (cases a) simp_all
  have p: "si_port ?info = htons (ep_port ?e)" by (cases a) simp_all
  define hd where "hd = put_view (?e, ?src, True) (0 + length ?h) ?m"
  have hd: "S5Address_set_port (si_port ?info) True 3 (S5Address_set_address ?src 3
      (S5Address_set_type (if si_version ?info = IPv4 then AT_IPv4 else AT_IPv6) 3 ?m)) = hd"
    by (simp only: t p hd_def) (simp add: S5Address_put_def numeral_3_eq_3)
  have h: "mem_read ?m 0 (length ?h) = ?h" by (simp add: mem_read_write_prefix)
  have sz: "S5R_get_size hd 0 = length ?h + length (ep_wire ?e)"
    unfolding hd_def using s5.message_size [OF ok, of "0 + length ?h" ?m]
    by (simp add: S5R_get_size_def S5R_get_address_def numeral_3_eq_3)
  have "mem_read hd 0 (S5R_get_size hd 0) = ?h @ ep_wire ?e"
    unfolding sz using s5.message_bytes [OF ok h] by (simp add: hd_def)
  then have "mem_read (mem_write hd (S5R_get_size hd 0) (mb_data b)) 0 (S5R_get_size hd 0 + mb_size b)
      = udp_datagram a (mb_data b)"
    using mem_read_append [of _ 0 "S5R_get_size hd 0" "mb_size b"] length_mb_data [OF assms(3)]
    by (simp add: mem_read_write_other mem_read_write_prefix udp_datagram_def)
  then have d: "mb_data (MemoryBuffer (mem_write hd (S5R_get_size hd 0) (mb_data b))
      (S5R_get_size hd 0 + mb_size b) (BUFFER_SIZE + 22)) = udp_datagram a (mb_data b)"
    by (simp add: mb_data_MemoryBuffer)
  show ?thesis
    unfolding UDPSocket_send_to_def S5R_get_address_def
    using assms(2) port hd d
    by (simp add: bnd_def uninit_def Let_def SessionSocket_send_to_def split: prod.splits sum.splits)
qed

subsection \<open>Decapsulation\<close>

lemma recvfrom_exec:
  assumes "sr_ok (os s (trace s) (Sys_recvfrom fd (mb_cap b)))"
    and "d = sr_data (os s (trace s) (Sys_recvfrom fd (mb_cap b)))" and "length d \<le> mb_cap b" and "d \<noteq> []"
    and "mb_ptr b = Some m"
  shows "SessionSocket_recv_from fd b s =
    (Inr (int (length d), set_size (length d) (b\<lparr>mb_ptr := Some (mem_write m 0 d)\<rparr>),
          Some (sr_addr (os s (trace s) (Sys_recvfrom fd (mb_cap b))))),
     after (Sys_recvfrom fd (mb_cap b)) s)"
  using assms by (simp add: SessionSocket_recv_from_def sys_recvfrom_def bnd_def syscall_def Let_def)

text \<open>A datagram of the client: it is accepted, and its header is taken off.\<close>

lemma UDPSocket_recv_from_client:
  fixes us :: udpsock and b :: membuf
  defines "r s \<equiv> os s (trace s) (Sys_recvfrom (us_fd us) (mb_cap b))"
  assumes ok: "sr_ok (r s)" and d: "sr_data (r s) = h @ ep_wire (addr_endpoint dest) @ payload"
    and h: "length h = 3" and cap: "length (sr_data (r s)) \<le> mb_cap b" and payload: "payload \<noteq> []"
    and dest: "sa_ok dest" and snd_ok: "sa_ok (sr_addr (r s))"
    and client: "si_addr ((us_client us)\<lparr>si_port := sa_port (sr_addr (r s))\<rparr>) = sr_addr (r s)"
    and fits: "sa_len dest \<le> sa_len (sr_addr (r s))" and b: "mb_ptr b = Some m"
  obtains b' where "UDPSocket_recv_from us b s =
      (Inr (int (length payload), b', Some (dest, sa_len (sr_addr (r s))),
            us\<lparr>us_port_maps := (us_port_maps us)(sa_port dest \<mapsto> sa_port (sr_addr (r s)))\<rparr>),
       after (Sys_recvfrom (us_fd us) (mb_cap b)) s)"
    and "mb_data b' = payload" and "mb_cap b' = mb_cap b"
proof -
  let ?d = "sr_data (r s)" and ?a = "sr_addr (r s)" and ?e = "addr_endpoint dest"
  let ?m = "mem_write m 0 ?d" and ?junk = "stack s (trace s)"
  let ?info = "SocketInfo_from ?a (SocketInfo_fresh ?junk)"
  have e: "ep_ok ?e" using dest by (rule addr_endpoint_ok)
  have len: "length ?d = 3 + length (ep_wire ?e) + length payload" using d h by simp
  have e10: "10 \<le> 3 + length (ep_wire ?e)" using dest by (cases dest) (simp_all add: length_ep_wire)
  have wire: "mem_read ?m 3 (length (ep_wire ?e)) = ep_wire ?e"
  proof -
    have "mem_read ?m 0 (3 + length (ep_wire ?e)) = take (3 + length (ep_wire ?e)) ?d"
      by (rule mem_read_write_prefix) (simp add: len)
    also have "\<dots> = h @ ep_wire ?e" using d h by simp
    finally show ?thesis using h by (simp add: mem_read_append)
  qed
  note t = get_type_wire [OF wire] and sz = get_size_wire [OF wire e]
    and ad = get_address_wire [OF wire] and po = get_port_wire [OF wire e]
  have hsz: "S5R_get_size ?m 0 = 3 + length (ep_wire ?e)"
    using sz by (simp add: S5R_get_size_def S5R_get_address_def)
  have port: "htons (S5Address_get_port ?m 3) = sa_port dest" using po by (cases dest) simp_all
  have ptype: "ep_type ?e = (if sa_family dest = AF_INET then AT_IPv4 else AT_IPv6)"
    by (cases dest) simp_all
  have ip: "si_port ?info = sa_port ?a" by (cases ?a) simp_all
  have eq: "SocketInfo_eq ?info ((us_client us)\<lparr>si_port := si_port ?info\<rparr>)"
    using client snd_ok ip by (simp add: si_addr_eq_iff)
  have new_len: "(if sa_len ?a < storage_size then sa_len ?a else storage_size) = sa_len ?a"
    by (cases ?a) (simp_all add: storage_size_def)
  have payload_read: "mem_read ?m (3 + length (ep_wire ?e)) (length payload) = payload"
  proof -
    have "mem_read ?m 0 (3 + length (ep_wire ?e) + length payload) = ?d"
      using mem_read_write_prefix [of "length ?d" ?d m 0] len by simp
    then have "mem_read ?m 0 (3 + length (ep_wire ?e)) @ mem_read ?m (3 + length (ep_wire ?e)) (length payload)
        = (h @ ep_wire ?e) @ payload"
      using d by (simp add: mem_read_append)
    from arg_cong [OF this, of "drop (3 + length (ep_wire ?e))"] h show ?thesis by simp
  qed
  define b1 where "b1 = set_size (length ?d) (b\<lparr>mb_ptr := Some ?m\<rparr>)"
  define b' where "b' = set_size (length payload) (b1\<lparr>mb_ptr := Some (mem_write ?m 0 payload)\<rparr>)"
  have recv: "SessionSocket_recv_from (us_fd us) b s = (Inr (int (length ?d), b1, Some ?a),
      after (Sys_recvfrom (us_fd us) (mb_cap b)) s)"
    unfolding b1_def r_def by (rule recvfrom_exec) (use ok cap b payload d h r_def in auto)
  have n: "length ?d - (3 + length (ep_wire ?e)) = length payload" using len by simp
  have "UDPSocket_recv_from us b s =
      (Inr (int (length payload), b', Some (dest, sa_len ?a),
            us\<lparr>us_port_maps := (us_port_maps us)(sa_port dest \<mapsto> sa_port ?a)\<rparr>),
       after (Sys_recvfrom (us_fd us) (mb_cap b)) s)"
  proof -
    have "0 < length payload" using payload by simp
    then have big: "\<not> int (length ?d) \<le> 10" using len e10 by linarith
    have ty: "\<not> (S5Address_get_type ?m 3 \<noteq> AT_IPv4 \<and> S5Address_get_type ?m 3 \<noteq> AT_IPv6)"
      using t ptype by simp
    have b1: "mb_ptr b1 = Some ?m" "mb_size b1 = length ?d" by (simp_all add: b1_def set_size_def)
    have fit: "copy_storage ?junk dest (sa_len ?a) = dest" using fits by (simp add: copy_storage_def)
    have le: "\<not> S5R_get_size ?m 0 > length ?d" using hsz len by simp
    show ?thesis
      unfolding UDPSocket_recv_from_def S5R_get_address_def
      using big b1 recv eq new_len fit le port ip hsz n payload_read
        t ad dest by (cases dest)
        (simp_all add: bnd_def uninit_def Let_def b'_def del: SocketInfo_from.simps)
  qed
  moreover have "mb_data b' = payload"
    using mem_read_write_same [of ?m 0 payload]
    by (subst mb_data_Some [of _ "mem_write ?m 0 payload"]) (simp_all add: b'_def set_size_def)
  moreover have "mb_cap b' = mb_cap b" by (simp add: b'_def b1_def set_size_def)
  ultimately show ?thesis using that by blast
qed

subsection \<open>Properties\<close>


definition udp_example :: udpsock where
  "udp_example = \<lparr>us_fd = 7, us_port_maps = Map.empty,
     us_client = \<lparr>si_ip = [10, 0, 0, 1] @ replicate 12 0, si_port = 0, si_version = IPv4\<rparr>\<rparr>"

definition udp_packet :: bytes where
  "udp_packet = [0, 0, 0] @ ep_wire (addr_endpoint (SockIn [8, 8, 8, 8] (mk16 53 0))) @ [1, 2, 3]"


text \<open>
  C20: Replies find their way back: when a datagram of the client for a remote address has been
  accepted, the answer from that address is sent to the port it came from, as one datagram of
  the UDP header, the remote address and the unchanged data, in the bytes \<open>recv_from\<close> accepts.
\<close>

theorem UDP_reply_returns_to_sender:
  assumes "sr_ok (os s (trace s) (Sys_recvfrom (us_fd us) (mb_cap b)))"
    and "sr_data (os s (trace s) (Sys_recvfrom (us_fd us) (mb_cap b)))
         = h @ ep_wire (addr_endpoint dest) @ payload"
    and "length h = 3" and "length (h @ ep_wire (addr_endpoint dest) @ payload) \<le> mb_cap b"
    and "payload \<noteq> []" and "mb_ptr b = Some m"
    and "sr_addr (os s (trace s) (Sys_recvfrom (us_fd us) (mb_cap b))) = sender"
    and "sa_ok dest" and "sa_ok sender" and "sa_len dest \<le> sa_len sender"
    and "si_addr ((us_client us)\<lparr>si_port := sa_port sender\<rparr>) = sender"
    and "UDPSocket_recv_from us b s = (Inr (n, b', addr, us'), s')" and "mb_ptr c \<noteq> None"
  shows "trace (snd (UDPSocket_send_to us' c dest t))
       = (Sys_sendto (us_fd us) (udp_datagram dest (mb_data c)) sender (sa_len sender),
          os t (trace t) (Sys_sendto (us_fd us) (udp_datagram dest (mb_data c)) sender (sa_len sender)))
         # trace t"
proof -
  obtain b1 where "UDPSocket_recv_from us b s =
      (Inr (int (length payload), b1, Some (dest, sa_len sender),
            us\<lparr>us_port_maps := (us_port_maps us)(sa_port dest \<mapsto> sa_port sender)\<rparr>),
       after (Sys_recvfrom (us_fd us) (mb_cap b)) s)"
    by (rule UDPSocket_recv_from_client [of s us b h dest payload m]) (use assms in auto)
  then have us': "us' = us\<lparr>us_port_maps := (us_port_maps us)(sa_port dest \<mapsto> sa_port sender)\<rparr>"
    using assms(12) by simp
  have client: "si_addr (us_client us'\<lparr>si_port := sa_port sender\<rparr>) = sender"
    using assms(11) us' by simp
  show ?thesis
    using UDPSocket_send_to_mapped [OF assms(8) _ assms(13), of us' "sa_port sender" t] us' assms(11)
    by (simp add: bnd_def sys_sendto_def syscall_def Let_def)
qed

lemma udp_example_run:
  "\<exists>b' s'. UDPSocket_recv_from udp_example (MemoryBuffer (\<lambda>_. 0) 0 100)
      (world_of (\<lambda>_ _. deliver udp_packet (SockIn [10, 0, 0, 1] 9)))
    = (Inr (3, b', Some (SockIn [8, 8, 8, 8] (mk16 53 0), 16),
            udp_example\<lparr>us_port_maps := [mk16 53 0 \<mapsto> 9]\<rparr>), s')"
  by (rule UDPSocket_recv_from_client [of "world_of (\<lambda>_ _. deliver udp_packet (SockIn [10, 0, 0, 1] 9))"
        udp_example "MemoryBuffer (\<lambda>_. 0) 0 100" "[0, 0, 0]" "SockIn [8, 8, 8, 8] (mk16 53 0)"
        "[1, 2, 3]" "\<lambda>_. 0"])
    (auto simp: udp_packet_def udp_example_def MemoryBuffer_def length_ep_wire si_addr_def
      SocketInfo_to_def)

theorem UDP_reply_returns_to_sender_witness:
  "\<exists>us' r. trace (snd (UDPSocket_send_to us' (MemoryBuffer (\<lambda>_. 5) 2 100) (SockIn [8, 8, 8, 8] (mk16 53 0))
      (world_of (\<lambda>_ _. answer 12))))
   = [(Sys_sendto 7 (udp_datagram (SockIn [8, 8, 8, 8] (mk16 53 0)) [5, 5]) (SockIn [10, 0, 0, 1] 9) 16, r)]"
proof -
  let ?w = "world_of (\<lambda>_ _. deliver udp_packet (SockIn [10, 0, 0, 1] 9))"
  let ?b = "MemoryBuffer (\<lambda>_. 0) 0 100" and ?dest = "SockIn [8, 8, 8, 8] (mk16 53 0)"
  obtain b' s' where run: "UDPSocket_recv_from udp_example ?b ?w
      = (Inr (3, b', Some (?dest, 16), udp_example\<lparr>us_port_maps := [mk16 53 0 \<mapsto> 9]\<rparr>), s')"
    using udp_example_run by blast
  have "mb_data (MemoryBuffer (\<lambda>_. 5) 2 100) = [5, 5]"
    by (simp add: mb_data_MemoryBuffer mem_read_def numeral_2_eq_2)
  then show ?thesis
    using UDP_reply_returns_to_sender
      [OF _ _ _ _ _ _ _ _ _ _ _ run, of "[0, 0, 0]" ?dest "[1, 2, 3]" "\<lambda>_. 0" "SockIn [10, 0, 0, 1] 9"
        "MemoryBuffer (\<lambda>_. 5) 2 100" "world_of (\<lambda>_ _. answer 12)"]
    by (auto simp: udp_packet_def udp_example_def MemoryBuffer_def length_ep_wire si_addr_def
        SocketInfo_to_def)
qed

text \<open>
  C21: A datagram of more than ten bytes from another host than the client is dropped: \<open>recv_from\<close>
  returns 0 and neither the buffer's header is read nor the port map changed.
\<close>

theorem UDPSocket_recv_from_drops_strangers:
  assumes "sr_ok (os s (trace s) (Sys_recvfrom (us_fd us) (mb_cap b)))"
    and "length (sr_data (os s (trace s) (Sys_recvfrom (us_fd us) (mb_cap b)))) > 10"
    and "length (sr_data (os s (trace s) (Sys_recvfrom (us_fd us) (mb_cap b)))) \<le> mb_cap b"
    and "mb_ptr b = Some m" and "sr_addr (os s (trace s) (Sys_recvfrom (us_fd us) (mb_cap b))) = sender"
    and "sa_ok sender" and "si_addr ((us_client us)\<lparr>si_port := sa_port sender\<rparr>) \<noteq> sender"
  shows "\<exists>b' s'. UDPSocket_recv_from us b s = (Inr (0, b', Some (sender, sa_len sender), us), s')"
proof -
  let ?d = "sr_data (os s (trace s) (Sys_recvfrom (us_fd us) (mb_cap b)))"
  let ?info = "SocketInfo_from sender (SocketInfo_fresh (stack s (trace s)))"
  have "?d \<noteq> []" using assms(2) by auto
  note recv = recvfrom_exec [OF assms(1) refl assms(3) this assms(4)]
  have "si_port ?info = sa_port sender" by (cases sender) simp_all
  then have "\<not> SocketInfo_eq ?info ((us_client us)\<lparr>si_port := si_port ?info\<rparr>)"
    using assms(6,7) by (auto simp: si_addr_eq_iff)
  then show ?thesis
    using recv assms(2,5)
    by (simp add: UDPSocket_recv_from_def bnd_def uninit_def Let_def set_size_def del: SocketInfo_from.simps)
qed

theorem UDPSocket_recv_from_drops_strangers_witness:
  "\<exists>b' s'. UDPSocket_recv_from udp_example (MemoryBuffer (\<lambda>_. 0) 0 100)
      (world_of (\<lambda>_ _. deliver (replicate 20 1) (SockIn [10, 0, 0, 2] 9)))
    = (Inr (0, b', Some (SockIn [10, 0, 0, 2] 9, 16), udp_example), s')"
  using UDPSocket_recv_from_drops_strangers
    [of "world_of (\<lambda>_ _. deliver (replicate 20 1) (SockIn [10, 0, 0, 2] 9))" udp_example
        "MemoryBuffer (\<lambda>_. 0) 0 100" "\<lambda>_. 0" "SockIn [10, 0, 0, 2] 9"]
  by (auto simp: udp_example_def MemoryBuffer_def si_addr_def SocketInfo_to_def)

text \<open>
  C40: A datagram of at most ten bytes is returned as it came, from whatever host: the sender is
  not checked, no header is taken off, and the address stays the sender's, so the session sends
  the datagram back to where it came from.
\<close>

theorem UDPSocket_recv_from_short_unchecked:
  assumes "sr_ok (os s (trace s) (Sys_recvfrom (us_fd us) (mb_cap b)))"
    and "sr_data (os s (trace s) (Sys_recvfrom (us_fd us) (mb_cap b))) = d"
    and "d \<noteq> []" and "length d \<le> 10" and "length d \<le> mb_cap b" and "mb_ptr b = Some m"
    and "sr_addr (os s (trace s) (Sys_recvfrom (us_fd us) (mb_cap b))) = sender"
  shows "\<exists>b' s'. UDPSocket_recv_from us b s
      = (Inr (int (length d), b', Some (sender, sa_len sender), us), s') \<and> mb_data b' = d"
proof -
  have recv: "SessionSocket_recv_from (us_fd us) b s =
    (Inr (int (length d), set_size (length d) (b\<lparr>mb_ptr := Some (mem_write m 0 d)\<rparr>), Some sender),
     after (Sys_recvfrom (us_fd us) (mb_cap b)) s)"
    using recvfrom_exec [of s "us_fd us" b d m] assms by simp
  have "mb_data (set_size (length d) (b\<lparr>mb_ptr := Some (mem_write m 0 d)\<rparr>)) = d"
    by (subst mb_data_Some [of _ "mem_write m 0 d"]) (simp_all add: set_size_def)
  then show ?thesis
    using recv assms(4) by (simp add: UDPSocket_recv_from_def bnd_def uninit_def Let_def)
qed

theorem UDPSocket_recv_from_short_unchecked_witness:
  "\<exists>b' s'. UDPSocket_recv_from udp_example (MemoryBuffer (\<lambda>_. 0) 0 100)
      (world_of (\<lambda>_ _. deliver [1, 2] (SockIn [66, 0, 0, 2] 9)))
    = (Inr (2, b', Some (SockIn [66, 0, 0, 2] 9, 16), udp_example), s') \<and> mb_data b' = [1, 2]"
  using UDPSocket_recv_from_short_unchecked
    [of "world_of (\<lambda>_ _. deliver [1, 2] (SockIn [66, 0, 0, 2] 9))" udp_example
        "MemoryBuffer (\<lambda>_. 0) 0 100" "[1, 2]" "\<lambda>_. 0" "SockIn [66, 0, 0, 2] 9"]
  by (auto simp: udp_example_def MemoryBuffer_def)

end
