(* ===== verification/DnsSocket.thy ===== *)
theory DnsSocket
  imports Socket DnsMessage
begin

section \<open>The session's DNS client\<close>

text \<open>
  \<open>server/dns_socket.hpp\<close> and \<open>server/dns_socket.cxx\<close>: \<open>query\<close> asks the name server for the
  IPv4 addresses of one name, \<open>get_response\<close> reads the answer and keeps its IPv4 and IPv6
  addresses. An exception of the DNS library leaves both.
\<close>

record dnssock =
  ds_fd :: int
  ds_domain_name :: bytes
  ds_port :: u16
  ds_buffer :: membuf

text \<open>
  With a buffer given, its size becomes the capacity of the copy; \<open>fresh\<close> is the block that
  \<open>malloc\<close> returns. (The session passes none.)
\<close>

definition DnsSocket_new :: "int \<Rightarrow> bytes \<Rightarrow> u16 \<Rightarrow> (mem \<times> membuf) option \<Rightarrow> fault + dnssock" where
  "DnsSocket_new fd domain_name port buffer =
     (let ds = \<lparr>ds_fd = fd, ds_domain_name = domain_name, ds_port = port, ds_buffer = MemoryBuffer_null\<rparr> in
      case buffer of
        None \<Rightarrow> Inr ds
      | Some (fresh, src) \<Rightarrow>
          (case Buffer_new True fresh (mb_size src) of
             Inl e \<Rightarrow> Inl e
           | Inr b \<Rightarrow> (case mb_ptr src of
               None \<Rightarrow> Inl (UndefinedBehaviour ''memcpy from null'')
             | Some m \<Rightarrow> (case copy_from m (mb_size src) b of
                 (Inl e, _) \<Rightarrow> Inl e
               | (Inr _, b') \<Rightarrow> Inr (ds\<lparr>ds_buffer := b'\<rparr>)))))"

lemma DnsSocket_new_plain: "DnsSocket_new fd d p None = Inr \<lparr>ds_fd = fd, ds_domain_name = d, ds_port = p,
    ds_buffer = MemoryBuffer_null\<rparr>"
  by (simp add: DnsSocket_new_def)

definition dns_query_message :: "bytes \<Rightarrow> message" where
  "dns_query_message domain_name =
     (let message = setOpCode 0 (setQr 0 Message);
          qs = (QuerySection domain_name)\<lparr>mQType := RDATA_A\<rparr>
      in addQuery qs message)"

definition DnsSocket_query :: "dnssock \<Rightarrow> ipaddress \<Rightarrow> ('w, int) io" where
  "DnsSocket_query ds dns_address = bnd uninit (\<lambda>junk.
     case Message_encode junk (dns_query_message (ds_domain_name ds)) (mem_read junk 0 MAX_MSG_LEN) of
       Inl e \<Rightarrow> throw e
     | Inr (_, out, buffer_size) \<Rightarrow>
         let buffer = MemoryBuffer (mem_write junk 0 out) buffer_size MAX_MSG_LEN;
             send_addr = ia_sockaddr dns_address in
         SessionSocket_send_to (ds_fd ds) buffer send_addr (sa_len send_addr))"

text \<open>One answer of the response. A record without data has a null pointer, which is followed.\<close>

definition answer_addresses :: "mem \<Rightarrow> u16 \<Rightarrow> resource_record \<Rightarrow> fault + ipaddress list" where
  "answer_addresses junk port rr =
     (if rr_mClass rr = CLASS_IN then
        (if rr_mType rr = RDATA_A then
           (case rr_mRData rr of
              Some (RDataA a) \<Rightarrow> Inr [IPAddress_of_bytes junk IPv4 (mem_write (\<lambda>_. 0) 0 a) port False]
            | _ \<Rightarrow> Inl (UndefinedBehaviour ''null record data''))
         else if rr_mType rr = RDATA_AAAA then
           (case rr_mRData rr of
              Some (RDataAAAA a) \<Rightarrow> Inr [IPAddress_of_bytes junk IPv6 (mem_write (\<lambda>_. 0) 0 a) port False]
            | _ \<Rightarrow> Inl (UndefinedBehaviour ''null record data''))
         else Inr [])
      else Inr [])"

fun answers_addresses :: "mem \<Rightarrow> u16 \<Rightarrow> resource_record list \<Rightarrow> fault + ipaddress list" where
  "answers_addresses junk port [] = Inr []"
| "answers_addresses junk port (rr # rrs) = (case answer_addresses junk port rr of
     Inl e \<Rightarrow> Inl e
   | Inr as \<Rightarrow> (case answers_addresses junk port rrs of Inl e \<Rightarrow> Inl e | Inr bs \<Rightarrow> Inr (as @ bs)))"

text \<open>The status and the addresses found, in the order of the answers.\<close>

definition DnsSocket_get_response :: "dnssock \<Rightarrow> ('w, int \<times> ipaddress list) io" where
  "DnsSocket_get_response ds = bnd uninit (\<lambda>junk.
     bnd (SessionSocket_recv_from (ds_fd ds) (MemoryBuffer junk 0 MAX_MSG_LEN)) (\<lambda>(n, buffer, _).
       if n \<le> 0 then ret (n, [])
       else case Message_decode Message (mb_data buffer) of
         Inl e \<Rightarrow> throw e
       | Inr message \<Rightarrow>
           (case answers_addresses junk (ds_port ds) (mAnswers message) of
              Inl e \<Rightarrow> throw e
            | Inr addresses \<Rightarrow> ret (n, addresses))))"

lemma keeps_dns_socket [intro]:
  assumes "plain_closed P"
  shows "keeps P (DnsSocket_query ds a)" "keeps P (DnsSocket_get_response ds)"
  using assms
  by (auto simp: DnsSocket_query_def DnsSocket_get_response_def Let_def
      split: sum.splits intro!: keeps_bnd keeps_if)

subsection \<open>The query on the wire\<close>

text \<open>With room for the plain form of a name, encoding it succeeds.\<close>

lemma dn_compress_room:
  assumes "labels_ok ls" and "dns_wf b" and "mem_read arr k (dp - k) = enc_labels ls"
    and "mBufferPtr b + length (enc_labels ls) \<le> length (mBuffer b)"
  shows "\<exists>b'. dn_compress arr dp (label_offs k ls) b = (Inr (), b')
    \<and> mBufferPtr b' \<le> mBufferPtr b + length (enc_labels ls)"
  using assms
proof (induction ls arbitrary: k b)
  case Nil
  then show ?case by (simp add: put8bits_exec)
next
  case (Cons l ls)
  have l: "label_ok l" and ls: "labels_ok ls" using Cons.prems(1) by (simp_all add: labels_ok_def)
  have arr: "mem_read arr k (dp - k) = of_nat (length l) # l @ enc_labels ls"
    using Cons.prems(3) by simp
  note tail = mem_read_tail [OF arr]
  have pos: "0 < length (enc_labels ls)" by (cases ls) simp_all
  show ?case
  proof (cases "find_tip (enc_labels (l # ls)) b")
    case (Some t)
    have "0 < length l" using l by (simp add: label_ok_def)
    then have two: "2 \<le> length (enc_labels (l # ls))" using pos
      unfolding enc_labels.simps by (cases l) simp_all
    then have room: "mBufferPtr b + 2 \<le> length (mBuffer b)" using Cons.prems(4) by linarith
    from Some arr have "dn_compress arr dp (label_offs k (l # ls)) b = put16bits (0xC000 + of_nat t) b"
      by (simp add: bnd_def)
    then show ?thesis
      using room two by (simp add: put16bits_exec [OF Cons.prems(2)] del: enc_labels.simps)
  next
    case None
    let ?d = "of_nat (length l) # l"
    let ?b = "b\<lparr>mBuffer := overwrite (mBufferPtr b) ?d (mBuffer b), mBufferPtr := mBufferPtr b + (1 + length l)\<rparr>"
    have len: "mBufferPtr b + length ?d \<le> length (mBuffer b)" using Cons.prems(4) by simp
    have wf: "dns_wf ?b" using Cons.prems(2) len by (simp add: dns_wf_def)
    have "\<exists>b'. dn_compress arr dp (label_offs (k + 1 + length l) ls) ?b = (Inr (), b')
        \<and> mBufferPtr b' \<le> mBufferPtr ?b + length (enc_labels ls)"
      by (rule Cons.IH [OF ls wf]) (use tail(1) Cons.prems(4) len in \<open>simp_all add: add.assoc\<close>)
    then show ?thesis
      using None tail(2,3) Cons.prems(2,3) len l
      by (auto simp: bnd_def seq_def putBytes_exec label_ok_def)
  qed
qed

lemma putDnsDomainName_room:
  assumes "name_ok v" and "dns_wf b" and "mBufferPtr b + length v + 2 \<le> length (mBuffer b)"
  shows "\<exists>b'. putDnsDomainName arr0 v True b = (Inr (), b') \<and> mBufferPtr b' \<le> mBufferPtr b + length v + 2"
proof (cases "v = []")
  case True
  then show ?thesis using assms by (simp add: putDnsDomainName_def put8bits_exec)
next
  case False
  then obtain ls where ls: "labels_ok ls" "ls \<noteq> []" "v = dotted ls" "length v \<le> 254"
    using name_okE assms(1) by blast
  let ?arr = "mem_write arr0 0 (enc_labels ls)"
  have n: "length (enc_labels ls) = length v + 2" using ls by (simp add: length_enc_labels)
  have "dn_labels v arr0 [] 0 0 1 0 = Inr (?arr, label_offs 0 ls, length v + 2)"
    using dn_labels_enc [of ls 0 v "[]" arr0] ls by simp
  then have "putDnsDomainName arr0 v True b = dn_compress ?arr (length v + 2) (label_offs 0 ls) b"
    using ls False by (simp add: putDnsDomainName_def MAX_DOMAIN_LEN_def)
  moreover have "mem_read ?arr 0 (length v + 2 - 0) = enc_labels ls"
    using n by (simp add: mem_read_write_prefix)
  ultimately show ?thesis
    using dn_compress_room [OF ls(1) assms(2), of ?arr 0 "length v + 2"] assms(3) n by simp
qed

lemma put16s_room:
  assumes "dns_wf b" and "mBufferPtr b + 2 * length vs \<le> length (mBuffer b)"
  shows "\<exists>b'. for_each put16bits vs b = (Inr (), b') \<and> mBufferPtr b' = mBufferPtr b + 2 * length vs"
  using assms
proof (induction vs arbitrary: b)
  case (Cons v vs)
  let ?b = "b\<lparr>mBuffer := overwrite (mBufferPtr b) (be16 v) (mBuffer b), mBufferPtr := mBufferPtr b + 2\<rparr>"
  have v: "put16bits v b = (Inr (), ?b)" using Cons.prems by (simp add: put16bits_exec)
  have "\<exists>b'. for_each put16bits vs ?b = (Inr (), b') \<and> mBufferPtr b' = mBufferPtr ?b + 2 * length vs"
    by (rule Cons.IH) (use Cons.prems in \<open>simp_all add: dns_wf_def\<close>)
  with v show ?case by (auto simp: seq_def bnd_def)
qed simp

text \<open>The message of a query can be encoded, for every name the encoder handles.\<close>

lemma dns_query_encodes:
  assumes d: "name_ok d" and buf: "length buf = MAX_MSG_LEN"
  shows "\<exists>m' out n. Message_encode arr0 (dns_query_message d) buf = Inr (m', out, n)"
proof -
  let ?m = "dns_query_message d" and ?b = "Buffer_ctor buf"
  let ?hs = "[mId ?m, header_fields ?m, of_nat (length (mQueries ?m)),
       of_nat (length (mAnswers ?m)), of_nat (length (mAuthorities ?m)), of_nat (length (mAdditional ?m))]"
  have q: "mQueries ?m = [\<lparr>mQName = d, mQType = RDATA_A, mQClass = 1\<rparr>]" "mAnswers ?m = []"
    "mAuthorities ?m = []" "mAdditional ?m = []"
    by (simp_all add: dns_query_message_def Let_def addQuery_def setOpCode_def setQr_def Message_def
        QuerySection_def)
  have wf: "dns_wf ?b" using buf by (intro dns_wf_ctor) simp
  have d254: "length d \<le> 254" using d by (auto simp: name_ok_def)
  obtain b1 where b1: "for_each put16bits ?hs ?b = (Inr (), b1)" and p1: "mBufferPtr b1 = 12"
    using put16s_room [OF wf, of ?hs] buf by (auto simp: Buffer_ctor_def MAX_MSG_LEN_def)
  have w1: "wrote ?b b1" by (rule put16s_wrote [OF b1 wf])
  then have wf1: "dns_wf b1" and l1: "length (mBuffer b1) = 512"
    using buf by (simp_all add: wrote_def Buffer_ctor_def MAX_MSG_LEN_def)
  obtain b2 where b2: "putDnsDomainName arr0 d True b1 = (Inr (), b2)" and p2: "mBufferPtr b2 \<le> 268"
    using putDnsDomainName_room [OF d wf1, of arr0] p1 l1 d254 by auto
  have w2: "wrote b1 b2" using name.put_wrote [OF d wf1 b2] by simp
  then have wf2: "dns_wf b2" and l2: "length (mBuffer b2) = 512" using l1 by (simp_all add: wrote_def)
  obtain b3 where b3: "for_each put16bits [RDATA_A, 1] b2 = (Inr (), b3)"
    using put16s_room [OF wf2, of "[RDATA_A, 1]"] p2 l2 by auto
  then have "for_each (QuerySection_encode arr0) (mQueries ?m) b1 = (Inr (), b3)"
    using b2 q by (auto simp: QuerySection_encode_def seq_def bnd_def split: prod.splits sum.splits)
  then have "Message_put arr0 ?m ?b = (Inr (?m\<lparr>mAnswers := [], mAuthorities := [], mAdditional := []\<rparr>), b3)"
    using b1 q(2-4) unfolding Message_put_def by (simp add: seq_def bnd_def del: for_each.simps)
  then show ?thesis by (simp add: Message_encode_def)
qed

text \<open>What the server is asked: one question of type A (1) and class IN (1), without any flag.\<close>

definition address_question :: "bytes \<Rightarrow> message" where
  "address_question d = \<lparr>mId = 0, mQr = 0, mOpCode = 0, mAA = 0, mTC = 0, mRD = 0, mRA = 0, mRCode = 0,
     mQueries = [\<lparr>mQName = d, mQType = 1, mQClass = 1\<rparr>], mAnswers = [], mAuthorities = [], mAdditional = []\<rparr>"

lemma dns_query_message_eq: "dns_query_message d = address_question d"
  by (simp add: dns_query_message_def address_question_def Let_def addQuery_def setOpCode_def setQr_def
      Message_def QuerySection_def RDATA_A_def)

lemma dns_query_message_ok: "name_ok d \<Longrightarrow> message_ok (dns_query_message d)"
  by (simp add: message_ok_def header_ok_def query_ok_def dns_query_message_def Let_def addQuery_def
      setOpCode_def setQr_def Message_def QuerySection_def RDATA_A_def fits16_def)

lemma DnsSocket_query_exec:
  assumes "name_ok (ds_domain_name ds)"
  shows "\<exists>dg. DnsSocket_query ds a s = sys_sendto (ds_fd ds) dg (ia_sockaddr a) (sa_len (ia_sockaddr a)) s
     \<and> Message_decode Message dg = Inr (dns_query_message (ds_domain_name ds))"
proof -
  let ?junk = "stack s (trace s)" and ?m = "dns_query_message (ds_domain_name ds)"
  let ?buf = "mem_read ?junk 0 MAX_MSG_LEN"
  obtain m' out n where enc: "Message_encode ?junk ?m ?buf = Inr (m', out, n)"
    using dns_query_encodes [OF assms, of ?buf ?junk] by auto
  let ?mb = "MemoryBuffer (mem_write ?junk 0 out) n MAX_MSG_LEN"
  note dec = Message_decode_encoded [OF dns_query_message_ok [OF assms] _ enc, of Message]
  have le: "n \<le> length out" using dec by simp
  have data: "mb_data ?mb = take n out"
    using le by (simp add: mb_data_MemoryBuffer mem_read_write_prefix)
  have "Message_decode Message (take n out) = Inr (?m\<lparr>mRCode := mRCode Message\<rparr>)"
    using dec by simp
  moreover have "?m\<lparr>mRCode := mRCode Message\<rparr> = ?m"
    by (simp add: dns_query_message_def Let_def addQuery_def setOpCode_def setQr_def Message_def)
  ultimately show ?thesis
    using enc data
    by (intro exI [of _ "take n out"]) (simp add: DnsSocket_query_def bnd_def uninit_def Let_def SessionSocket_send_to_def)
qed

text \<open>
  For every name the encoder accepts, \<open>query\<close> makes one call: it sends a single datagram to
  the name server's address and port, whose bytes decode to the query message, one question
  for the IPv4 addresses (type A, class IN) of exactly that name.
\<close>

theorem DnsSocket_query_sends_question:
  assumes "name_ok (ds_domain_name ds)"
  shows "\<exists>dg n. trace (snd (DnsSocket_query ds a s))
       = (Sys_sendto (ds_fd ds) dg (ia_sockaddr a) (sa_len (ia_sockaddr a)), n) # trace s
     \<and> Message_decode Message dg = Inr (address_question (ds_domain_name ds))"
  using DnsSocket_query_exec [OF assms, of a s] by (auto simp: dns_query_message_eq sys_sendto_def bnd_def syscall_def Let_def)

theorem DnsSocket_query_sends_question_witness:
  "\<exists>dg n. trace (snd (DnsSocket_query \<lparr>ds_fd = 4, ds_domain_name = [97, 46, 98], ds_port = 80, ds_buffer = MemoryBuffer_null\<rparr>
        \<lparr>ia_storage = [1, 1, 1, 1] @ replicate 12 0, ia_port = 53, ia_version = IPv4\<rparr> (world_of (\<lambda>_ _. answer 30))))
     = [(Sys_sendto 4 dg (SockIn [1, 1, 1, 1] (htons 53)) 16, n)]
   \<and> Message_decode Message dg = Inr (address_question [97, 46, 98])"
  using DnsSocket_query_sends_question
    [of "\<lparr>ds_fd = 4, ds_domain_name = [97, 46, 98], ds_port = 80, ds_buffer = MemoryBuffer_null\<rparr>"
        "\<lparr>ia_storage = [1, 1, 1, 1] @ replicate 12 0, ia_port = 53, ia_version = IPv4\<rparr>"
        "world_of (\<lambda>_ _. answer 30)"]
  by (simp add: name_ok_def labels_ok_def label_ok_def ia_sockaddr_def get_netport_def)

subsection \<open>The addresses of a response\<close>


lemma mem_read_write_whole [simp]: "length bs = n \<Longrightarrow> mem_read (mem_write m 0 bs) 0 n = bs"
  by auto









text \<open>
  A response with an A record of class IN and data length 0, which decodes without error,
  makes \<open>get_response\<close> follow the null pointer of the record's data.
\<close>

theorem DnsSocket_empty_record_null_pointer:
  "fst (DnsSocket_get_response
      \<lparr>ds_fd = 4, ds_domain_name = [97], ds_port = 80, ds_buffer = MemoryBuffer_null\<rparr>
      (world_of (\<lambda>_ _. deliver [0, 0, 128, 0, 0, 0, 0, 1, 0, 0, 0, 0, 0, 0, 1, 0, 1, 0, 0, 0, 60, 0, 0]
         (SockIn [1, 1, 1, 1] 53))))
   = Inl (UndefinedBehaviour ''null record data'')"
proof -
  let ?d = "[0, 0, 128, 0, 0, 0, 0, 1, 0, 0, 0, 0, 0, 0, 1, 0, 1, 0, 0, 0, 60, 0, 0] :: bytes"
  have dec: "case Message_decode Message ?d of Inl _ \<Rightarrow> False
      | Inr m \<Rightarrow> answers_addresses (\<lambda>_. 0) 80 (mAnswers m) = Inl (UndefinedBehaviour ''null record data'')"
    by code_simp
  then obtain m where m: "Message_decode Message ?d = Inr m"
    and a: "answers_addresses (\<lambda>_. 0) 80 (mAnswers m) = Inl (UndefinedBehaviour ''null record data'')"
    by (cases "Message_decode Message ?d") simp_all
  have data: "mem_read (mem_write (\<lambda>_. 0) 0 ?d) 0 23 = ?d" by simp
  show ?thesis
    using m a data
    by (simp add: DnsSocket_get_response_def bnd_def uninit_def SessionSocket_recv_from_def
        sys_recvfrom_def syscall_def Let_def MemoryBuffer_def set_size_def MAX_MSG_LEN_def mb_data_Some)
qed

end
