(* ===== verification/Poller.thy ===== *)
theory Poller
  imports Socket
begin

section \<open>The poller\<close>

text \<open>
  \<open>core/poller/event.hpp\<close> and \<open>core/poller/epoll_poller.hpp\<close>: event flags are the bits of
  \<open>epoll\<close>, as a \<open>uint32_t\<close>; an event carries the pointer that was registered with it.
\<close>

definition Ev_Read :: u32 where "Ev_Read = 0x001"
definition Ev_Write :: u32 where "Ev_Write = 0x004"
definition Ev_Closed :: u32 where "Ev_Closed = 0x010"
definition Ev_Error :: u32 where "Ev_Error = 0x008"

lemmas ev_defs = Ev_Read_def Ev_Write_def Ev_Closed_def Ev_Error_def

record event =
  ev_ptr :: ptr
  ev_flags :: u32
  ev_fd :: int

definition Event :: "int \<Rightarrow> u32 \<Rightarrow> ptr \<Rightarrow> event" where
  "Event fd flags p = \<lparr>ev_ptr = p, ev_flags = flags, ev_fd = fd\<rparr>"

definition POLL_BATCH :: nat where "POLL_BATCH = 512"

definition EpollPoller_new :: "('w, int) io" where
  "EpollPoller_new = bnd (sys_int Sys_epoll_create) (\<lambda>fd.
     if fd = -1 then bnd (asks errno) (\<lambda>e. throw (PollerCreationException e)) else ret fd)"

text \<open>The destructor.\<close>

definition EpollPoller_delete :: "int \<Rightarrow> ('w, unit) io" where
  "EpollPoller_delete fd = (if fd \<noteq> -1 then bnd (sys_int (Sys_close fd)) (\<lambda>_. ret ()) else ret ())"

definition epoll_ctl :: "epoll_op \<Rightarrow> int \<Rightarrow> ptr \<Rightarrow> u32 \<Rightarrow> ('w, bool) io" where
  "epoll_ctl opr fd p flags = bnd (sys_int (Sys_epoll_ctl opr fd p flags)) (\<lambda>r. ret (r = 0))"

definition register_event :: "event \<Rightarrow> ('w, bool) io" where
  "register_event e = epoll_ctl EPOLL_CTL_ADD (ev_fd e) (ev_ptr e) (ev_flags e)"

definition update_event :: "event \<Rightarrow> ('w, bool) io" where
  "update_event e = epoll_ctl EPOLL_CTL_MOD (ev_fd e) (ev_ptr e) (ev_flags e)"

definition remove_event :: "int \<Rightarrow> ('w, bool) io" where
  "remove_event fd = epoll_ctl EPOLL_CTL_DEL fd PNull 0"

definition set_event :: "int \<Rightarrow> ptr \<Rightarrow> u32 \<Rightarrow> bool \<Rightarrow> ('w, bool) io" where
  "set_event fd p flags is_mod =
     epoll_ctl (if is_mod then EPOLL_CTL_MOD else EPOLL_CTL_ADD) fd p flags"

text \<open>At most \<open>POLL_BATCH\<close> events are delivered; \<open>epoll\<close> gives no descriptor with them.\<close>

definition poll :: "int \<Rightarrow> ('w, int \<times> event list) io" where
  "poll timeout = bnd (syscall (Sys_epoll_wait timeout)) (\<lambda>r.
     if sr_ok r then let evs = take POLL_BATCH (sr_events r) in
       ret (int (length evs), map (\<lambda>(flags, p). Event 0 flags p) evs)
     else ret (-1, []))"

lemma wpre_set_event [wp]:
  "wpre (set_event fd p flags m) Q E s =
     (let c = Sys_epoll_ctl (if m then EPOLL_CTL_MOD else EPOLL_CTL_ADD) fd p flags in
      Q ((if sr_ok (os s (trace s) c) then int (sr_val (os s (trace s) c)) else -1) = 0) (after c s))"
  by (simp add: set_event_def epoll_ctl_def wp Let_def)

lemma keeps_poller [intro]:
  assumes "plain_closed P"
  shows "keeps P EpollPoller_new" "keeps P (EpollPoller_delete fd)" "keeps P (remove_event fd)"
    "keeps P (poll timeout)"
  using assms
  by (auto simp: EpollPoller_new_def EpollPoller_delete_def epoll_ctl_def remove_event_def poll_def
      Let_def intro!: keeps_bnd keeps_if)

lemma keeps_events [intro]:
  assumes "sys_closed P"
  shows "keeps P (epoll_ctl opr fd p flags)" "keeps P (register_event e)" "keeps P (update_event e)"
    "keeps P (set_event fd p flags m)"
  using assms
  by (auto simp: epoll_ctl_def register_event_def update_event_def set_event_def intro!: keeps_bnd keeps_if)

end
