(* ===== verification/Session.thy ===== *)
theory Session
  imports ClientSocket UdpSocket DnsSocket Poller Config
begin

section \<open>Sessions\<close>

text \<open>
  \<open>server/session.hpp\<close>, \<open>server/session.cxx\<close>, \<open>server/remote_socket.cxx\<close> and the default
  behaviour of \<open>server/server_hook.hpp\<close>: one client's state machine. A handler runs when the
  poller reports an event of one of the session's sockets and returns whether the session goes
  on. The state of a run is the world, the server's parameters and the session; a pointer of
  the session that may be null is an option, and following a null pointer is undefined.
\<close>

subsection \<open>State\<close>

datatype sess_state =
    Accepted | AuthRequested | Authenticated | ResolvingDomainName | ConnectingRemote
  | Connected | Associated | Invalid

record remotesock =
  rs_fd :: int
  rs_info :: sockinfo
  rs_addresses :: "ipaddress list option"
  rs_idx :: "64 word"
  rs_connected :: bool

record session =
  se_id :: nat
  se_state :: sess_state
  se_command :: command
  se_client :: int
  se_client_buffer :: membuf
  se_remote_buffer :: membuf
  se_peer :: sockinfo
  se_remote :: "remotesock option"
  se_udp :: "udpsock option"
  se_dns :: "dnssock list"
  se_domain :: bytes

record wstate = world +
  params :: server_params

record sstate = wstate +
  sess :: session

type_synonym 'a ses = "(sstate, 'a) exec"

definition gets :: "(session \<Rightarrow> 'a) \<Rightarrow> 'a ses" where
  "gets f = asks (\<lambda>s. f (sess s))"

definition sets :: "(session \<Rightarrow> session) \<Rightarrow> unit ses" where
  "sets f = upd (\<lambda>s. s\<lparr>sess := f (sess s)\<rparr>)"

definition set_state :: "sess_state \<Rightarrow> unit ses" where
  "set_state st = sets (\<lambda>se. se\<lparr>se_state := st\<rparr>)"

text \<open>\<open>*_remote_socket\<close> and \<open>*_udp_socket\<close>.\<close>

definition the_remote :: "remotesock ses" where
  "the_remote = bnd (gets se_remote) (\<lambda>r. case r of
     None \<Rightarrow> throw (UndefinedBehaviour ''null remote socket'') | Some r \<Rightarrow> ret r)"

definition the_udp :: "udpsock ses" where
  "the_udp = bnd (gets se_udp) (\<lambda>u. case u of
     None \<Rightarrow> throw (UndefinedBehaviour ''null udp socket'') | Some u \<Rightarrow> ret u)"

definition SESSION_BUFFER :: nat where "SESSION_BUFFER = 8192"
definition MAX_DNS_SOCKETS :: nat where "MAX_DNS_SOCKETS = 5"

lemma wpre_gets [wp]: "wpre (gets f) Q E s = Q (f (sess s)) s"
  by (simp add: gets_def wp)

lemma wpre_sets [wp]: "wpre (sets f) Q E s = Q () (s\<lparr>sess := f (sess s)\<rparr>)"
  by (simp add: sets_def wp)

lemma wpre_set_state [wp]:
  "wpre (set_state st) Q E s = Q () (s\<lparr>sess := (sess s)\<lparr>se_state := st\<rparr>\<rparr>)"
  by (simp add: set_state_def wp)

lemma wpre_the_remote [wp]:
  "wpre the_remote Q E s = (case se_remote (sess s) of
     None \<Rightarrow> E (UndefinedBehaviour ''null remote socket'') s | Some r \<Rightarrow> Q r s)"
  by (simp add: the_remote_def wp split: option.split)

lemma wpre_the_udp [wp]:
  "wpre the_udp Q E s = (case se_udp (sess s) of
     None \<Rightarrow> E (UndefinedBehaviour ''null udp socket'') s | Some u \<Rightarrow> Q u s)"
  by (simp add: the_udp_def wp split: option.split)

text \<open>The state of a run from its parts, for concrete instances.\<close>

definition sstate_of :: "(history \<Rightarrow> syscall \<Rightarrow> sysret) \<Rightarrow> server_params \<Rightarrow> session \<Rightarrow> sstate" where
  "sstate_of f p se = \<lparr>os = f, stack = (\<lambda>_ _. 0), inet_pton = (\<lambda>_ _. None), trace = [], errno = 0,
     params = p, sess = se\<rparr>"

definition session_at :: "nat \<Rightarrow> int \<Rightarrow> session" where
  "session_at n fd = \<lparr>se_id = n, se_state = Accepted, se_command = Cmd_Invalid, se_client = fd,
     se_client_buffer = MemoryBuffer_null, se_remote_buffer = MemoryBuffer_null,
     se_peer = \<lparr>si_ip = replicate 16 0, si_port = 0, si_version = IPv4\<rparr>, se_remote = None, se_udp = None,
     se_dns = [], se_domain = []\<rparr>"

lemma sstate_of_sel [simp]:
  "os (sstate_of f p se) = f" "trace (sstate_of f p se) = []" "stack (sstate_of f p se) = (\<lambda>_ _. 0)"
  "params (sstate_of f p se) = p" "sess (sstate_of f p se) = se"
  by (simp_all add: sstate_of_def)

subsection \<open>Hooks\<close>

text \<open>
  The default \<open>ServerHook\<close>: the event hooks do nothing and the others call the socket. A UDP
  hook that is given the remote socket calls the member function of the class it really has,
  which is that of \<open>SessionSocket\<close>. A null address makes \<open>sendto\<close> a \<open>send\<close>.
\<close>

definition hook_client_recv :: "int \<Rightarrow> membuf \<Rightarrow> (int \<times> membuf) ses" where
  "hook_client_recv fd b = SessionSocket_recv fd b"

definition hook_remote_recv :: "int \<Rightarrow> membuf \<Rightarrow> (int \<times> membuf) ses" where
  "hook_remote_recv fd b = SessionSocket_recv fd b"

definition hook_client_send :: "int \<Rightarrow> membuf \<Rightarrow> int ses" where
  "hook_client_send fd b = SessionSocket_send fd b"

definition hook_remote_send :: "int \<Rightarrow> membuf \<Rightarrow> int ses" where
  "hook_remote_send fd b = SessionSocket_send fd b"

definition hook_udp_recv_from :: "remotesock \<Rightarrow> membuf \<Rightarrow> (int \<times> membuf \<times> sockaddr option) ses" where
  "hook_udp_recv_from r b = SessionSocket_recv_from (rs_fd r) b"

definition hook_udp_send_to :: "remotesock \<Rightarrow> membuf \<Rightarrow> (sockaddr \<times> nat) option \<Rightarrow> int ses" where
  "hook_udp_send_to r b addr = (case addr of
     None \<Rightarrow> SessionSocket_send (rs_fd r) b
   | Some (a, len) \<Rightarrow> SessionSocket_send_to (rs_fd r) b a len)"

lemmas hook_defs = hook_client_recv_def hook_remote_recv_def hook_client_send_def
  hook_remote_send_def hook_udp_recv_from_def hook_udp_send_to_def

definition RemoteSocket_new :: "int \<Rightarrow> ipaddress list option \<Rightarrow> remotesock ses" where
  "RemoteSocket_new fd addresses = bnd uninit (\<lambda>junk. bnd (set_blocking fd False) (\<lambda>_.
     ret \<lparr>rs_fd = fd, rs_info = SocketInfo_fresh junk, rs_addresses = addresses, rs_idx = -1,
          rs_connected = (addresses = None)\<rparr>))"

subsection \<open>Creation and destruction\<close>

definition Session_new :: "nat \<Rightarrow> int \<Rightarrow> ('w, session) io" where
  "Session_new n fd = bnd (ClientSocket_new fd) (\<lambda>client. bnd uninit (\<lambda>junk.
     ret \<lparr>se_id = n, se_state = Invalid, se_command = Cmd_Invalid, se_client = client,
          se_client_buffer = MemoryBuffer_null, se_remote_buffer = MemoryBuffer_null,
          se_peer = SocketInfo_fresh junk, se_remote = None, se_udp = None, se_dns = [],
          se_domain = []\<rparr>))"

definition initialize :: "unit ses" where
  "initialize = bnd (gets (\<lambda>se. se)) (\<lambda>se. bnd (asks params) (\<lambda>p.
     bnd (set_nodelay (se_client se) (client_tcp_nodelay p)) (\<lambda>_.
     bnd (set_keepalive (se_client se) (client_tcp_keepalive p)) (\<lambda>_.
     bnd (set_event (se_client se) (PClient (se_id se)) (Ev_Read OR Ev_Closed) False) (\<lambda>_.
     bnd (get_peer_address (se_client se)) (\<lambda>peer.
     seq (sets (\<lambda>se. se\<lparr>se_peer := peer\<rparr>))
       (set_state Accepted)))))))"

text \<open>\<open>remove_event\<close>, \<open>shutdown\<close> and \<open>close\<close> of one socket, which leave its descriptor -1.\<close>

definition drop_socket :: "int \<Rightarrow> ('w, int) io" where
  "drop_socket fd = bnd (remove_event fd) (\<lambda>_. bnd (Socket_shutdown fd) (\<lambda>_. Socket_close fd))"

primrec drop_dns :: "dnssock list \<Rightarrow> ('w, dnssock list) io" where
  "drop_dns [] = ret []"
| "drop_dns (d # ds) = bnd (drop_socket (ds_fd d)) (\<lambda>fd. bnd (drop_dns ds) (\<lambda>ds'.
     ret (d\<lparr>ds_fd := fd\<rparr> # ds')))"

definition Session_shutdown :: "unit ses" where
  "Session_shutdown = bnd (gets (\<lambda>se. se)) (\<lambda>se.
     bnd (drop_socket (se_client se)) (\<lambda>fd. seq (sets (\<lambda>se. se\<lparr>se_client := fd\<rparr>))
     (seq (case se_remote se of
         None \<Rightarrow> ret ()
       | Some r \<Rightarrow> bnd (drop_socket (rs_fd r)) (\<lambda>fd. sets (\<lambda>se. se\<lparr>se_remote := Some (r\<lparr>rs_fd := fd\<rparr>)\<rparr>)))
     (seq (case se_udp se of
         None \<Rightarrow> ret ()
       | Some u \<Rightarrow> bnd (drop_socket (us_fd u)) (\<lambda>fd. sets (\<lambda>se. se\<lparr>se_udp := Some (u\<lparr>us_fd := fd\<rparr>)\<rparr>)))
     (bnd (drop_dns (se_dns se)) (\<lambda>ds. sets (\<lambda>se. se\<lparr>se_dns := ds\<rparr>)))))))"

text \<open>The destructor: the sockets that still own a descriptor close it.\<close>

definition Session_delete :: "session \<Rightarrow> ('w, unit) io" where
  "Session_delete se =
     bnd (Socket_close (se_client se)) (\<lambda>_.
     seq (case se_remote se of None \<Rightarrow> ret () | Some r \<Rightarrow> bnd (Socket_close (rs_fd r)) (\<lambda>_. ret ()))
     (seq (case se_udp se of None \<Rightarrow> ret () | Some u \<Rightarrow> bnd (Socket_close (us_fd u)) (\<lambda>_. ret ()))
       (for_each (\<lambda>d. bnd (Socket_close (ds_fd d)) (\<lambda>_. ret ())) (se_dns se))))"

end
