(* ===== verification/Relay.thy ===== *)
theory Relay
  imports Session
begin

section \<open>Relaying bytes with back-pressure\<close>

text \<open>
  \<open>Session::_session_socket_send\<close>: sends a buffer to one side. What the socket does not take is
  copied to the buffer scheduled for that side, the other side is no longer read, and the
  next write event sends what is scheduled. A call from a write event passes no buffer.
\<close>

datatype side = ClientSide | RemoteSide

fun other_side :: "side \<Rightarrow> side" where
  "other_side ClientSide = RemoteSide"
| "other_side RemoteSide = ClientSide"

text \<open>The buffer scheduled for a side; \<open>session_socket\<close> and \<open>session_socket2\<close> as descriptor and pointer.\<close>

fun scheduled_for :: "side \<Rightarrow> session \<Rightarrow> membuf" where
  "scheduled_for ClientSide se = se_client_buffer se"
| "scheduled_for RemoteSide se = se_remote_buffer se"

fun schedule :: "side \<Rightarrow> membuf \<Rightarrow> session \<Rightarrow> session" where
  "schedule ClientSide b se = se\<lparr>se_client_buffer := b\<rparr>"
| "schedule RemoteSide b se = se\<lparr>se_remote_buffer := b\<rparr>"

fun side_socket :: "side \<Rightarrow> (int \<times> ptr) ses" where
  "side_socket ClientSide = gets (\<lambda>se. (se_client se, PClient (se_id se)))"
| "side_socket RemoteSide = bnd the_remote (\<lambda>r. gets (\<lambda>se. (rs_fd r, PRemote (se_id se))))"

fun side_send :: "side \<Rightarrow> int \<Rightarrow> membuf \<Rightarrow> int ses" where
  "side_send ClientSide fd b = hook_client_send fd b"
| "side_send RemoteSide fd b = hook_remote_send fd b"

text \<open>
  Which events the two sockets wait for: while something is scheduled, only for room at the
  destination; otherwise both for data.
\<close>

definition watch :: "side \<Rightarrow> u32 \<Rightarrow> unit ses" where
  "watch d flags = bnd (side_socket d) (\<lambda>(fd, p). bnd (set_event fd p flags True) (\<lambda>_. ret ()))"

text \<open>Copying what was not sent, \<open>buffer + sent\<close>, where \<open>buffer\<close> is the argument.\<close>

definition save_rest :: "side \<Rightarrow> membuf option \<Rightarrow> nat \<Rightarrow> nat \<Rightarrow> unit ses" where
  "save_rest d buffer sent copy_size = bnd uninit (\<lambda>junk. bnd (gets (scheduled_for d)) (\<lambda>sched.
     let sched = (if mb_ptr sched = None then MemoryBuffer junk 0 SESSION_BUFFER else sched) in
     case buffer of
       None \<Rightarrow> throw (UndefinedBehaviour ''null buffer'')
     | Some b \<Rightarrow>
       (case mb_ptr b of
          None \<Rightarrow> throw (UndefinedBehaviour ''memcpy from null'')
        | Some m \<Rightarrow>
          (case copy_from (\<lambda>i. m (sent + i)) copy_size sched of
             (Inl e, _) \<Rightarrow> throw e
           | (Inr _, sched') \<Rightarrow> sets (schedule d sched')))))"

definition session_socket_send :: "side \<Rightarrow> membuf option \<Rightarrow> bool ses" where
  "session_socket_send d buffer = bnd (gets (scheduled_for d)) (\<lambda>sched.
     let is_scheduled = (mb_size sched > 0) in
     case (if is_scheduled then Some sched else buffer) of
       None \<Rightarrow> throw (UndefinedBehaviour ''null buffer'')
     | Some send_buffer \<Rightarrow>
       bnd (side_socket d) (\<lambda>(fd, _). bnd (side_send d fd send_buffer) (\<lambda>res. bnd (asks errno) (\<lambda>err.
         if res \<noteq> int (mb_size send_buffer) then
           if res = -1 \<and> err \<noteq> EWOULDBLOCK \<and> err \<noteq> EAGAIN then ret False
           else
             seq (when_do (\<not> is_scheduled \<or> res \<noteq> -1)
                    (let sent = (if res = -1 then 0 else nat res) in
                     save_rest d buffer sent (mb_size send_buffer - sent)))
             (seq (when_do (\<not> is_scheduled)
                    (seq (watch d (Ev_Write OR Ev_Closed)) (watch (other_side d) Ev_Closed)))
               (ret True))
         else
           seq (when_do is_scheduled
                  (seq (sets (schedule d (set_size 0 sched)))
                    (seq (watch d (Ev_Read OR Ev_Closed))
                         (watch (other_side d) (Ev_Read OR Ev_Closed)))))
             (ret True)))))"

subsection \<open>What it does\<close>

lemma scheduled_schedule [simp]: "scheduled_for d (schedule d b se) = b"
  by (cases d) simp_all

lemma schedule_fields [simp]:
  "se_state (schedule d b se) = se_state se" "se_client (schedule d b se) = se_client se"
  "se_remote (schedule d b se) = se_remote se" "se_id (schedule d b se) = se_id se"
  by (cases d; simp)+

text \<open>The descriptor and the pointer of a side that exists.\<close>

fun fd_of :: "side \<Rightarrow> session \<Rightarrow> int" where
  "fd_of ClientSide se = se_client se"
| "fd_of RemoteSide se = (case se_remote se of Some r \<Rightarrow> rs_fd r | None \<Rightarrow> -1)"

fun ptr_of :: "side \<Rightarrow> session \<Rightarrow> ptr" where
  "ptr_of ClientSide se = PClient (se_id se)"
| "ptr_of RemoteSide se = PRemote (se_id se)"

lemma side_socket_exec:
  assumes "se_remote (sess s) \<noteq> None"
  shows "side_socket d s = (Inr (fd_of d (sess s), ptr_of d (sess s)), s)"
  using assms
  by (cases d) (auto simp: gets_def the_remote_def bnd_def split: option.splits)

lemma side_send_eq: "side_send d fd b = sys_send fd (mb_data b)"
  by (cases d) (simp_all add: hook_defs SessionSocket_send_def)

text \<open>\<open>watch\<close> as one call.\<close>

abbreviation mod_event :: "side \<Rightarrow> session \<Rightarrow> u32 \<Rightarrow> syscall" where
  "mod_event d se flags \<equiv> Sys_epoll_ctl EPOLL_CTL_MOD (fd_of d se) (ptr_of d se) flags"

lemma watch_exec:
  assumes "se_remote (sess s) \<noteq> None"
  shows "watch d flags s = (Inr (), after (mod_event d (sess s) flags) s)"
  using assms
  by (simp add: watch_def bnd_def side_socket_exec set_event_def epoll_ctl_def sys_int_def syscall_def Let_def)

lemma save_rest_exec:
  assumes b: "mb_ptr b = Some m" and wf: "mb_wf (scheduled_for d (sess s))"
    and cap: "mb_ptr (scheduled_for d (sess s)) = None \<or> mb_cap (scheduled_for d (sess s)) = SESSION_BUFFER"
    and n: "n \<le> SESSION_BUFFER"
  obtains q where "save_rest d (Some b) k n s = (Inr (), s\<lparr>sess := schedule d q (sess s)\<rparr>)"
    and "mb_wf q" and "mb_cap q = SESSION_BUFFER" and "mb_ptr q \<noteq> None"
    and "mb_data q = mem_read m k n"
proof -
  let ?sched = "scheduled_for d (sess s)" and ?junk = "stack s (trace s)"
  let ?q = "if mb_ptr ?sched = None then MemoryBuffer ?junk 0 SESSION_BUFFER else ?sched"
  have q: "mb_wf ?q" "mb_cap ?q = SESSION_BUFFER"
    using wf cap by (auto simp: MemoryBuffer_def mb_wf_def)
  obtain q' where c: "copy_from (\<lambda>i. m (k + i)) n ?q = (Inr (min n (mb_cap ?q)), q')"
    and q': "mb_wf q'" "mb_cap q' = mb_cap ?q" "mb_data q' = mem_read (\<lambda>i. m (k + i)) 0 (min n (mb_cap ?q))"
    by (rule copy_from_wf [OF q(1)])
  have "mem_read (\<lambda>i. m (k + i)) 0 (min n (mb_cap ?q)) = mem_read m k n"
    using n q(2) by (simp add: mem_read_def)
  moreover have "mb_ptr q' \<noteq> None"
    using q' q(2) by (auto simp: mb_wf_def SESSION_BUFFER_def)
  moreover have "save_rest d (Some b) k n s = (Inr (), s\<lparr>sess := schedule d q' (sess s)\<rparr>)"
    using c b by (simp add: save_rest_def bnd_def uninit_def gets_def sets_def Let_def)
  ultimately show ?thesis using that q' q(2) by simp
qed

text \<open>What the socket took of the data, by the kernel's answer.\<close>

definition taken :: "sysret \<Rightarrow> bytes \<Rightarrow> bytes" where
  "taken r d = (if sr_ok r then take (sr_val r) d else [])"

definition would_block :: "sysret \<Rightarrow> bool" where
  "would_block r \<longleftrightarrow> \<not> sr_ok r \<and> (sr_errno r = EWOULDBLOCK \<or> sr_errno r = EAGAIN)"

abbreviation send_answer :: "side \<Rightarrow> bytes \<Rightarrow> sstate \<Rightarrow> sysret" where
  "send_answer d bs s \<equiv> os s (trace s) (Sys_send (fd_of d (sess s)) bs)"

text \<open>Nothing scheduled and a buffer to send: the three outcomes.\<close>

lemma send_fresh:
  fixes s :: sstate
  assumes rem: "se_remote (sess s) \<noteq> None" and idle: "mb_size (scheduled_for d (sess s)) = 0"
    and b: "mb_ptr b = Some m" "mb_size b \<le> SESSION_BUFFER"
    and wf: "mb_wf (scheduled_for d (sess s))"
    and cap: "mb_ptr (scheduled_for d (sess s)) = None \<or> mb_cap (scheduled_for d (sess s)) = SESSION_BUFFER"
    and r: "r = send_answer d (mb_data b) s"
    and s1: "s1 = after (Sys_send (fd_of d (sess s)) (mb_data b)) s"
  shows "taken r (mb_data b) = mb_data b \<Longrightarrow> sr_ok r \<Longrightarrow> session_socket_send d (Some b) s = (Inr True, s1)"
    and "\<not> sr_ok r \<Longrightarrow> \<not> would_block r \<Longrightarrow> session_socket_send d (Some b) s = (Inr False, s1)"
    and "(sr_ok r \<and> taken r (mb_data b) \<noteq> mb_data b) \<or> would_block r \<Longrightarrow>
      \<exists>q. session_socket_send d (Some b) s =
        (let s2 = s1\<lparr>sess := schedule d q (sess s)\<rparr>;
             s3 = after (mod_event d (sess s) (Ev_Write OR Ev_Closed)) s2
         in (Inr True, after (mod_event (other_side d) (sess s) Ev_Closed) s3))
      \<and> mb_wf q \<and> mb_cap q = SESSION_BUFFER \<and> mb_ptr q \<noteq> None
      \<and> taken r (mb_data b) @ mb_data q = mb_data b"
proof -
  let ?sched = "scheduled_for d (sess s)" and ?n = "mb_size b"
  let ?res = "if sr_ok r then int (min (sr_val r) ?n) else -1"
  have len: "length (mb_data b) = ?n" using b by (simp add: length_mb_data)
  have data: "mb_data b = mem_read m 0 ?n" using b(1) by (rule mb_data_Some)
  have s1_sess: "sess s1 = sess s" and s1_errno: "errno s1 = (if sr_ok r then errno s else sr_errno r)"
    using s1 r by simp_all
  define res where "res = ?res"
  have sent: "side_send d (fd_of d (sess s)) b s = (Inr res, s1)"
    using len r s1 by (simp add: side_send_eq sys_send_def bnd_def syscall_def Let_def res_def)
  have run: "session_socket_send d (Some b) s =
      (if res \<noteq> int ?n then
         if res = -1 \<and> errno s1 \<noteq> EWOULDBLOCK \<and> errno s1 \<noteq> EAGAIN then ret False
         else seq (save_rest d (Some b) (if res = -1 then 0 else nat res) (?n - (if res = -1 then 0 else nat res)))
             (seq (seq (watch d (Ev_Write OR Ev_Closed)) (watch (other_side d) Ev_Closed)) (ret True))
       else ret True) s1"
    using idle by (simp add: session_socket_send_def bnd_def gets_def side_socket_exec [OF rem] sent
        when_do_def Let_def)
  show "taken r (mb_data b) = mb_data b \<Longrightarrow> sr_ok r \<Longrightarrow> session_socket_send d (Some b) s = (Inr True, s1)"
    using run len by (simp add: taken_def res_def)
  show "\<not> sr_ok r \<Longrightarrow> \<not> would_block r \<Longrightarrow> session_socket_send d (Some b) s = (Inr False, s1)"
    using run s1_errno by (simp add: would_block_def res_def)
  assume rest: "(sr_ok r \<and> taken r (mb_data b) \<noteq> mb_data b) \<or> would_block r"
  let ?k = "length (taken r (mb_data b))"
  have k: "(if res = -1 then 0 else nat res) = ?k" and res: "res \<noteq> int ?n"
    using rest len by (auto simp: taken_def would_block_def res_def)
  have "\<not> (res = -1 \<and> errno s1 \<noteq> EWOULDBLOCK \<and> errno s1 \<noteq> EAGAIN)"
    using rest s1_errno by (auto simp: would_block_def res_def)
  with run res k have run': "session_socket_send d (Some b) s =
      seq (save_rest d (Some b) ?k (?n - ?k))
        (seq (seq (watch d (Ev_Write OR Ev_Closed)) (watch (other_side d) Ev_Closed)) (ret True)) s1"
    by simp
  have n: "?n - ?k \<le> SESSION_BUFFER" using b(2) by simp
  obtain q where q: "save_rest d (Some b) ?k (?n - ?k) s1 = (Inr (), s1\<lparr>sess := schedule d q (sess s1)\<rparr>)"
      "mb_wf q" "mb_cap q = SESSION_BUFFER" "mb_ptr q \<noteq> None" "mb_data q = mem_read m ?k (?n - ?k)"
    using save_rest_exec [OF b(1) _ _ n, of d s1 ?k] wf cap s1_sess by auto
  let ?s2 = "s1\<lparr>sess := schedule d q (sess s)\<rparr>"
  have f: "fd_of e (sess ?s2) = fd_of e (sess s)" "ptr_of e (sess ?s2) = ptr_of e (sess s)" for e
    by (cases e; simp)+
  have "taken r (mb_data b) @ mb_data q = mb_data b"
  proof -
    have "taken r (mb_data b) = take ?k (mb_data b)" by (simp add: taken_def min_def)
    then have "taken r (mb_data b) = mem_read m 0 ?k"
      using data len take_mem_read by (auto simp: taken_def)
    moreover have "?k \<le> ?n" using len by (simp add: taken_def)
    ultimately show ?thesis using data q(5) mem_read_append [of m 0 ?k "?n - ?k"] by simp
  qed
  moreover have "session_socket_send d (Some b) s =
        (let s2 = ?s2;
             s3 = after (mod_event d (sess s) (Ev_Write OR Ev_Closed)) s2
         in (Inr True, after (mod_event (other_side d) (sess s) Ev_Closed) s3))"
    using run' q(1) s1_sess rem f
    by (simp add: seq_def bnd_def watch_exec Let_def)
  ultimately show "\<exists>q. session_socket_send d (Some b) s =
        (let s2 = s1\<lparr>sess := schedule d q (sess s)\<rparr>;
             s3 = after (mod_event d (sess s) (Ev_Write OR Ev_Closed)) s2
         in (Inr True, after (mod_event (other_side d) (sess s) Ev_Closed) s3))
      \<and> mb_wf q \<and> mb_cap q = SESSION_BUFFER \<and> mb_ptr q \<noteq> None
      \<and> taken r (mb_data b) @ mb_data q = mb_data b"
    using q(2-4) by blast
qed

text \<open>A write event: something scheduled and no buffer. A part that is sent is a null pointer away.\<close>

lemma send_flush:
  fixes s :: sstate
  assumes rem: "se_remote (sess s) \<noteq> None" and busy: "mb_size (scheduled_for d (sess s)) > 0"
    and ptr: "mb_ptr (scheduled_for d (sess s)) \<noteq> None"
    and bs: "bs = mb_data (scheduled_for d (sess s))"
    and r: "r = send_answer d bs s" and s1: "s1 = after (Sys_send (fd_of d (sess s)) bs) s"
  shows "taken r bs = bs \<Longrightarrow> sr_ok r \<Longrightarrow> session_socket_send d None s =
        (let s2 = s1\<lparr>sess := schedule d (set_size 0 (scheduled_for d (sess s))) (sess s)\<rparr>;
             s3 = after (mod_event d (sess s) (Ev_Read OR Ev_Closed)) s2
         in (Inr True, after (mod_event (other_side d) (sess s) (Ev_Read OR Ev_Closed)) s3))"
    and "would_block r \<Longrightarrow> session_socket_send d None s = (Inr True, s1)"
    and "\<not> sr_ok r \<Longrightarrow> \<not> would_block r \<Longrightarrow> session_socket_send d None s = (Inr False, s1)"
    and "sr_ok r \<Longrightarrow> taken r bs \<noteq> bs \<Longrightarrow>
      fst (session_socket_send d None s) = Inl (UndefinedBehaviour ''null buffer'')"
proof -
  let ?sched = "scheduled_for d (sess s)"
  have len: "length bs = mb_size ?sched" using ptr bs by (simp add: length_mb_data)
  define res where "res = (if sr_ok r then int (min (sr_val r) (mb_size ?sched)) else -1)"
  have sent: "side_send d (fd_of d (sess s)) ?sched s = (Inr res, s1)"
    using len r s1 bs by (simp add: side_send_eq sys_send_def bnd_def syscall_def Let_def res_def)
  have s1_sess: "sess s1 = sess s" and s1_errno: "errno s1 = (if sr_ok r then errno s else sr_errno r)"
    using s1 r by simp_all
  have run: "session_socket_send d None s =
      (if res \<noteq> int (mb_size ?sched) then
         if res = -1 \<and> errno s1 \<noteq> EWOULDBLOCK \<and> errno s1 \<noteq> EAGAIN then ret False
         else seq (when_do (res \<noteq> -1)
                (save_rest d None (if res = -1 then 0 else nat res)
                   (mb_size ?sched - (if res = -1 then 0 else nat res)))) (ret True)
       else seq (seq (sets (schedule d (set_size 0 ?sched)))
                    (seq (watch d (Ev_Read OR Ev_Closed))
                         (watch (other_side d) (Ev_Read OR Ev_Closed)))) (ret True)) s1"
    using busy by (simp add: session_socket_send_def bnd_def gets_def side_socket_exec [OF rem] sent
        when_do_def Let_def)
  let ?s2 = "s1\<lparr>sess := schedule d (set_size 0 ?sched) (sess s)\<rparr>"
  have f: "fd_of e (sess ?s2) = fd_of e (sess s)" "ptr_of e (sess ?s2) = ptr_of e (sess s)" for e
    by (cases e; simp)+
  show "taken r bs = bs \<Longrightarrow> sr_ok r \<Longrightarrow> session_socket_send d None s =
        (let s2 = ?s2;
             s3 = after (mod_event d (sess s) (Ev_Read OR Ev_Closed)) s2
         in (Inr True, after (mod_event (other_side d) (sess s) (Ev_Read OR Ev_Closed)) s3))"
    using run len rem f s1_sess
    by (simp add: taken_def res_def seq_def bnd_def sets_def watch_exec Let_def)
  show "would_block r \<Longrightarrow> session_socket_send d None s = (Inr True, s1)"
    using run s1_errno by (simp add: would_block_def res_def when_do_def)
  show "\<not> sr_ok r \<Longrightarrow> \<not> would_block r \<Longrightarrow> session_socket_send d None s = (Inr False, s1)"
    using run s1_errno by (simp add: would_block_def res_def)
  show "fst (session_socket_send d None s) = Inl (UndefinedBehaviour ''null buffer'')"
    if "sr_ok r" "taken r bs \<noteq> bs"
  proof -
    have "res \<noteq> int (mb_size ?sched)" "res \<noteq> -1" using that len by (auto simp: taken_def res_def)
    then show ?thesis
      using run by (simp add: when_do_def save_rest_def seq_def bnd_def uninit_def gets_def Let_def)
  qed
qed

subsection \<open>Nothing is lost or reordered\<close>

text \<open>The bytes a socket has taken so far, and with what is scheduled the stream of a side.\<close>

definition delivered :: "int \<Rightarrow> history \<Rightarrow> bytes" where
  "delivered fd h = concat (map (\<lambda>(c, r). case c of
     Sys_send f bs \<Rightarrow> if f = fd then taken r bs else [] | _ \<Rightarrow> []) (rev h))"

definition stream :: "side \<Rightarrow> sstate \<Rightarrow> bytes" where
  "stream d s = delivered (fd_of d (sess s)) (trace s) @ mb_data (scheduled_for d (sess s))"

definition relay_inv :: "side \<Rightarrow> sstate \<Rightarrow> bool" where
  "relay_inv d s \<longleftrightarrow> se_remote (sess s) \<noteq> None \<and> mb_wf (scheduled_for d (sess s))
     \<and> (mb_ptr (scheduled_for d (sess s)) = None \<or> mb_cap (scheduled_for d (sess s)) = SESSION_BUFFER)"

definition relay_busy :: "side \<Rightarrow> sstate \<Rightarrow> bool" where
  "relay_busy d s \<longleftrightarrow> mb_size (scheduled_for d (sess s)) > 0"

text \<open>A read event with these bytes, and a write event, when the session goes on after it.\<close>

definition relay_push :: "side \<Rightarrow> bytes \<Rightarrow> sstate \<Rightarrow> sstate option" where
  "relay_push d bs s = (if length bs \<le> SESSION_BUFFER then
     (case session_socket_send d (Some (MemoryBuffer (bytes_mem bs) (length bs) SESSION_BUFFER)) s of
        (Inr True, s') \<Rightarrow> Some s' | _ \<Rightarrow> None) else None)"

definition relay_flush :: "side \<Rightarrow> sstate \<Rightarrow> sstate option" where
  "relay_flush d s = (case session_socket_send d None s of (Inr True, s') \<Rightarrow> Some s' | _ \<Rightarrow> None)"

text \<open>
  The contract, and runs under it: a source that is read only while nothing is scheduled
  (\<open>Some d\<close> is data that has been read) and write events while something is (\<open>None\<close>).
\<close>

fun relay_run :: "(bytes \<Rightarrow> 's \<Rightarrow> 's option) \<Rightarrow> ('s \<Rightarrow> 's option) \<Rightarrow> ('s \<Rightarrow> bool) \<Rightarrow>
    bytes option list \<Rightarrow> 's \<Rightarrow> 's option" where
  "relay_run push flush busy [] s = Some s"
| "relay_run push flush busy (Some d # es) s =
     (if busy s then None else Option.bind (push d s) (relay_run push flush busy es))"
| "relay_run push flush busy (None # es) s =
     (if busy s then Option.bind (flush s) (relay_run push flush busy es) else None)"

locale lossless_channel =
  fixes out :: "'s \<Rightarrow> bytes"
    and push :: "bytes \<Rightarrow> 's \<Rightarrow> 's option"
    and flush :: "'s \<Rightarrow> 's option"
    and busy :: "'s \<Rightarrow> bool"
    and ok :: "'s \<Rightarrow> bool"
  assumes push_out: "ok s \<Longrightarrow> \<not> busy s \<Longrightarrow> push d s = Some s' \<Longrightarrow> ok s' \<and> out s' = out s @ d"
    and flush_out: "ok s \<Longrightarrow> busy s \<Longrightarrow> flush s = Some s' \<Longrightarrow> ok s' \<and> out s' = out s"
begin

lemma run_out:
  "ok s \<Longrightarrow> relay_run push flush busy es s = Some s' \<Longrightarrow>
     ok s' \<and> out s' = out s @ concat (map (\<lambda>e. case e of Some d \<Rightarrow> d | None \<Rightarrow> []) es)"
proof (induction es arbitrary: s)
  case (Cons e es)
  show ?case
  proof (cases e)
    case None
    then obtain t where "busy s" "flush s = Some t" "relay_run push flush busy es t = Some s'"
      using Cons.prems(2) by (auto split: if_splits simp: Option.bind_eq_Some_conv)
    with None Cons.IH [of t] flush_out [of s t] Cons.prems(1) show ?thesis by simp
  next
    case (Some d)
    then obtain t where "\<not> busy s" "push d s = Some t" "relay_run push flush busy es t = Some s'"
      using Cons.prems(2) by (auto split: if_splits simp: Option.bind_eq_Some_conv)
    with Some Cons.IH [of t] push_out [of s d t] Cons.prems(1) show ?thesis by simp
  qed
qed simp

end

text \<open>The session's relay is such a channel, in both directions.\<close>

lemma delivered_Cons:
  "delivered fd ((c, r) # h) = delivered fd h @ (case c of
     Sys_send f bs \<Rightarrow> if f = fd then taken r bs else [] | _ \<Rightarrow> [])"
  by (simp add: delivered_def)

lemma idle_data: "\<not> relay_busy d s \<Longrightarrow> mb_data (scheduled_for d (sess s)) = []"
  by (auto simp: relay_busy_def mb_data.simps split: option.splits)

lemma fd_of_schedule [simp]: "fd_of e (schedule d q se) = fd_of e se"
  by (cases e) simp_all

lemma mb_data_bytes: "mb_data (MemoryBuffer (bytes_mem bs) (length bs) cap) = bs"
  by (simp add: mb_data_MemoryBuffer bytes_mem_def)

lemma stream_after_send:
  assumes "r = send_answer d bs s" and "se = sess s \<or> (\<exists>q. se = schedule d q (sess s))"
  shows "stream d ((after (Sys_send (fd_of d (sess s)) bs) s)\<lparr>sess := se\<rparr>)
       = delivered (fd_of d (sess s)) (trace s) @ taken r bs @ mb_data (scheduled_for d se)"
  using assms by (auto simp: stream_def delivered_Cons)

lemma stream_after_ctl: "stream d (after (Sys_epoll_ctl opr fd p fl) s) = stream d s"
  by (simp add: stream_def delivered_Cons)

text \<open>The step concerns one side: its buffer, sends to its socket and what the poller watches.\<close>

definition relay_call :: "int \<Rightarrow> syscall \<Rightarrow> bool" where
  "relay_call fd c = (case c of Sys_send f _ \<Rightarrow> f = fd | Sys_epoll_ctl _ _ _ _ \<Rightarrow> True | _ \<Rightarrow> False)"

definition one_side :: "side \<Rightarrow> sstate \<Rightarrow> sstate \<Rightarrow> bool" where
  "one_side d s t \<longleftrightarrow> (sess t = sess s \<or> (\<exists>q. sess t = schedule d q (sess s)))
     \<and> (\<exists>h. trace t = h @ trace s \<and> (\<forall>(c, r) \<in> set h. relay_call (fd_of d (sess s)) c))"

lemma one_sideI:
  assumes "sess t = sess s \<or> (\<exists>q. sess t = schedule d q (sess s))"
    and "trace t = h @ trace s" and "\<forall>(c, r) \<in> set h. relay_call (fd_of d (sess s)) c"
  shows "one_side d s t"
  using assms unfolding one_side_def by blast

lemma socket_send_out:
  fixes s :: sstate
  assumes inv: "relay_inv d s" and idle: "\<not> relay_busy d s"
    and b: "mb_ptr b = Some m" "mb_size b \<le> SESSION_BUFFER"
    and run: "session_socket_send d (Some b) s = (Inr True, s')"
  shows "relay_inv d s' \<and> stream d s' = stream d s @ mb_data b \<and> one_side d s s'"
proof -
  let ?bs = "mb_data b"
  let ?r = "send_answer d ?bs s" and ?s1 = "after (Sys_send (fd_of d (sess s)) ?bs) s"
  have st: "stream d s = delivered (fd_of d (sess s)) (trace s)"
    using idle_data [OF idle] by (simp add: stream_def)
  have pre: "se_remote (sess s) \<noteq> None" "mb_size (scheduled_for d (sess s)) = 0"
      "mb_ptr b = Some m" "mb_size b \<le> SESSION_BUFFER" "mb_wf (scheduled_for d (sess s))"
      "mb_ptr (scheduled_for d (sess s)) = None \<or> mb_cap (scheduled_for d (sess s)) = SESSION_BUFFER"
    using inv idle b by (auto simp: relay_inv_def relay_busy_def)
  note fresh = send_fresh [OF pre refl refl]
  consider "sr_ok ?r" "taken ?r ?bs = ?bs" | "\<not> sr_ok ?r" "\<not> would_block ?r"
    | "(sr_ok ?r \<and> taken ?r ?bs \<noteq> ?bs) \<or> would_block ?r" by blast
  then show ?thesis
  proof cases
    case 1
    have s': "s' = ?s1" using fresh(1) [OF 1(2,1)] run by auto
    have "one_side d s s'" unfolding s'
      by (rule one_sideI [where h = "[(Sys_send (fd_of d (sess s)) ?bs, ?r)]"]) (simp_all add: relay_call_def)
    then show ?thesis
      using 1 s' st inv idle_data [OF idle] stream_after_send [of ?r s d ?bs "sess s"] by (simp add: relay_inv_def)
  next
    case 2
    then show ?thesis using fresh(2) run by simp
  next
    case 3
    obtain q where q: "session_socket_send d (Some b) s =
        (let s2 = ?s1\<lparr>sess := schedule d q (sess s)\<rparr>;
             s3 = after (mod_event d (sess s) (Ev_Write OR Ev_Closed)) s2
         in (Inr True, after (mod_event (other_side d) (sess s) Ev_Closed) s3))"
      and wf: "mb_wf q" "mb_cap q = SESSION_BUFFER" and data: "taken ?r ?bs @ mb_data q = ?bs"
      using fresh(3) [OF 3] by blast
    let ?s2 = "?s1\<lparr>sess := schedule d q (sess s)\<rparr>"
    have s': "s' = after (mod_event (other_side d) (sess s) Ev_Closed)
        (after (mod_event d (sess s) (Ev_Write OR Ev_Closed)) ?s2)"
      using q run by (simp add: Let_def)
    have "stream d ?s2 = stream d s @ ?bs"
      using stream_after_send [of ?r s d ?bs, OF refl disjI2, OF exI, OF refl, of q] st data by simp
    then have "stream d s' = stream d s @ ?bs" unfolding s' stream_after_ctl .
    moreover have "relay_inv d s'" using inv wf unfolding s' by (simp add: relay_inv_def)
    moreover have "one_side d s s'"
    proof (rule one_sideI)
      show "trace s' = [(mod_event (other_side d) (sess s) Ev_Closed,
           os s (trace (after (mod_event d (sess s) (Ev_Write OR Ev_Closed)) ?s2)) (mod_event (other_side d) (sess s) Ev_Closed)),
         (mod_event d (sess s) (Ev_Write OR Ev_Closed), os s (trace ?s2) (mod_event d (sess s) (Ev_Write OR Ev_Closed))),
         (Sys_send (fd_of d (sess s)) ?bs, ?r)] @ trace s"
        by (simp add: s')
    qed (auto simp: s' relay_call_def)
    ultimately show ?thesis by simp
  qed
qed

lemma relay_push_out:
  fixes s :: sstate
  assumes "relay_inv d s" and "\<not> relay_busy d s" and "relay_push d bs s = Some s'"
  shows "relay_inv d s' \<and> stream d s' = stream d s @ bs"
proof -
  let ?b = "MemoryBuffer (bytes_mem bs) (length bs) SESSION_BUFFER"
  have "mb_ptr ?b = Some (bytes_mem bs)" "mb_size ?b \<le> SESSION_BUFFER" "session_socket_send d (Some ?b) s = (Inr True, s')"
    using assms(3) by (auto simp: relay_push_def MemoryBuffer_def split: if_splits prod.splits sum.splits bool.splits)
  from socket_send_out [OF assms(1,2) this] show ?thesis by (simp add: mb_data_bytes)
qed

lemma socket_flush_out:
  fixes s :: sstate
  assumes inv: "relay_inv d s" and busy: "relay_busy d s" and run: "session_socket_send d None s = (Inr True, s')"
  shows "relay_inv d s' \<and> stream d s' = stream d s \<and> one_side d s s'"
proof -
  let ?q = "scheduled_for d (sess s)" and ?bs = "mb_data (scheduled_for d (sess s))"
  let ?r = "send_answer d ?bs s" and ?s1 = "after (Sys_send (fd_of d (sess s)) ?bs) s"
  have pre: "se_remote (sess s) \<noteq> None" "mb_size ?q > 0" "mb_ptr ?q \<noteq> None"
    using inv busy by (auto simp: relay_inv_def relay_busy_def mb_wf_def)
  note flush = send_flush [OF pre refl refl refl]
  consider "sr_ok ?r" "taken ?r ?bs = ?bs" | "sr_ok ?r" "taken ?r ?bs \<noteq> ?bs"
    | "would_block ?r" | "\<not> sr_ok ?r" "\<not> would_block ?r" by blast
  then show ?thesis
  proof cases
    case 1
    let ?s2 = "?s1\<lparr>sess := schedule d (set_size 0 ?q) (sess s)\<rparr>"
    let ?ev = "Ev_Read OR Ev_Closed"
    have s': "s' = after (mod_event (other_side d) (sess s) ?ev) (after (mod_event d (sess s) ?ev) ?s2)"
      using flush(1) [OF 1(2,1)] run by (simp add: Let_def)
    have "mb_data (set_size 0 ?q) = []" by (simp add: set_size_def mb_data.simps split: option.split)
    then have "stream d ?s2 = stream d s"
      using stream_after_send [of ?r s d ?bs, OF refl disjI2, OF exI, OF refl, of "set_size 0 ?q"] 1(2)
      by (simp add: stream_def)
    then have "stream d s' = stream d s" unfolding s' stream_after_ctl .
    moreover have "relay_inv d s'" unfolding s' using inv
      by (simp add: relay_inv_def mb_wf_set_size_0) (simp add: set_size_def)
    moreover have "one_side d s s'"
    proof (rule one_sideI)
      show "trace s' = [(mod_event (other_side d) (sess s) ?ev,
           os s (trace (after (mod_event d (sess s) ?ev) ?s2)) (mod_event (other_side d) (sess s) ?ev)),
         (mod_event d (sess s) ?ev, os s (trace ?s2) (mod_event d (sess s) ?ev)),
         (Sys_send (fd_of d (sess s)) ?bs, ?r)] @ trace s"
        by (simp add: s')
    qed (auto simp: s' relay_call_def)
    ultimately show ?thesis by simp
  next
    case 2
    then show ?thesis using flush(4) run by simp
  next
    case 3
    have s': "s' = ?s1" using flush(2) [OF 3] run by auto
    have "one_side d s s'" unfolding s'
      by (rule one_sideI [where h = "[(Sys_send (fd_of d (sess s)) ?bs, ?r)]"]) (simp_all add: relay_call_def)
    then show ?thesis
      using 3 s' inv stream_after_send [of ?r s d ?bs "sess s"]
      by (simp add: relay_inv_def taken_def would_block_def stream_def)
  next
    case 4
    then show ?thesis using flush(3) run by simp
  qed
qed

lemma relay_flush_out:
  fixes s :: sstate
  assumes "relay_inv d s" and "relay_busy d s" and "relay_flush d s = Some s'"
  shows "relay_inv d s' \<and> stream d s' = stream d s"
  using socket_flush_out [OF assms(1,2), of s'] assms(3)
  by (auto simp: relay_flush_def split: prod.splits sum.splits bool.splits)

interpretation relay: lossless_channel "stream d" "relay_push d" "relay_flush d" "relay_busy d" "relay_inv d"
  for d
  by unfold_locales (auto dest: relay_push_out relay_flush_out)

end
