(* ===== verification/Handlers.thy ===== *)
theory Handlers
  imports Relay
begin

section \<open>The handlers of a session\<close>

text \<open>
  The rest of \<open>server/session.cxx\<close> and \<open>server/remote_socket.cxx\<close>: from the greeting to the
  relay. Every definition is one function of the source; the result is the \<open>bool\<close> that tells
  the server whether the session goes on.
\<close>

subsection \<open>Connecting to the destination\<close>

definition remote_connected :: "unit ses" where
  "remote_connected = bnd the_remote (\<lambda>r. bnd (gets se_id) (\<lambda>n.
     bnd (set_event (rs_fd r) (PRemote n) (Ev_Read OR Ev_Closed) True) (\<lambda>_. set_state Connected)))"

text \<open>The reply is sent after the state has changed; only a result 0 of the call fails it.\<close>

definition reply_remote_connection :: "reply \<Rightarrow> addr_type \<Rightarrow> mem \<Rightarrow> u16 \<Rightarrow> bool ses" where
  "reply_remote_connection r t address port = bnd (gets se_state) (\<lambda>st.
     if st \<noteq> ConnectingRemote then ret False
     else seq (when_do (r = Rep_Success) remote_connected)
       (bnd (gets se_client) (\<lambda>fd. bnd (send_reply fd r t address port) (\<lambda>ok.
          ret (ok \<and> r = Rep_Success)))))"

definition addr_type_of_ip :: "ipaddress \<Rightarrow> addr_type" where
  "addr_type_of_ip a = (if ia_version a = IPv4 then AT_IPv4 else AT_IPv6)"

definition set_remote :: "remotesock \<Rightarrow> unit ses" where
  "set_remote r = sets (\<lambda>se. se\<lparr>se_remote := Some r\<rparr>)"

text \<open>\<open>vector::at\<close> with a \<open>size_t\<close>.\<close>

definition vector_at :: "'a list \<Rightarrow> 64 word \<Rightarrow> ('s, 'a) exec" where
  "vector_at xs i = (if unat i < length xs then ret (xs ! unat i) else throw OutOfRange)"

definition try_connect_next :: "bool ses" where
  "try_connect_next = bnd the_remote (\<lambda>r. let idx = rs_idx r + 1 in
     seq (set_remote (r\<lparr>rs_idx := idx\<rparr>))
     (case rs_addresses r of
        None \<Rightarrow> throw (UndefinedBehaviour ''null addresses'')
      | Some addresses \<Rightarrow>
          if unat idx \<le> length addresses then
            bnd (vector_at addresses (if unat idx = length addresses then idx - 1 else idx)) (\<lambda>addr.
              if unat idx = length addresses then
                bnd (reply_remote_connection Rep_Unreachable (addr_type_of_ip addr)
                       (bytes_mem (ia_storage addr)) (ia_port addr)) (\<lambda>_. ret False)
              else bnd (Socket_connect (rs_fd r) (ia_sockaddr addr) (sa_len (ia_sockaddr addr))) (\<lambda>res.
                bnd (asks errno) (\<lambda>err.
                  if res < 0 \<and> err \<noteq> EWOULDBLOCK \<and> err \<noteq> EAGAIN \<and> err \<noteq> EINPROGRESS then
                    bnd (reply_remote_connection Rep_GeneralFailure (addr_type_of_ip addr)
                           (bytes_mem (ia_storage addr)) (ia_port addr)) (\<lambda>_. ret False)
                  else ret True)))
          else ret False))"

definition could_connect :: "bool ses" where
  "could_connect = bnd the_remote (\<lambda>r.
     seq (set_remote (r\<lparr>rs_connected := True\<rparr>))
     (case rs_addresses r of
        None \<Rightarrow> throw (UndefinedBehaviour ''null addresses'')
      | Some addresses \<Rightarrow> bnd (vector_at addresses (rs_idx r)) (\<lambda>addr.
          seq (set_remote (r\<lparr>rs_connected := True, rs_addresses := None\<rparr>))
          (bnd (get_peer_address (rs_fd r)) (\<lambda>info.
           seq (set_remote (r\<lparr>rs_connected := True, rs_addresses := None, rs_info := info\<rparr>))
             (reply_remote_connection Rep_Success (addr_type_of_ip addr)
                (bytes_mem (ia_storage addr)) (ia_port addr)))))))"

subsection \<open>Events of the remote socket\<close>

definition process_remote :: "membuf \<Rightarrow> sockaddr option \<Rightarrow> bool ses" where
  "process_remote buffer addr = bnd (gets se_state) (\<lambda>st. case st of
     Connected \<Rightarrow> bnd the_remote (\<lambda>_. session_socket_send ClientSide (Some buffer))
   | Associated \<Rightarrow> bnd the_udp (\<lambda>u. case addr of
       None \<Rightarrow> throw (UndefinedBehaviour ''uninitialised address'')
     | Some a \<Rightarrow> bnd (UDPSocket_send_to u buffer a) (\<lambda>n. ret (n \<noteq> 0)))
   | _ \<Rightarrow> ret False)"

text \<open>A local buffer of the session's size.\<close>

definition local_buffer :: "membuf ses" where
  "local_buffer = bnd uninit (\<lambda>junk. ret (MemoryBuffer junk 0 SESSION_BUFFER))"

definition process_remote_event :: "u32 \<Rightarrow> bool ses" where
  "process_remote_event flags =
     (if flags AND Ev_Closed \<noteq> 0 then bnd the_remote (\<lambda>_. ret False)
      else bnd the_remote (\<lambda>r.
        if flags AND Ev_Error \<noteq> 0 then
          if \<not> rs_connected r then try_connect_next else ret False
        else if flags AND Ev_Write \<noteq> 0 then
          if \<not> rs_connected r then could_connect else session_socket_send RemoteSide None
        else bnd local_buffer (\<lambda>buffer. bnd (gets se_state) (\<lambda>st.
          bnd (case st of
              Connected \<Rightarrow> bnd (hook_remote_recv (rs_fd r) buffer) (\<lambda>(n, b). ret (n, b, None))
            | Associated \<Rightarrow> hook_udp_recv_from r buffer
            | _ \<Rightarrow> ret (-1, buffer, None)) (\<lambda>(status, buffer, addr).
          if status = 0 then ret False
          else if status = -1 then ret False
          else process_remote buffer addr)))))"

subsection \<open>Commands\<close>

definition connect_remote :: "int \<Rightarrow> ipaddress list \<Rightarrow> bool ses" where
  "connect_remote fd addresses = bnd (asks params) (\<lambda>p. bnd (gets se_id) (\<lambda>n.
     bnd (RemoteSocket_new fd (Some addresses)) (\<lambda>r.
     seq (set_remote r)
     (bnd (set_nodelay fd (remote_tcp_nodelay p)) (\<lambda>_.
      bnd (set_keepalive fd (remote_tcp_keepalive p)) (\<lambda>_.
      seq (set_state ConnectingRemote)
      (bnd (process_remote_event Ev_Error) (\<lambda>ok.
         if \<not> ok then ret False
         else bnd (set_event fd (PRemote n) (Ev_Write OR Ev_Closed) False) (\<lambda>_. ret True)))))))))"

text \<open>
  \<open>cl_sock\<close> is bound to the address the client reached the server at, with a port of the
  kernel's choice, which the reply tells the client.
\<close>

definition associate :: "int \<Rightarrow> int \<Rightarrow> bool ses" where
  "associate cl_sock rm_sock = bnd (gets se_client) (\<lambda>fd. bnd (gets se_id) (\<lambda>n.
     bnd (get_bound_address fd) (\<lambda>client_bound_info.
     let (bind_addr, bind_addr_len) = SocketInfo_to client_bound_info in
     bnd (Socket_bind cl_sock (sa_clear_port bind_addr) bind_addr_len) (\<lambda>r.
       if r = -1 then ret False
       else bnd (catch_all (bnd (get_bound_address cl_sock) (\<lambda>i. ret (Some i))) (ret None)) (\<lambda>info.
         case info of
           None \<Rightarrow> ret False
         | Some bound_info \<Rightarrow>
           bnd (send_reply fd Rep_Success
                 (if si_version bound_info = IPv4 then AT_IPv4 else AT_IPv6)
                 (bytes_mem (si_ip bound_info)) (ntohs (si_port bound_info))) (\<lambda>ok.
             if \<not> ok then ret False
             else bnd (gets se_peer) (\<lambda>peer. bnd (UDPSocket_new cl_sock peer) (\<lambda>u.
               seq (sets (\<lambda>se. se\<lparr>se_udp := Some u\<rparr>))
               (bnd (set_event cl_sock (PUdp n) (Ev_Read OR Ev_Closed) False) (\<lambda>_.
                bnd (RemoteSocket_new rm_sock None) (\<lambda>rem.
                seq (set_remote rem)
                (bnd (set_event rm_sock (PRemote n) (Ev_Read OR Ev_Closed) False) (\<lambda>_.
                 seq (set_state Associated) (ret True))))))))))))))"

text \<open>Sockets that were not handed on are closed when the command returns.\<close>

definition do_command :: "ipaddress list \<Rightarrow> bool ses" where
  "do_command addresses = (case addresses of
     [] \<Rightarrow> ret False
   | a # _ \<Rightarrow> bnd (gets se_command) (\<lambda>cmd. case cmd of
       Cmd_Connect \<Rightarrow>
         bnd (if ia_version a = IPv4 then open_tcp else open_tcp6) (\<lambda>sock.
         bnd (connect_remote sock addresses) (\<lambda>_. ret True))
     | Cmd_UdpAssociate \<Rightarrow>
         bnd (if ia_version a = IPv4 then open_udp else open_udp6) (\<lambda>cl_sock.
         bnd (if ia_version a = IPv4 then open_udp else open_udp6) (\<lambda>rm_sock.
         bnd (associate cl_sock rm_sock) (\<lambda>ok.
           if ok then ret True
           else bnd (Socket_close rm_sock) (\<lambda>_. bnd (Socket_close cl_sock) (\<lambda>_. ret False)))))
     | _ \<Rightarrow> ret True))"

subsection \<open>Messages of the client\<close>

definition block_of :: "membuf \<Rightarrow> mem ses" where
  "block_of b = (case mb_ptr b of
     None \<Rightarrow> throw (UndefinedBehaviour ''null buffer'') | Some m \<Rightarrow> ret m)"

text \<open>None of the three looks at how many bytes were received.\<close>

definition check_version :: "membuf \<Rightarrow> bool ses" where
  "check_version buffer = bnd (block_of buffer) (\<lambda>data.
     if data 0 = 5 then ret True
     else bnd (gets se_client) (\<lambda>fd. bnd (send_auth fd AuthInvalid) (\<lambda>_. ret False)))"

fun select_method :: "auth_method \<Rightarrow> bytes \<Rightarrow> auth_method" where
  "select_method wanted [] = AuthInvalid"
| "select_method wanted (b # bs) =
     (if auth_method_of b = wanted then auth_method_of b else select_method wanted bs)"

definition request_auth :: "membuf \<Rightarrow> bool ses" where
  "request_auth buffer = bnd (block_of buffer) (\<lambda>data. bnd (asks params) (\<lambda>p.
     bnd (gets se_client) (\<lambda>fd.
     let selected = select_method (get_auth_method p) (mem_read data 2 (unat (data 1))) in
     bnd (send_auth fd selected) (\<lambda>ok.
       if \<not> ok then ret False
       else if selected \<noteq> get_auth_method p then ret False
       else seq (if selected = NoAuth then set_state Authenticated
                 else when_do (selected = UserPass) (set_state AuthRequested))
              (ret True)))))"

text \<open>The comparisons are of \<open>size_t\<close>, which wraps below 0.\<close>

definition handle_auth :: "membuf \<Rightarrow> bool ses" where
  "handle_auth buffer = bnd (block_of buffer) (\<lambda>data. bnd (asks params) (\<lambda>p.
     bnd (gets se_client) (\<lambda>fd.
     let data_size = (of_nat (mb_size buffer) :: 64 word); username_len = data 1 in
     if ucast username_len > data_size - 2 then ret False
     else let password_len = data (2 + unat username_len) in
     if ucast password_len > data_size - ucast username_len - 3 then ret False
     else let user = mem_read data 2 (unat username_len);
              pass = mem_read data (3 + unat username_len) (unat password_len) in
     if \<not> authenticate p user pass then bnd (send_auth_status fd 0xFF) (\<lambda>_. ret False)
     else bnd (send_auth_status fd 0x00) (\<lambda>_. seq (set_state Authenticated) (ret True)))))"

text \<open>A reply that repeats the address of the client's message.\<close>

definition refuse_command :: "reply \<Rightarrow> mem \<Rightarrow> bool ses" where
  "refuse_command r data = bnd (gets se_client) (\<lambda>fd. let address = S5R_get_address 0 in
     send_reply fd r (S5Address_get_type data address)
       (\<lambda>i. data (S5Address_get_address address + i)) (S5Address_get_port data address))"

definition check_command :: "membuf \<Rightarrow> bool ses" where
  "check_command buffer = bnd (block_of buffer) (\<lambda>data.
     let command = S5CommandMessage_get_command data 0 in
     seq (sets (\<lambda>se. se\<lparr>se_command := command\<rparr>))
       (case command of
          Cmd_Connect \<Rightarrow> ret True
        | Cmd_UdpAssociate \<Rightarrow> ret True
        | _ \<Rightarrow> bnd (refuse_command Rep_CommandNotSupported data) (\<lambda>_. ret False)))"

definition resolve_domain_name :: "membuf \<Rightarrow> bool ses" where
  "resolve_domain_name buffer = bnd (gets se_dns) (\<lambda>dns. bnd (asks params) (\<lambda>p.
     if length dns \<ge> MAX_DNS_SOCKETS then ret False
     else if dns_ip p = [] then ret False
     else bnd uninit (\<lambda>junk. bnd (asks inet_pton) (\<lambda>pton.
       case IPAddress_of_string pton junk (dns_ip p) (dns_port p) False of
         Inl e \<Rightarrow> throw e
       | Inr dns_address \<Rightarrow>
         bnd (if ia_version dns_address = IPv4 then open_udp else open_udp6) (\<lambda>sock.
         bnd (block_of buffer) (\<lambda>data. bnd (gets se_id) (\<lambda>n.
         let address = S5R_get_address 0;
             name = S5Address_get_address address;
             domain_name = mem_read data (name + 1) (unat (data name));
             port = S5Address_get_port data address in
         seq (sets (\<lambda>se. se\<lparr>se_domain := domain_name\<rparr>))
         (case DnsSocket_new sock domain_name port None of
            Inl e \<Rightarrow> throw e
          | Inr dns_socket \<Rightarrow>
            seq (sets (\<lambda>se. se\<lparr>se_dns := se_dns se @ [dns_socket]\<rparr>))
            (bnd (set_event sock (PDns n (length dns)) (Ev_Read OR Ev_Closed) False) (\<lambda>_.
             seq (set_state ResolvingDomainName)
             (bnd (DnsSocket_query dns_socket dns_address) (\<lambda>status.
                if status = 0 then ret False
                else if status = -1 then ret False
                else ret (status > 0)))))))))))))"

text \<open>The addresses (or the null pointer) and \<open>is_domain_name\<close>.\<close>

definition resolve_address :: "membuf \<Rightarrow> (ipaddress list option \<times> bool) ses" where
  "resolve_address buffer = bnd (block_of buffer) (\<lambda>data.
     let address = S5R_get_address 0; t = S5Address_get_type data address in
     case t of
       AT_DomainName \<Rightarrow> bnd (resolve_domain_name buffer) (\<lambda>is_domain_name.
         seq (when_do (\<not> is_domain_name)
                (bnd (refuse_command Rep_AddrTypeNotSupported data) (\<lambda>_. ret ())))
           (ret (None, is_domain_name)))
     | _ \<Rightarrow>
       if t = AT_IPv4 \<or> t = AT_IPv6 then
         bnd uninit (\<lambda>junk.
           ret (Some [IPAddress_of_bytes junk (if t = AT_IPv4 then IPv4 else IPv6)
                  (\<lambda>i. data (S5Address_get_address address + i))
                  (S5Address_get_port data address) False], False))
       else bnd (refuse_command Rep_AddrTypeNotSupported data) (\<lambda>_. ret (None, False)))"

subsection \<open>Events of the client's sockets\<close>

definition process_client :: "membuf \<Rightarrow> (sockaddr \<times> nat) option \<Rightarrow> bool ses" where
  "process_client buffer addr = bnd (gets se_state) (\<lambda>st. case st of
     Accepted \<Rightarrow> bnd (check_version buffer) (\<lambda>ok. if ok then request_auth buffer else ret False)
   | AuthRequested \<Rightarrow> handle_auth buffer
   | Authenticated \<Rightarrow> bnd (check_command buffer) (\<lambda>ok.
       if \<not> ok then ret False
       else bnd (resolve_address buffer) (\<lambda>(addresses, is_domain_name).
         if is_domain_name then ret True
         else case addresses of None \<Rightarrow> ret False | Some as \<Rightarrow> do_command as))
   | ResolvingDomainName \<Rightarrow> ret False
   | Connected \<Rightarrow> bnd the_remote (\<lambda>_. session_socket_send RemoteSide (Some buffer))
   | Associated \<Rightarrow> bnd the_remote (\<lambda>r. bnd (hook_udp_send_to r buffer addr) (\<lambda>n. ret (n \<noteq> 0)))
   | _ \<Rightarrow> ret False)"

definition process_client_event :: "u32 \<Rightarrow> bool ses" where
  "process_client_event flags =
     (if flags AND (Ev_Closed OR Ev_Error) \<noteq> 0 then ret False
      else if flags AND Ev_Write \<noteq> 0 then session_socket_send ClientSide None
      else bnd local_buffer (\<lambda>buffer. bnd (gets se_client) (\<lambda>fd.
        bnd (hook_client_recv fd buffer) (\<lambda>(status, buffer).
          if status = 0 then ret False
          else if status = -1 then ret False
          else process_client buffer None))))"

definition process_udp_event :: "u32 \<Rightarrow> bool ses" where
  "process_udp_event flags =
     (if flags AND (Ev_Closed OR Ev_Error) \<noteq> 0 then ret False
      else bnd local_buffer (\<lambda>buffer. bnd the_udp (\<lambda>u.
        bnd (UDPSocket_recv_from u buffer) (\<lambda>(status, buffer, addr, u').
          seq (sets (\<lambda>se. se\<lparr>se_udp := Some u'\<rparr>))
            (if status = 0 then ret True
             else if status = -1 then ret False
             else process_client buffer addr)))))"

text \<open>\<open>dns_socket\<close> is the session's socket of this number.\<close>

definition process_dns_event :: "u32 \<Rightarrow> nat \<Rightarrow> bool ses" where
  "process_dns_event flags i =
     (if flags AND (Ev_Closed OR Ev_Error) \<noteq> 0 then ret False
      else bnd (gets se_dns) (\<lambda>dns.
        if i \<ge> length dns then throw (UndefinedBehaviour ''no such dns socket'')
        else bnd (DnsSocket_get_response (dns ! i)) (\<lambda>(status, addresses).
          bnd (remove_event (ds_fd (dns ! i))) (\<lambda>_.
            if status = 0 then ret False
            else if status = -1 then ret False
            else do_command addresses))))"

end
