(* ===== verification/SessionRules.thy ===== *)
theory SessionRules
  imports Handlers
begin

section \<open>Invariants of a session's handlers\<close>

text \<open>
  One contract for everything that is preserved by the handlers: a property \<open>P\<close> of the state
  that system calls and updates of the session's data preserve, and the states \<open>S\<close> the
  session may be set to. Under it every handler keeps \<open>P\<close>, whether it returns or faults,
  provided that the states it sets are in \<open>S\<close>.
\<close>

lemma keeps_sum [intro]:
  "(\<And>e. v = Inl e \<Longrightarrow> keeps P (g e)) \<Longrightarrow> (\<And>x. v = Inr x \<Longrightarrow> keeps P (f x)) \<Longrightarrow>
     keeps P (case v of Inl e \<Rightarrow> g e | Inr x \<Rightarrow> f x)"
  by (cases v) simp_all

lemma keeps_prod [intro]: "(\<And>x y. keeps P (f x y)) \<Longrightarrow> keeps P (case v of (x, y) \<Rightarrow> f x y)"
  by (cases v) simp

lemma keeps_by_command [intro]:
  "\<lbrakk>keeps P a; keeps P b; keeps P c; keeps P d; \<And>x. keeps P (e x)\<rbrakk> \<Longrightarrow>
   keeps P (case cmd of Cmd_Connect \<Rightarrow> a | Cmd_Bind \<Rightarrow> b | Cmd_UdpAssociate \<Rightarrow> c
     | Cmd_Invalid \<Rightarrow> d | Cmd_Other x \<Rightarrow> e x)"
  by (cases cmd) simp_all

lemma keeps_by_type [intro]:
  "\<lbrakk>keeps P a; keeps P b; keeps P c; keeps P d; \<And>x. keeps P (e x)\<rbrakk> \<Longrightarrow>
   keeps P (case t of AT_IPv4 \<Rightarrow> a | AT_DomainName \<Rightarrow> b | AT_IPv6 \<Rightarrow> c
     | AT_Invalid \<Rightarrow> d | AT_Other x \<Rightarrow> e x)"
  by (cases t) simp_all

lemma keeps_by_list [intro]:
  "keeps P a \<Longrightarrow> (\<And>x xs. keeps P (f x xs)) \<Longrightarrow> keeps P (case ys of [] \<Rightarrow> a | x # xs \<Rightarrow> f x xs)"
  by (cases ys) simp_all

lemma keeps_by_state [intro]:
  "\<lbrakk>keeps P a; keeps P b; keeps P c; keeps P d; keeps P e; keeps P f; keeps P g; keeps P h\<rbrakk> \<Longrightarrow>
   keeps P (case st of Accepted \<Rightarrow> a | AuthRequested \<Rightarrow> b | Authenticated \<Rightarrow> c
     | ResolvingDomainName \<Rightarrow> d | ConnectingRemote \<Rightarrow> e | Connected \<Rightarrow> f | Associated \<Rightarrow> g | Invalid \<Rightarrow> h)"
  by (cases st) simp_all

lemmas keeps_rules = keeps_bnd keeps_seq keeps_if keeps_when_do keeps_option keeps_sum keeps_prod
  keeps_by_command keeps_by_type keeps_by_list keeps_by_state keeps_catch_all keeps_for_each
  keeps_ret keeps_throw keeps_Pair keeps_asks keeps_uninit

lemmas plain_calls_keep = keeps_socket keeps_session_recv keeps_poller keeps_client_socket
  keeps_udp_socket keeps_dns_socket

lemma keeps_reads: "keeps P (gets f)" "keeps P the_remote" "keeps P the_udp" "keeps P local_buffer"
    "keeps P (block_of b)" "keeps P (vector_at xs i)"
  unfolding gets_def the_remote_def the_udp_def local_buffer_def block_of_def vector_at_def
  by (intro keeps_rules)+

lemma keeps_sets: "(\<And>s. P s \<Longrightarrow> P (s\<lparr>sess := f (sess s)\<rparr>)) \<Longrightarrow> keeps P (sets f)"
  by (simp add: keeps_def sets_def)

locale session_invariant =
  fixes P :: "sstate \<Rightarrow> bool" and S :: "sess_state set"
  assumes sys: "sys_closed P"
    and keeps_schedule: "P s \<Longrightarrow> P (s\<lparr>sess := schedule d b (sess s)\<rparr>)"
    and keeps_remote: "P s \<Longrightarrow> P (s\<lparr>sess := (sess s)\<lparr>se_remote := Some r\<rparr>\<rparr>)"
    and keeps_udp: "P s \<Longrightarrow> P (s\<lparr>sess := (sess s)\<lparr>se_udp := Some u\<rparr>\<rparr>)"
    and keeps_dns: "P s \<Longrightarrow> P (s\<lparr>sess := (sess s)\<lparr>se_dns := se_dns (sess s) @ [ds]\<rparr>\<rparr>)"
    and keeps_domain: "P s \<Longrightarrow> P (s\<lparr>sess := (sess s)\<lparr>se_domain := dname\<rparr>\<rparr>)"
    and keeps_command: "P s \<Longrightarrow> P (s\<lparr>sess := (sess s)\<lparr>se_command := cmd\<rparr>\<rparr>)"
    and keeps_state: "st \<in> S \<Longrightarrow> P s \<Longrightarrow> P (s\<lparr>sess := (sess s)\<lparr>se_state := st\<rparr>\<rparr>)"
begin

lemma set_state_keeps: "st \<in> S \<Longrightarrow> keeps P (set_state st)"
  unfolding set_state_def by (rule keeps_sets) (rule keeps_state)

lemma set_remote_keeps: "keeps P (set_remote r)"
  unfolding set_remote_def by (rule keeps_sets) (rule keeps_remote)

lemmas sockets_keep = plain_calls_keep [OF sys_closed_plain [OF sys]] keeps_events [OF sys]

lemmas rules = keeps_rules keeps_reads set_remote_keeps sockets_keep

lemma hooks_keep: "keeps P (hook_client_recv fd b)" "keeps P (hook_remote_recv fd b)"
  "keeps P (hook_client_send fd b)" "keeps P (hook_remote_send fd b)" "keeps P (hook_udp_recv_from r b)"
  "keeps P (hook_udp_send_to r b a)" "keeps P (RemoteSocket_new fd as)"
  unfolding hook_defs RemoteSocket_new_def by (intro rules)+

lemma side_keeps: "keeps P (side_socket d)" "keeps P (side_send d fd b)"
  by (cases d; simp; intro rules hooks_keep)+

lemma watch_keeps: "keeps P (watch d fl)"
  unfolding watch_def by (intro rules side_keeps)

lemma save_rest_keeps: "keeps P (save_rest d ob k n)"
  unfolding save_rest_def Let_def by (intro rules keeps_sets keeps_schedule)

lemma relay_keeps: "keeps P (session_socket_send d ob)"
  unfolding session_socket_send_def Let_def
  by (intro rules side_keeps watch_keeps save_rest_keeps keeps_sets keeps_schedule)

lemma remote_connected_keeps: "Connected \<in> S \<Longrightarrow> keeps P remote_connected"
  unfolding remote_connected_def by (intro rules set_state_keeps)

lemma reply_keeps:
  assumes "r = Rep_Success \<Longrightarrow> Connected \<in> S"
  shows "keeps P (reply_remote_connection r t a p)"
proof -
  have "keeps P (when_do (r = Rep_Success) remote_connected)"
    by (cases "r = Rep_Success") (simp_all add: when_do_def remote_connected_keeps assms)
  then show ?thesis
    unfolding reply_remote_connection_def
    by (intro keeps_bnd keeps_seq keeps_if keeps_ret keeps_reads sockets_keep)
qed

lemma try_connect_next_keeps: "keeps P try_connect_next"
  unfolding try_connect_next_def Let_def by (intro rules reply_keeps) simp_all

lemma could_connect_keeps:
  assumes "\<And>t a p. keeps P (reply_remote_connection Rep_Success t a p)"
  shows "keeps P could_connect"
  unfolding could_connect_def by (intro rules assms)

lemma process_remote_event_keeps:
  assumes "\<And>t a p. keeps P (reply_remote_connection Rep_Success t a p)"
  shows "keeps P (process_remote_event flags)"
  unfolding process_remote_event_def process_remote_def
  by (intro rules hooks_keep relay_keeps try_connect_next_keeps could_connect_keeps assms)

text \<open>The event \<open>connect_remote\<close> starts with is an error event, which connects nothing.\<close>

lemma start_connecting_keeps: "keeps P (process_remote_event Ev_Error)"
proof -
  have "Ev_Error AND Ev_Closed = 0" "Ev_Error AND Ev_Error \<noteq> 0" by (simp_all add: ev_defs)
  then show ?thesis
    unfolding process_remote_event_def by (simp, intro rules try_connect_next_keeps)
qed

lemma do_command_keeps:
  assumes "ConnectingRemote \<in> S" and "Associated \<in> S"
  shows "keeps P (do_command as)"
proof -
  have c: "keeps P (connect_remote fd as)" for fd as
    unfolding connect_remote_def
    by (intro rules hooks_keep set_state_keeps start_connecting_keeps assms)
  have a: "keeps P (associate c m)" for c m
    unfolding associate_def Let_def
    by (intro rules hooks_keep keeps_sets keeps_udp set_state_keeps assms)
  show ?thesis unfolding do_command_def by (intro rules c a)
qed

lemma check_version_keeps: "keeps P (check_version b)"
  unfolding check_version_def by (intro rules)

lemma request_auth_keeps: "Authenticated \<in> S \<Longrightarrow> AuthRequested \<in> S \<Longrightarrow> keeps P (request_auth b)"
  unfolding request_auth_def Let_def by (intro rules set_state_keeps)

lemma handle_auth_keeps: "Authenticated \<in> S \<Longrightarrow> keeps P (handle_auth b)"
  unfolding handle_auth_def Let_def by (intro rules set_state_keeps)

lemma check_command_keeps: "keeps P (check_command b)"
  unfolding check_command_def refuse_command_def Let_def by (intro rules keeps_sets keeps_command)

lemma resolve_address_keeps:
  assumes "ResolvingDomainName \<in> S"
  shows "keeps P (resolve_address b)"
proof -
  have r: "keeps P (refuse_command rep m)" for rep m
    unfolding refuse_command_def Let_def by (intro rules)
  have d: "keeps P (resolve_domain_name b)" for b
    unfolding resolve_domain_name_def Let_def DnsSocket_new_plain
    by (intro rules keeps_sets keeps_dns keeps_domain set_state_keeps assms)
  show ?thesis unfolding resolve_address_def Let_def by (intro rules r d)
qed

lemma process_client_keeps:
  assumes "{AuthRequested, Authenticated, ResolvingDomainName, ConnectingRemote, Associated} \<subseteq> S"
  shows "keeps P (process_client b addr)"
  unfolding process_client_def
  by (intro rules check_version_keeps request_auth_keeps handle_auth_keeps check_command_keeps
      resolve_address_keeps do_command_keeps relay_keeps hooks_keep) (use assms in auto)

lemma process_client_event_keeps:
  assumes "\<And>b. keeps P (process_client b None)"
  shows "keeps P (process_client_event flags)"
  unfolding process_client_event_def by (intro rules relay_keeps hooks_keep assms)

lemma process_udp_event_keeps:
  assumes "\<And>b addr. keeps P (process_client b addr)"
  shows "keeps P (process_udp_event flags)"
  unfolding process_udp_event_def by (intro rules keeps_sets keeps_udp assms)

lemma process_dns_event_keeps:
  assumes "ConnectingRemote \<in> S" and "Associated \<in> S"
  shows "keeps P (process_dns_event flags i)"
  unfolding process_dns_event_def by (intro rules do_command_keeps assms)

end

end
