(* ===== verification/Server.thy ===== *)
theory Server
  imports Handlers
begin

section \<open>The server\<close>

text \<open>
  \<open>server/server.hpp\<close> and \<open>server/server.cxx\<close>: the loop that polls for events and hands each to
  the session it belongs to. Sessions are allocated: a pointer to one is the number of its
  creation, and following it when the session has been deleted is undefined. The server's
  socket is a member, so it is -1 while the server does not serve.
\<close>

subsection \<open>State\<close>

record server = wstate +
  sv_fd :: int
  sv_poller :: int
  sv_sessions :: "nat list"
  sv_heap :: "nat \<Rightarrow> session option"
  sv_next :: nat

type_synonym 'a srv = "(server, 'a) exec"

text \<open>A call of a member function of a session.\<close>

definition on_session :: "nat \<Rightarrow> 'a ses \<Rightarrow> 'a srv" where
  "on_session n m s = (case sv_heap s n of
     None \<Rightarrow> (Inl (UndefinedBehaviour ''use after free''), s)
   | Some se \<Rightarrow>
       (case m \<lparr>os = os s, stack = stack s, inet_pton = inet_pton s, trace = trace s,
               errno = errno s, params = params s, sess = se\<rparr> of
          (r, t) \<Rightarrow> (r, s\<lparr>trace := trace t, errno := errno t,
                         sv_heap := (sv_heap s)(n := Some (sess t))\<rparr>)))"

definition is_serving :: "server \<Rightarrow> bool" where
  "is_serving s \<longleftrightarrow> sv_fd s \<noteq> -1"

definition stop :: "unit srv" where
  "stop = bnd (asks sv_fd) (\<lambda>fd. bnd (Socket_shutdown fd) (\<lambda>_. bnd (Socket_close fd) (\<lambda>fd.
     upd (\<lambda>s. s\<lparr>sv_fd := fd\<rparr>))))"

subsection \<open>Sessions\<close>

definition accept_client :: "int srv" where
  "accept_client = bnd (asks sv_fd) Socket_accept"

text \<open>The session joins the list only when \<open>initialize\<close> has returned.\<close>

definition create_new_session :: "int \<Rightarrow> nat srv" where
  "create_new_session fd = bnd (asks sv_next) (\<lambda>n. bnd (Session_new n fd) (\<lambda>se.
     seq (upd (\<lambda>s. s\<lparr>sv_heap := (sv_heap s)(n := Some se), sv_next := n + 1\<rparr>))
     (seq (on_session n initialize)
     (seq (upd (\<lambda>s. s\<lparr>sv_sessions := sv_sessions s @ [n]\<rparr>)) (ret n)))))"

text \<open>\<open>delete\<close> of a session.\<close>

definition free_session :: "nat \<Rightarrow> unit srv" where
  "free_session n = bnd (asks (\<lambda>s. sv_heap s n)) (\<lambda>h. case h of
     None \<Rightarrow> throw (UndefinedBehaviour ''double free'')
   | Some se \<Rightarrow> seq (Session_delete se) (upd (\<lambda>s. s\<lparr>sv_heap := (sv_heap s)(n := None)\<rparr>)))"

definition delete_session :: "nat \<Rightarrow> unit srv" where
  "delete_session n = seq (on_session n Session_shutdown) (bnd (asks sv_sessions) (\<lambda>ns.
     if n \<notin> set ns then throw (UndefinedBehaviour ''erase at end'')
     else seq (upd (\<lambda>s. s\<lparr>sv_sessions := remove1 n ns\<rparr>)) (free_session n)))"

definition delete_all_sessions :: "unit srv" where
  "delete_all_sessions = bnd (asks sv_sessions) (\<lambda>ns.
     seq (for_each free_session ns) (upd (\<lambda>s. s\<lparr>sv_sessions := []\<rparr>)))"

subsection \<open>Dispatching events\<close>

text \<open>The session of a session's socket, and the virtual call of the socket's handler.\<close>

fun ptr_session :: "ptr \<Rightarrow> nat option" where
  "ptr_session (PClient n) = Some n"
| "ptr_session (PRemote n) = Some n"
| "ptr_session (PUdp n) = Some n"
| "ptr_session (PDns n _) = Some n"
| "ptr_session _ = None"

fun ptr_handler :: "ptr \<Rightarrow> u32 \<Rightarrow> bool ses" where
  "ptr_handler (PRemote _) flags = process_remote_event flags"
| "ptr_handler (PUdp _) flags = process_udp_event flags"
| "ptr_handler (PDns _ i) flags = process_dns_event flags i"
| "ptr_handler _ flags = process_client_event flags"

text \<open>\<open>get_session\<close> follows the pointer of the event.\<close>

definition get_session :: "ptr \<Rightarrow> nat option srv" where
  "get_session p = (case ptr_session p of
     None \<Rightarrow> ret None
   | Some n \<Rightarrow> bnd (asks (\<lambda>s. sv_heap s n)) (\<lambda>h. case h of
       None \<Rightarrow> throw (UndefinedBehaviour ''use after free'') | Some _ \<Rightarrow> ret (Some n)))"

text \<open>
  The later events of a session that is about to be deleted lose their pointer. The source
  follows the pointer of each in the same loop, which \<open>check_events\<close> does first.
\<close>

definition check_events :: "event list \<Rightarrow> unit srv" where
  "check_events = for_each (\<lambda>e. bnd (get_session (ev_ptr e)) (\<lambda>_. ret ()))"

definition invalidate_events :: "nat \<Rightarrow> event list \<Rightarrow> event list" where
  "invalidate_events n = map (\<lambda>e. if ptr_session (ev_ptr e) = Some n then Event 0 Ev_Closed PNull else e)"

lemma length_invalidate_events [simp]: "length (invalidate_events n es) = length es"
  by (simp add: invalidate_events_def)

text \<open>One batch of events; the server's own event either accepts a client or ends the batch.\<close>

function run_batch :: "event list \<Rightarrow> unit srv" where
  "run_batch [] = ret ()"
| "run_batch (e # es) =
     (if ev_ptr e = PServer then
        if ev_flags e AND Ev_Read \<noteq> 0 then
          bnd accept_client (\<lambda>fd. bnd (create_new_session fd) (\<lambda>_. run_batch es))
        else stop
      else case ptr_session (ev_ptr e) of
        None \<Rightarrow> run_batch es
      | Some n \<Rightarrow> bnd (on_session n (ptr_handler (ev_ptr e) (ev_flags e))) (\<lambda>ok.
          if ok then run_batch es
          else seq (check_events es) (seq (delete_session n) (run_batch (invalidate_events n es)))))"
  by pat_completeness auto
termination
  by (relation "measure length") auto

subsection \<open>Serving\<close>

definition POLL_TIMEOUT :: int where "POLL_TIMEOUT = -1"
definition SERVER_LISTEN :: int where "SERVER_LISTEN = 128"

text \<open>
  The loop runs until the server stops; the result is whether it ended within the fuel. A poll
  that is interrupted ends it without a \<open>stop\<close>.
\<close>

fun serve_loop :: "nat \<Rightarrow> bool srv" where
  "serve_loop 0 = ret False"
| "serve_loop (Suc k) = bnd (asks is_serving) (\<lambda>on.
     if \<not> on then ret True
     else bnd (poll POLL_TIMEOUT) (\<lambda>(res, events). bnd (asks errno) (\<lambda>err.
       if res = -1 then seq (when_do (err \<noteq> EINTR) stop) (ret True)
       else if res = 0 then serve_loop k
       else seq (run_batch events) (serve_loop k))))"

definition end_serving :: "int \<Rightarrow> unit srv" where
  "end_serving server_sock = bnd (remove_event server_sock) (\<lambda>_. seq delete_all_sessions
     (bnd (asks is_serving) (\<lambda>on. when_do on stop)))"

definition start_serving :: "unit srv" where
  "start_serving = bnd open_tcp (\<lambda>fd. seq (upd (\<lambda>s. s\<lparr>sv_fd := fd\<rparr>))
     (bnd (set_blocking fd False) (\<lambda>_. bnd (asks params) (\<lambda>p.
      seq (Socket_bind_ip fd (listen_ip p) (listen_port p))
      (seq (Socket_listen fd SERVER_LISTEN)
      (bnd EpollPoller_new (\<lambda>ep. upd (\<lambda>s. s\<lparr>sv_poller := ep\<rparr>))))))))"

definition serve :: "nat \<Rightarrow> bool srv" where
  "serve k = seq start_serving (bnd (asks sv_fd) (\<lambda>server_sock. bnd (asks sv_poller) (\<lambda>ep.
     bnd (register_event (Event server_sock Ev_Read PServer)) (\<lambda>ok.
       if \<not> ok then seq stop (seq (EpollPoller_delete ep) (ret True))
       else bnd (serve_loop k) (\<lambda>done.
         if \<not> done then ret False
         else seq (end_serving server_sock) (seq (EpollPoller_delete ep) (ret True)))))))"

text \<open>A server that listens and has no session, for concrete instances.\<close>

definition server_of :: "(history \<Rightarrow> syscall \<Rightarrow> sysret) \<Rightarrow> server_params \<Rightarrow> server" where
  "server_of f p = \<lparr>os = f, stack = (\<lambda>_ _. 0), inet_pton = (\<lambda>_ _. None), trace = [], errno = 0,
     params = p, sv_fd = 3, sv_poller = 4, sv_sessions = [], sv_heap = Map.empty, sv_next = 0\<rparr>"

definition with_session :: "session \<Rightarrow> server \<Rightarrow> server" where
  "with_session se s = s\<lparr>sv_sessions := sv_sessions s @ [sv_next s],
     sv_heap := (sv_heap s)(sv_next s := Some se), sv_next := sv_next s + 1\<rparr>"

end
