(* ===== verification/SessionPhases.thy ===== *)
theory SessionPhases
  imports SessionRules Server
begin

section \<open>The protocol a session follows\<close>

text \<open>
  The states a session goes through, whatever its handlers receive, and what has to happen
  before a client is taken for authenticated. A run of a session is any sequence of events for
  its sockets, in any order and with any flags, as long as the handlers tell the server to
  go on; between two events the other sessions may make any calls.
\<close>

subsection \<open>Two invariants of every handler\<close>

text \<open>The states stay in a set that is closed under what the handler may set.\<close>

interpretation phase: session_invariant "\<lambda>s. se_state (sess s) \<in> A" A for A
  by unfold_locales (auto intro!: sys_closedI)

text \<open>The world only grows its history, and the session keeps its client and its number.\<close>

definition grows :: "sstate \<Rightarrow> sstate \<Rightarrow> bool" where
  "grows s t \<longleftrightarrow> os t = os s \<and> stack t = stack s \<and> params t = params s
     \<and> se_client (sess t) = se_client (sess s) \<and> se_id (sess t) = se_id (sess s)
     \<and> (\<exists>h. trace t = h @ trace s)"

lemma schedule_sel [simp]:
  "se_udp (schedule d b se) = se_udp se" "se_dns (schedule d b se) = se_dns se"
  "se_command (schedule d b se) = se_command se"
  by (cases d; simp)+

lemma grows_refl [simp, intro]: "grows s s"
  by (simp add: grows_def)

lemma grows_trans: "grows s t \<Longrightarrow> grows t u \<Longrightarrow> grows s u"
  unfolding grows_def by fastforce

interpretation history: session_invariant "grows s" UNIV for s
  by unfold_locales (auto simp: grows_def sys_closed_def syscall_def Let_def)

lemma handler_grows: "grows s (snd (ptr_handler p flags s))"
proof -
  have c: "keeps (grows s) (process_client b addr)" for b addr
    by (rule history.process_client_keeps) simp
  have "keeps (grows s) (ptr_handler p flags)"
    by (cases p) (auto intro!: history.process_client_event_keeps history.process_udp_event_keeps
      history.process_dns_event_keeps history.process_remote_event_keeps history.reply_keeps c)
  then show ?thesis by (simp add: keeps_def)
qed

subsection \<open>The states\<close>

fun client_side :: "ptr \<Rightarrow> bool" where
  "client_side (PRemote _) = False"
| "client_side (PDns _ _) = False"
| "client_side _ = True"

inductive phase_step :: "ptr \<Rightarrow> sess_state \<Rightarrow> sess_state \<Rightarrow> bool" where
  stay: "phase_step p st st"
| greet_open: "client_side p \<Longrightarrow> phase_step p Accepted Authenticated"
| greet_password: "client_side p \<Longrightarrow> phase_step p Accepted AuthRequested"
| password: "client_side p \<Longrightarrow> phase_step p AuthRequested Authenticated"
| lookup: "client_side p \<Longrightarrow> phase_step p Authenticated ResolvingDomainName"
| connect: "client_side p \<Longrightarrow> phase_step p Authenticated ConnectingRemote"
| associate: "client_side p \<Longrightarrow> phase_step p Authenticated Associated"
| connected: "phase_step (PRemote n) ConnectingRemote Connected"
| answer_connect: "phase_step (PDns n i) st ConnectingRemote"
| answer_associate: "phase_step (PDns n i) st Associated"

inductive_cases phase_step_cases: "phase_step p st st'"

inductive_simps phase_step_client [simp]: "phase_step (PClient n) st st'"
inductive_simps phase_step_remote [simp]: "phase_step (PRemote n) st st'"
inductive_simps phase_step_udp [simp]: "phase_step (PUdp n) st st'"
inductive_simps phase_step_dns [simp]: "phase_step (PDns n i) st st'"

text \<open>What a step leads to when the steps before it keep what it starts from.\<close>

definition leads :: "('s \<Rightarrow> bool) \<Rightarrow> ('s, 'a) exec \<Rightarrow> ('s \<Rightarrow> bool) \<Rightarrow> bool" where
  "leads P m Q \<longleftrightarrow> (\<forall>s. P s \<longrightarrow> Q (snd (m s)))"

lemma leads_keeps: "keeps P m \<Longrightarrow> (\<And>s. P s \<Longrightarrow> Q s) \<Longrightarrow> leads P m Q"
  by (simp add: leads_def keeps_def)

lemma leads_bnd:
  assumes "keeps P m" and "\<And>s. P s \<Longrightarrow> Q s" and "\<And>x. leads P (f x) Q"
  shows "leads P (bnd m f) Q"
  unfolding leads_def
proof (intro allI impI)
  fix s assume "P s"
  obtain r t where m: "m s = (r, t)" by (cases "m s")
  with assms(1) \<open>P s\<close> have "P t" by (rule keepsD)
  with m assms(2,3) show "Q (snd (bnd m f s))" by (cases r) (auto simp: bnd_def leads_def)
qed

lemma leads_if: "leads P m Q \<Longrightarrow> leads P n Q \<Longrightarrow> leads P (if c then m else n) Q"
  by simp

lemma leads_prod: "(\<And>x y. leads P (f x y) Q) \<Longrightarrow> leads P (case v of (x, y) \<Rightarrow> f x y) Q"
  by (cases v) simp

lemmas leads_rules = leads_bnd leads_if leads_prod

lemma process_client_step:
  assumes "se_state (sess s) = st" and "client_side p"
  shows "phase_step p st (se_state (sess (snd (process_client b addr s))))"
proof -
  have stay: "phase_step p st (se_state (sess (snd (m s))))"
    if "keeps (\<lambda>s. se_state (sess s) \<in> A) m" "st \<in> A" "\<And>st'. st' \<in> A \<Longrightarrow> phase_step p st st'" for m :: "bool ses" and A
    using that assms(1) by (auto simp: keeps_def)
  note rules = phase.rules phase.check_version_keeps phase.request_auth_keeps phase.handle_auth_keeps
    phase.check_command_keeps phase.resolve_address_keeps phase.do_command_keeps phase.relay_keeps phase.hooks_keep
  note steps = phase_step.intros(2-7) [OF assms(2)] phase_step.stay
  have run: "process_client b addr s = (case st of
      Accepted \<Rightarrow> bnd (check_version b) (\<lambda>ok. if ok then request_auth b else ret False)
    | AuthRequested \<Rightarrow> handle_auth b
    | Authenticated \<Rightarrow> bnd (check_command b) (\<lambda>ok.
       if \<not> ok then ret False
       else bnd (resolve_address b) (\<lambda>(addresses, is_domain_name).
         if is_domain_name then ret True
         else case addresses of None \<Rightarrow> ret False | Some as \<Rightarrow> do_command as))
    | ResolvingDomainName \<Rightarrow> ret False
    | Connected \<Rightarrow> bnd the_remote (\<lambda>_. session_socket_send RemoteSide (Some b))
    | Associated \<Rightarrow> bnd the_remote (\<lambda>r. bnd (hook_udp_send_to r b addr) (\<lambda>n. ret (n \<noteq> 0)))
    | _ \<Rightarrow> ret False) s"
    using assms(1) by (simp add: process_client_def bnd_def gets_def)
  show ?thesis
  proof (cases st)
    case Accepted
    show ?thesis unfolding run unfolding Accepted sess_state.case
      by (rule stay [unfolded Accepted, where A = "{Accepted, AuthRequested, Authenticated}"]) ((intro rules; simp), (use steps in auto))
  next
    case AuthRequested
    show ?thesis unfolding run unfolding AuthRequested sess_state.case
      by (rule stay [unfolded AuthRequested, where A = "{AuthRequested, Authenticated}"]) ((intro rules; simp), (use steps in auto))
  next
    case Authenticated
    show ?thesis unfolding run unfolding Authenticated sess_state.case
      by (rule stay [unfolded Authenticated, where A = "{Authenticated, ResolvingDomainName, ConnectingRemote, Associated}"]) ((intro rules; simp), (use steps in auto))
  next
    case Connected
    show ?thesis unfolding run unfolding Connected sess_state.case
      by (rule stay [unfolded Connected, where A = "{Connected}"]) ((intro rules; simp), (use steps in auto))
  next
    case Associated
    show ?thesis unfolding run unfolding Associated sess_state.case
      by (rule stay [unfolded Associated, where A = "{Associated}"]) ((intro rules; simp), (use steps in auto))
  qed (use assms(1) run steps in auto)
qed

lemma client_side_steps:
  assumes p: "client_side p"
  defines "P \<equiv> \<lambda>st s. se_state (sess s) \<in> {st}" and "Q \<equiv> \<lambda>st s. phase_step p st (se_state (sess s))"
  shows "leads (P st) (process_client_event flags) (Q st)" "leads (P st) (process_udp_event flags) (Q st)"
proof -
  have stay: "Q st t" if "P st t" for t using that phase_step.stay by (simp add: P_def Q_def)
  have client: "leads (P st) (process_client b addr) (Q st)" for b addr
    using process_client_step [OF _ p] by (simp add: leads_def P_def Q_def)
  have stop: "leads (P st) (ret x) (Q st)" for x :: bool
    by (rule leads_keeps [OF keeps_ret stay])
  have relay: "leads (P st) (session_socket_send d b) (Q st)" for d b
    unfolding P_def by (rule leads_keeps [OF phase.relay_keeps stay [unfolded P_def]])
  note rules = phase.rules phase.hooks_keep phase.keeps_udp keeps_sets
  have k: "keeps (P st) local_buffer" "keeps (P st) (gets f)" "keeps (P st) the_udp"
      "keeps (P st) (hook_client_recv fd b)" "keeps (P st) (UDPSocket_recv_from u b)"
      "keeps (P st) (sets (\<lambda>se. se\<lparr>se_udp := Some u\<rparr>))" for f fd b u
    unfolding P_def by (intro rules; assumption)+
  show "leads (P st) (process_client_event flags) (Q st)" "leads (P st) (process_udp_event flags) (Q st)"
    unfolding process_client_event_def process_udp_event_def seq_def
    by (intro leads_rules client stop relay k stay; assumption)+
qed

lemma process_remote_event_step:
  "phase_step (PRemote n) (se_state (sess s)) (se_state (sess (snd (process_remote_event flags s))))"
proof (cases "se_state (sess s) = ConnectingRemote")
  case True
  have "keeps (\<lambda>s. se_state (sess s) \<in> {ConnectingRemote, Connected}) (process_remote_event flags)"
    by (intro phase.process_remote_event_keeps phase.reply_keeps) simp
  with True show ?thesis by (simp add: keeps_def)
next
  case False
  let ?P = "\<lambda>t. se_state (sess t) \<in> {se_state (sess s)}"
  have "keeps ?P (reply_remote_connection r t a p)" for r t a p
    using False by (simp add: reply_remote_connection_def keeps_def bnd_def gets_def)
  then have "keeps ?P (process_remote_event flags)"
    by (rule phase.process_remote_event_keeps)
  then show ?thesis by (simp add: keeps_def)
qed

lemma process_dns_event_step:
  "phase_step (PDns n i) (se_state (sess s)) (se_state (sess (snd (process_dns_event flags i s))))"
proof -
  have "keeps (\<lambda>t. se_state (sess t) \<in> {se_state (sess s), ConnectingRemote, Associated}) (process_dns_event flags i)"
    by (rule phase.process_dns_event_keeps) simp_all
  then show ?thesis by (auto simp: keeps_def)
qed

text \<open>
  C6: Whatever a session receives, its state moves only along the protocol: from the greeting to
  the password or past it, past the password, from there to a name lookup, to connecting or
  to an association; only an event of the destination's socket makes a connecting session connected, and
  only an answer to a lookup connects or associates later. This also holds when the
  handler faults.
\<close>

theorem handlers_follow_protocol:
  assumes "p \<noteq> PNull" and "p \<noteq> PServer" and "ptr_handler p flags s = (r, t)"
  shows "phase_step p (se_state (sess s)) (se_state (sess t))"
proof -
  have "phase_step p (se_state (sess s)) (se_state (sess (snd (ptr_handler p flags s))))"
    using assms(1,2) client_side_steps [of p, unfolded leads_def] process_remote_event_step process_dns_event_step
    by (cases p) auto
  then show ?thesis using assms(3) by simp
qed

theorem handlers_follow_protocol_witness:
  "let s = sstate_of (\<lambda>_ _. deliver [5, 1, 0] (SockIn [127, 0, 0, 1] 0)) ServerParams_default (session_at 0 7);
       t = snd (ptr_handler (PClient 0) Ev_Read s)
   in phase_step (PClient 0) Accepted (se_state (sess t)) \<and> se_state (sess t) = Authenticated"
proof -
  let ?s = "sstate_of (\<lambda>_ _. deliver [5, 1, 0] (SockIn [127, 0, 0, 1] 0)) ServerParams_default (session_at 0 7)"
  have "se_state (sess (snd (ptr_handler (PClient 0) Ev_Read ?s))) = Authenticated" by code_simp
  moreover have "phase_step (PClient 0) (se_state (sess ?s)) (se_state (sess (snd (ptr_handler (PClient 0) Ev_Read ?s))))"
    by (rule handlers_follow_protocol [of _ Ev_Read _ "fst (ptr_handler (PClient 0) Ev_Read ?s)"]) simp_all
  ultimately show ?thesis by (simp add: session_at_def)
qed

end
