(* ===== verification/Authentication.thy ===== *)
theory Authentication
  imports SessionPhases
begin

section \<open>Authentication\<close>

text \<open>
  What a client has to send before the server does anything for it: the greeting, the password,
  and the proof that with credentials configured no run of a session leaves its first two
  states before a message with the credentials has arrived at the client's socket.
\<close>

subsection \<open>Data of the client\<close>

text \<open>The buffer that an event with data leads to, and the call that delivers it.\<close>

abbreviation recv_call :: "sstate \<Rightarrow> syscall" where
  "recv_call s \<equiv> Sys_recv (se_client (sess s)) SESSION_BUFFER"

definition arrived_on :: "int \<Rightarrow> sstate \<Rightarrow> bytes" where
  "arrived_on fd s = (let r = os s (trace s) (Sys_recv fd SESSION_BUFFER) in
     if sr_ok r then take SESSION_BUFFER (sr_data r) else [])"

definition received_on :: "int \<Rightarrow> sstate \<Rightarrow> membuf" where
  "received_on fd s = \<lparr>mb_ptr = Some (mem_write (stack s (trace s)) 0 (arrived_on fd s)),
     mb_size = length (arrived_on fd s), mb_cap = SESSION_BUFFER\<rparr>"

abbreviation arrived :: "sstate \<Rightarrow> bytes" where "arrived s \<equiv> arrived_on (se_client (sess s)) s"
abbreviation received :: "sstate \<Rightarrow> membuf" where "received s \<equiv> received_on (se_client (sess s)) s"

text \<open>Flags of an event that reports data and nothing else of interest.\<close>

definition data_event :: "u32 \<Rightarrow> bool" where
  "data_event flags \<longleftrightarrow> flags AND (Ev_Closed OR Ev_Error) = 0 \<and> flags AND Ev_Write = 0"

text \<open>Receiving into a fresh local buffer, which both sides do.\<close>

lemma recv_exec:
  fixes s :: sstate
  shows "SessionSocket_recv fd (MemoryBuffer (stack s (trace s)) 0 SESSION_BUFFER) s =
    (let s' = after (Sys_recv fd SESSION_BUFFER) s in
     if sr_ok (os s (trace s) (Sys_recv fd SESSION_BUFFER))
     then (Inr (int (length (arrived_on fd s)), received_on fd s), s')
     else (Inr (-1, MemoryBuffer (stack s (trace s)) 0 SESSION_BUFFER), s'))"
  by (simp add: SessionSocket_recv_def MemoryBuffer_def sys_recv_def bnd_def syscall_def Let_def arrived_on_def
      received_on_def set_size_def)

lemma arrived_failed: "\<not> sr_ok (os s (trace s) (Sys_recv fd SESSION_BUFFER)) \<Longrightarrow> arrived_on fd s = []"
  by (simp add: arrived_on_def)

lemma process_client_event_data:
  fixes s :: sstate
  assumes "data_event flags"
  shows "process_client_event flags s =
    (if arrived s = [] then (Inr False, after (recv_call s) s)
     else process_client (received s) None (after (recv_call s) s))"
  using assms
  by (auto simp: process_client_event_def data_event_def bnd_def local_buffer_def uninit_def gets_def
      hook_client_recv_def SessionSocket_recv_def MemoryBuffer_def sys_recv_def syscall_def Let_def
      arrived_on_def received_on_def set_size_def SESSION_BUFFER_def min_def split: if_splits)

text \<open>A server with credentials, and a kernel that answers from a script.\<close>

definition password_server :: server_params where
  "password_server = ServerParams_default\<lparr>username := [117, 115], password := [112]\<rparr>"

definition scripted :: "sysret list \<Rightarrow> history \<Rightarrow> syscall \<Rightarrow> sysret" where
  "scripted rs h c = (if length h < length rs then rs ! length h else answer 0)"

definition client_says :: "bytes list \<Rightarrow> history \<Rightarrow> syscall \<Rightarrow> sysret" where
  "client_says msgs = scripted (concat (map (\<lambda>m. [deliver m (SockIn [127, 0, 0, 1] 0), answer 2]) msgs))"

lemma data_event_Read: "data_event Ev_Read"
  by (simp add: data_event_def ev_defs)

subsection \<open>The greeting\<close>

lemma select_method_iff: "select_method m bs = m \<longleftrightarrow> m \<in> auth_method_of ` set bs \<or> m = AuthInvalid"
  by (induction bs) auto

lemma select_method_cases: "select_method m bs = (if m \<in> auth_method_of ` set bs then m else AuthInvalid)"
  by (induction bs) auto

text \<open>The block a data event is read into.\<close>

definition block :: "sstate \<Rightarrow> mem" where
  "block s = mem_write (stack s (trace s)) 0 (arrived s)"

lemma received_on_sel [simp]:
  "mb_size (received_on fd s) = length (arrived_on fd s)" "mb_data (received_on fd s) = arrived_on fd s"
  using mem_read_write_same [of "stack s (trace s)" 0 "arrived_on fd s"]
  by (simp_all add: received_on_def mb_data.simps)

text \<open>The state that follows the method the server asks for.\<close>

fun after_greeting :: "auth_method \<Rightarrow> sess_state" where
  "after_greeting NoAuth = Authenticated"
| "after_greeting _ = AuthRequested"

lemma send_two_exec:
  "bnd (sys_send fd [x, y]) (\<lambda>r. ret (r \<noteq> -1)) s =
     (Inr (sr_ok (os s (trace s) (Sys_send fd [x, y]))), after (Sys_send fd [x, y]) s)"
  by (simp add: bnd_def sys_send_def syscall_def Let_def)

text \<open>Setting the state, as an update.\<close>

abbreviation in_state :: "sess_state \<Rightarrow> sstate \<Rightarrow> sstate" where
  "in_state st s \<equiv> s\<lparr>sess := (sess s)\<lparr>se_state := st\<rparr>\<rparr>"

lemma bnd_block_of: "mb_ptr b = Some m \<Longrightarrow> bnd (block_of b) f = f m"
  by (rule ext) (simp add: block_of_def bnd_def)

lemma bnd_asks: "bnd (asks g) f s = f (g s) s"
  by (simp add: bnd_def)

lemma bnd_gets: "bnd (gets g) f s = f (g (sess s)) s"
  by (simp add: bnd_def gets_def)

lemma send_auth_exec:
  "send_auth fd m s = (Inr (sr_ok (os s (trace s) (Sys_send fd [5, auth_method_byte m]))),
     after (Sys_send fd [5, auth_method_byte m]) s)"
  by (simp add: send_auth_def send_two_exec)

lemma check_version_exec:
  assumes "mb_ptr b = Some m"
  shows "check_version b s = (if m 0 = 5 then (Inr True, s)
    else (Inr False, after (Sys_send (se_client (sess s)) [5, 0xFF]) s))"
  by (simp add: check_version_def bnd_block_of [OF assms] gets_def bnd_def send_auth_exec)

lemma request_auth_exec:
  fixes s :: sstate
  assumes "mb_ptr b = Some m"
  defines "wanted \<equiv> get_auth_method (params s)"
  defines "ok \<equiv> wanted \<in> auth_method_of ` set (mem_read m 2 (unat (m 1)))"
  defines "call \<equiv> Sys_send (se_client (sess s)) [5, if ok then auth_method_byte wanted else 0xFF]"
  shows "request_auth b s = (if ok \<and> sr_ok (os s (trace s) call)
    then (Inr True, in_state (after_greeting wanted) (after call s)) else (Inr False, after call s))"
proof -
  have w: "wanted = NoAuth \<or> wanted = UserPass" by (simp add: wanted_def get_auth_method_def)
  have sel: "select_method wanted (mem_read m 2 (unat (m 1))) = (if ok then wanted else AuthInvalid)"
    by (simp add: select_method_cases ok_def)
  have "request_auth b s = bnd (send_auth (se_client (sess s)) (if ok then wanted else AuthInvalid)) (\<lambda>sent.
       if \<not> sent then ret False
       else if (if ok then wanted else AuthInvalid) \<noteq> wanted then ret False
       else seq (if (if ok then wanted else AuthInvalid) = NoAuth then set_state Authenticated
                 else when_do ((if ok then wanted else AuthInvalid) = UserPass) (set_state AuthRequested))
              (ret True)) s"
    by (simp only: request_auth_def bnd_block_of [OF assms(1)] bnd_asks bnd_gets Let_def sel
        wanted_def [symmetric])
  also have "\<dots> = (if ok \<and> sr_ok (os s (trace s) call)
    then (Inr True, in_state (after_greeting wanted) (after call s)) else (Inr False, after call s))"
    using w by (cases ok) (auto simp: bnd_def send_auth_exec call_def seq_def when_do_def set_state_def sets_def)
  finally show ?thesis .
qed

lemma handle_auth_exec:
  fixes s :: sstate
  assumes "mb_ptr b = Some m"
  defines "n \<equiv> (of_nat (mb_size b) :: 64 word)"
  defines "user \<equiv> mem_read m 2 (unat (m 1))"
    and "pass \<equiv> mem_read m (3 + unat (m 1)) (unat (m (2 + unat (m 1))))"
  defines "ok \<equiv> authenticate (params s) user pass"
  defines "call \<equiv> Sys_send (se_client (sess s)) [5, if ok then 0 else 0xFF]"
  shows "handle_auth b s =
    (if ucast (m 1) > n - 2 \<or> ucast (m (2 + unat (m 1))) > n - ucast (m 1) - 3 then (Inr False, s)
     else (Inr ok, if ok then in_state Authenticated (after call s) else after call s))"
proof -
  have st: "send_auth_status fd x t = (Inr (sr_ok (os t (trace t) (Sys_send fd [5, x]))), after (Sys_send fd [5, x]) t)"
    for fd x and t :: sstate
    by (simp add: send_auth_status_def send_two_exec)
  have "handle_auth b s = (if ucast (m 1) > n - 2 then ret False
     else if ucast (m (2 + unat (m 1))) > n - ucast (m 1) - 3 then ret False
     else if \<not> ok then bnd (send_auth_status (se_client (sess s)) 0xFF) (\<lambda>_. ret False)
     else bnd (send_auth_status (se_client (sess s)) 0x00) (\<lambda>_. seq (set_state Authenticated) (ret True))) s"
    by (simp add: handle_auth_def bnd_block_of [OF assms(1)] bnd_asks bnd_gets Let_def
        ok_def user_def pass_def n_def del: One_nat_def)
  then show ?thesis
    by (cases ok) (simp_all add: bnd_def st call_def seq_def set_state_def sets_def)
qed

definition greeting_ok :: "sstate \<Rightarrow> bool" where
  "greeting_ok s \<longleftrightarrow> block s 0 = 5 \<and>
     get_auth_method (params s) \<in> auth_method_of ` set (mem_read (block s) 2 (unat (block s 1)))"

lemma received_ptr: "mb_ptr (received s) = Some (block s)"
  by (simp add: received_on_def block_def)

lemma greeting_exec:
  fixes s :: sstate
  assumes "data_event flags" and "arrived s \<noteq> []" and "se_state (sess s) = Accepted"
  shows "process_client_event flags s =
    (let wanted = get_auth_method (params s);
         s1 = after (recv_call s) s;
         call = Sys_send (se_client (sess s)) [5, if greeting_ok s then auth_method_byte wanted else 0xFF];
         s2 = after call s1
     in if greeting_ok s \<and> sr_ok (os s (trace s1) call) then (Inr True, in_state (after_greeting wanted) s2)
        else (Inr False, s2))"
proof -
  have "process_client_event flags s = bnd (check_version (received s))
      (\<lambda>ok. if ok then request_auth (received s) else ret False) (after (recv_call s) s)"
    using assms by (simp add: process_client_event_data process_client_def bnd_gets)
  then show ?thesis
    by (cases "block s 0 = 5")
      (simp_all add: bnd_def check_version_exec [OF received_ptr] request_auth_exec [OF received_ptr] Let_def
        greeting_ok_def del: One_nat_def)
qed

text \<open>
  C22: A greeting is answered with one message, the method the server is configured for when the
  client speaks version 5 and offers it and 0xFF otherwise; the session goes on
  only in the first case, to the password or past it.
\<close>

theorem greeting_negotiates:
  fixes s :: sstate
  assumes "data_event flags" and "arrived s \<noteq> []" and "se_state (sess s) = Accepted"
  shows "process_client_event flags s =
    (let wanted = get_auth_method (params s);
         s1 = after (recv_call s) s;
         call = Sys_send (se_client (sess s)) [5, if greeting_ok s then auth_method_byte wanted else 0xFF];
         s2 = after call s1
     in if greeting_ok s \<and> sr_ok (os s (trace s1) call) then (Inr True, in_state (after_greeting wanted) s2)
        else (Inr False, s2))"
  using assms by (rule greeting_exec)

theorem greeting_negotiates_witness:
  "let s = sstate_of (client_says [[5, 2, 0, 2]]) password_server (session_at 0 7);
       (r, t) = process_client_event Ev_Read s
   in r = Inr True \<and> se_state (sess t) = AuthRequested
    \<and> map fst (trace t) = [Sys_send 7 [5, 2], Sys_recv 7 8192]"
proof -
  let ?s = "sstate_of (client_says [[5, 2, 0, 2]]) password_server (session_at 0 7)"
  have d: "arrived ?s = [5, 2, 0, 2]" and g: "greeting_ok ?s"
    by code_simp+
  have a: "get_auth_method password_server = UserPass" "se_state (session_at 0 7) = Accepted"
      "se_client (session_at 0 7) = 7" "sr_ok (client_says [[5, 2, 0, 2]] [x] c)" for x c
    by (simp_all add: get_auth_method_def password_server_def session_at_def client_says_def scripted_def)
  show ?thesis
    using greeting_negotiates [OF data_event_Read, of ?s] d g a
    by (simp add: Let_def SESSION_BUFFER_def)
qed

subsection \<open>The password\<close>




lemma received_exec:
  assumes "data_event flags" and "arrived s \<noteq> []" and "se_state (sess s) = AuthRequested"
  shows "process_client_event flags s = handle_auth (received s) (after (recv_call s) s)"
  using assms by (simp add: process_client_event_data process_client_def bnd_gets)



lemma byte_less_wrap:
  fixes x y :: byte
  shows "\<not> ucast y > (1 :: 64 word) - ucast x - 3" and "\<not> ucast y > (1 :: 64 word) - 2"
proof -
  have b: "unat z < 256" for z :: byte using unsigned_less [of z] by simp
  have "ucast y = (of_nat (unat y) :: 64 word)" by simp
  then have y: "unat (ucast y :: 64 word) = unat y"
    using b [of y] by (simp only: unat_of_nat) simp
  have "(1 :: 64 word) - ucast x - 3 = of_nat (2 ^ 64) - of_nat (2 + unat x)"
    by simp
  also have "\<dots> = of_nat (2 ^ 64 - (2 + unat x))"
    using b [of x] by (subst of_nat_diff) simp_all
  finally have "unat ((1 :: 64 word) - ucast x - 3) = 2 ^ 64 - (2 + unat x)"
    by (simp only: unat_of_nat) simp
  then show "\<not> ucast y > (1 :: 64 word) - ucast x - 3"
    using b [of x] b [of y] y by (simp add: word_less_nat_alt)
  have "unat ((1 :: 64 word) - 2) = 2 ^ 64 - 1"
    by (simp add: unsigned_minus_1_eq_mask mask_eq_exp_minus_1)
  then show "\<not> ucast y > (1 :: 64 word) - 2"
    using b [of y] y by (simp add: word_less_nat_alt)
qed


text \<open>
  C35: A message of one byte passes both length checks, which wrap around, so the user name
  and the password are read from what the stack held: a stale password message there
  authenticates the client.
\<close>

theorem one_byte_password_reads_stale_stack:
  fixes s :: sstate
  assumes "data_event flags" and "se_state (sess s) = AuthRequested" and "length (arrived s) = 1"
  defines "m \<equiv> stack s (trace s)"
  defines "ok \<equiv> authenticate (params s) (mem_read m 2 (unat (m 1)))
      (mem_read m (3 + unat (m 1)) (unat (m (2 + unat (m 1)))))"
  shows "\<exists>t. process_client_event flags s = (Inr ok, t)
    \<and> se_state (sess t) = (if ok then Authenticated else AuthRequested)"
proof -
  have b: "block s i = m i" if "i \<ge> 1" for i
    using that assms(3) by (simp add: block_def m_def)
  then have reads: "block s 1 = m 1" "block s (2 + unat (m 1)) = m (2 + unat (m 1))"
      "mem_read (block s) 2 (unat (m 1)) = mem_read m 2 (unat (m 1))"
      "mem_read (block s) (3 + unat (m 1)) k = mem_read m (3 + unat (m 1)) k" for k
    by (auto intro: mem_read_cong)
  have "arrived s \<noteq> []" using assms(3) by auto
  then have run: "process_client_event flags s = handle_auth (received s) (after (recv_call s) s)"
    using assms(1,2) by (intro received_exec)
  show ?thesis
    unfolding run handle_auth_exec [OF received_ptr] reads
    using byte_less_wrap(1) [of "m 1" "m (2 + unat (m 1))"] byte_less_wrap(2) [of "m 1"] assms(2,3) reads
    by (simp add: ok_def del: One_nat_def)
qed

theorem one_byte_password_reads_stale_stack_witness:
  "let s = (sstate_of (client_says [[1]]) password_server ((session_at 0 7)\<lparr>se_state := AuthRequested\<rparr>))
         \<lparr>stack := (\<lambda>_. mem_write (\<lambda>_. 0) 0 [1, 2, 117, 115, 1, 112])\<rparr>
   in \<exists>t. process_client_event Ev_Read s = (Inr True, t) \<and> se_state (sess t) = Authenticated"
proof -
  let ?s = "(sstate_of (client_says [[1]]) password_server ((session_at 0 7)\<lparr>se_state := AuthRequested\<rparr>))
    \<lparr>stack := (\<lambda>_. mem_write (\<lambda>_. 0) 0 [1, 2, 117, 115, 1, 112])\<rparr>"
  have d: "arrived ?s = [1]" by code_simp
  have a: "authenticate password_server [117, 115] [112]"
    by (simp add: authenticate_def password_server_def)
  have r: "mem_read (mem_write (\<lambda>_. 0) 0 [1, 2, 117, 115, 1, 112]) 2 2 = [117, 115]"
      "mem_read (mem_write (\<lambda>_. 0) 0 [1, 2, 117, 115, 1, 112]) 5 1 = [112]"
    by code_simp+
  show ?thesis
    using one_byte_password_reads_stale_stack [OF data_event_Read, of ?s] d a r
    by (simp add: Let_def)
qed

subsection \<open>Runs of a session\<close>

text \<open>
  Any events for any of its sockets, while the handlers tell the server to go on; in between
  other sessions make calls.
\<close>

inductive session_run :: "sstate \<Rightarrow> sstate \<Rightarrow> bool" for s0 where
  start: "session_run s0 s0"
| event: "session_run s0 s \<Longrightarrow> p \<notin> {PNull, PServer} \<Longrightarrow> ptr_handler p flags s = (Inr True, t) \<Longrightarrow> session_run s0 t"
| others: "session_run s0 s \<Longrightarrow> session_run s0 (s\<lparr>trace := h @ trace s, errno := e\<rparr>)"

text \<open>A session that has not been let in: it has no socket but the client's.\<close>

definition outside :: "sstate \<Rightarrow> bool" where
  "outside s \<longleftrightarrow> se_state (sess s) \<in> {Accepted, AuthRequested} \<and> se_remote (sess s) = None
     \<and> se_udp (sess s) = None \<and> se_dns (sess s) = [] \<and> mb_size (se_client_buffer (sess s)) = 0"

text \<open>The block a message is read into holds the credentials where \<open>handle_auth\<close> looks for them.\<close>

definition credentials_in :: "server_params \<Rightarrow> mem \<Rightarrow> bool" where
  "credentials_in p m \<longleftrightarrow> mem_read m 2 (unat (m 1)) = username p
     \<and> mem_read m (3 + unat (m 1)) (unat (m (2 + unat (m 1)))) = password p"

definition credentials_received :: "sstate \<Rightarrow> bool" where
  "credentials_received s \<longleftrightarrow> (\<exists>later r earlier.
     trace s = later @ (recv_call s, r) # earlier \<and> sr_ok r
     \<and> credentials_in (params s) (mem_write (stack s earlier) 0 (take SESSION_BUFFER (sr_data r))))"

lemma credentials_received_grows:
  assumes "credentials_received s" and "grows s t"
  shows "credentials_received t"
proof -
  obtain later r earlier h where "trace s = later @ (recv_call s, r) # earlier" "sr_ok r" "trace t = h @ trace s"
      "credentials_in (params s) (mem_write (stack s earlier) 0 (take SESSION_BUFFER (sr_data r)))"
    using assms by (auto simp: credentials_received_def grows_def)
  moreover have "recv_call t = recv_call s" "params t = params s" "stack t = stack s"
    using assms(2) by (simp_all add: grows_def)
  ultimately show ?thesis
    unfolding credentials_received_def by (intro exI [of _ "h @ later"] exI [of _ r] exI [of _ earlier]) simp
qed

text \<open>Without a remote, UDP or DNS socket only the client's data gets anywhere.\<close>

lemma outside_other_sockets:
  assumes "outside s" and "ptr_handler p flags s = (Inr True, t)" and "p \<notin> {PNull, PServer}"
  shows "\<exists>n. p = PClient n \<and> data_event flags \<and> arrived s \<noteq> []"
proof (cases p)
  case (PClient n)
  show ?thesis
  proof (cases "data_event flags")
    case True
    then show ?thesis
      using assms PClient by (auto simp: process_client_event_data split: if_splits)
  next
    case False
    then show ?thesis
      using assms PClient
      by (auto simp: process_client_event_def data_event_def session_socket_send_def bnd_def gets_def
          outside_def Let_def split: if_splits)
  qed
qed (use assms in \<open>auto simp: process_remote_event_def process_udp_event_def process_dns_event_def outside_def
      bnd_def the_remote_def the_udp_def gets_def local_buffer_def uninit_def split: if_splits\<close>)

lemma outside_step:
  assumes out: "outside s" and auth: "get_auth_method (params s) = UserPass"
    and run: "ptr_handler p flags s = (Inr True, t)" and p: "p \<notin> {PNull, PServer}"
  shows "outside t \<or> credentials_received t"
proof -
  obtain n where client: "p = PClient n" "data_event flags" "arrived s \<noteq> []"
    using outside_other_sockets [OF out run p] by auto
  consider "se_state (sess s) = Accepted" | "se_state (sess s) = AuthRequested"
    using out by (auto simp: outside_def)
  then show ?thesis
  proof cases
    case 1
    have "outside t"
      using run client out auth greeting_exec [OF client(2,3) 1]
      by (auto simp: outside_def Let_def split: if_splits)
    then show ?thesis ..
  next
    case 2
    have run': "handle_auth (received s) (after (recv_call s) s) = (Inr True, t)"
      using run client received_exec [OF client(2,3) 2] by simp
    let ?r = "os s (trace s) (recv_call s)"
    have "sr_ok ?r" using client(3) by (auto simp: arrived_on_def Let_def split: if_splits)
    moreover from this have "block s = mem_write (stack s (trace s)) 0 (take SESSION_BUFFER (sr_data ?r))"
      by (simp add: block_def arrived_on_def)
    moreover have "credentials_in (params s) (block s)"
      using run' auth unfolding handle_auth_exec [OF received_ptr]
      by (auto simp: credentials_in_def authenticate_def split: if_splits)
    moreover have "\<exists>c. trace t = [c] @ (recv_call s, ?r) # trace s" "params t = params s" "stack t = stack s"
        "se_client (sess t) = se_client (sess s)"
      using run' unfolding handle_auth_exec [OF received_ptr] by (auto split: if_splits)
    ultimately show ?thesis unfolding credentials_received_def by fastforce
  qed
qed

lemma session_run_grows: "session_run s0 s \<Longrightarrow> grows s0 s"
proof (induction rule: session_run.induct)
  case (event s p flags t)
  have "grows s t" using handler_grows [of s p flags] event.hyps by simp
  with event.IH show ?case by (rule grows_trans)
next
  case (others s e h)
  then show ?case by (auto simp: grows_def)
qed simp

lemma session_run_outside:
  assumes "session_run s0 s" and "outside s0" and auth: "get_auth_method (params s0) = UserPass"
  shows "outside s \<or> credentials_received s"
  using assms(1)
proof (induction rule: session_run.induct)
  case start
  then show ?case using assms(2) by simp
next
  case (event s p flags t)
  have "get_auth_method (params s) = UserPass"
    using session_run_grows [OF event.hyps(1)] auth by (simp add: grows_def)
  moreover have "grows s t" using handler_grows [of s p flags] event.hyps by simp
  ultimately show ?case
    using event.IH outside_step [OF _ _ event.hyps(3,2)] credentials_received_grows by blast
next
  case (others s e h)
  have "grows s (s\<lparr>trace := h @ trace s, errno := e\<rparr>)" by (simp add: grows_def)
  then show ?case
    using others.IH credentials_received_grows by (auto simp: outside_def)
qed

text \<open>
  C4: When credentials are configured, a session that began with a fresh client leaves its
  first two states, or gets any socket but the client's, only after the client's
  socket has arrived a message whose block holds the configured user name and password,
  whatever events it had and whatever the other sessions and the kernel did in between.
\<close>

theorem no_service_without_credentials:
  assumes "session_run s0 s" and "outside s0" and "get_auth_method (params s0) = UserPass"
    and "\<not> outside s"
  shows "\<exists>later r earlier. trace s = later @ (Sys_recv (se_client (sess s0)) SESSION_BUFFER, r) # earlier
    \<and> sr_ok r \<and> credentials_in (params s0) (mem_write (stack s0 earlier) 0 (take SESSION_BUFFER (sr_data r)))"
  using session_run_outside [OF assms(1-3)] assms(4) session_run_grows [OF assms(1)]
  by (auto simp: credentials_received_def grows_def)

definition login :: sstate where
  "login = sstate_of (client_says [[5, 1, 2], [1, 2, 117, 115, 1, 112]]) password_server (session_at 0 7)"

theorem no_service_without_credentials_witness:
  "\<exists>s. session_run login s \<and> se_state (sess s) = Authenticated \<and>
    (\<exists>later r earlier. trace s = later @ (Sys_recv 7 SESSION_BUFFER, r) # earlier \<and> sr_ok r
      \<and> credentials_in password_server (mem_write (\<lambda>_. 0) 0 (take SESSION_BUFFER (sr_data r))))"
proof -
  let ?step = "ptr_handler (PClient 0) Ev_Read"
  let ?t = "snd (?step login)"
  let ?u = "snd (?step ?t)"
  have "fst (?step login) = Inr True" "fst (?step ?t) = Inr True" by code_simp+
  then have "?step login = (Inr True, ?t)" "?step ?t = (Inr True, ?u)" by (simp_all add: prod_eq_iff)
  then have run: "session_run login ?u"
    using session_run.event [of login _ "PClient 0" Ev_Read] session_run.start by blast
  have o: "outside login" "get_auth_method (params login) = UserPass" "se_state (sess ?u) = Authenticated"
      "params login = password_server" "stack login = (\<lambda>_ _. 0)" "se_client (sess login) = 7"
    by (simp_all add: outside_def login_def session_at_def get_auth_method_def password_server_def MemoryBuffer_null_def)
      code_simp
  then have "\<not> outside ?u" by (simp add: outside_def)
  from no_service_without_credentials [OF run o(1,2) this] o run show ?thesis by auto
qed

text \<open>Until then it makes two calls at most for an event, both on the client's socket.\<close>

lemma outside_client_calls:
  assumes out: "outside s"
  shows "\<exists>h. trace (snd (ptr_handler (PClient n) flags s)) = h @ trace s
    \<and> fst ` set h \<subseteq> insert (recv_call s) (range (Sys_send (se_client (sess s))))"
proof (cases "data_event flags \<and> arrived s \<noteq> []")
  case True
  consider "se_state (sess s) = Accepted" | "se_state (sess s) = AuthRequested"
    using out by (auto simp: outside_def)
  then show ?thesis
  proof cases
    case 1
    show ?thesis using True greeting_exec [OF _ _ 1] by (auto simp: Let_def)
  next
    case 2
    show ?thesis
      using True received_exec [OF _ _ 2] by (auto simp: handle_auth_exec [OF received_ptr] Let_def)
  qed
next
  case False
  then show ?thesis
  proof (cases "data_event flags")
    case True
    with False show ?thesis by (simp add: process_client_event_data)
  next
    case False
    then have "trace (snd (process_client_event flags s)) = trace s"
      using out
      by (auto simp: process_client_event_def data_event_def session_socket_send_def bnd_def gets_def
          outside_def Let_def)
    then show ?thesis by simp
  qed
qed

text \<open>
  C9: As long as a session is outside, an event of any kind makes it do nothing but receive from
  the client's socket and send to it: no socket is opened, connected, bound or watched, and no name is looked up.
\<close>

theorem outside_reaches_nothing:
  assumes "outside s" and "ptr_handler p flags s = (r, t)" and "p \<notin> {PNull, PServer}"
  shows "\<exists>h. trace t = h @ trace s
    \<and> fst ` set h \<subseteq> insert (recv_call s) (range (Sys_send (se_client (sess s))))"
proof (cases p)
  case (PClient n)
  then show ?thesis using outside_client_calls [OF assms(1), of n flags] assms(2) by simp
qed (use assms in \<open>auto simp: process_remote_event_def process_udp_event_def process_dns_event_def outside_def
      bnd_def the_remote_def the_udp_def gets_def local_buffer_def uninit_def split: if_splits\<close>)

theorem outside_reaches_nothing_witness:
  "\<exists>h. trace (snd (ptr_handler (PClient 0) Ev_Read login)) = h
    \<and> fst ` set h \<subseteq> insert (Sys_recv 7 SESSION_BUFFER) (range (Sys_send 7))"
proof -
  have o: "outside login" "trace login = []" "se_client (sess login) = 7"
    by (simp_all add: outside_def login_def session_at_def MemoryBuffer_null_def)
  show ?thesis
    using outside_reaches_nothing [OF o(1), of "PClient 0" Ev_Read] o(2,3)
    by (cases "ptr_handler (PClient 0) Ev_Read login") auto
qed

end
