(* ===== verification/Forwarding.thy ===== *)
theory Forwarding
  imports Authentication
begin

section \<open>A connected session forwards every byte\<close>

text \<open>
  The relay of \<open>Relay\<close> seen from the handlers: what a connected session receives from one side
  is, byte for byte and in order, what it sends to the other side or has scheduled for it. The
  runs are those in which a side is read only while nothing is scheduled for the other,
  which is what the events the session asks the poller for provide; the last section shows what
  happens in the one case in which they do not.
\<close>

subsection \<open>What has been received\<close>

text \<open>The bytes that all calls of \<open>recv\<close> on a socket have delivered.\<close>

definition obtained :: "int \<Rightarrow> history \<Rightarrow> bytes" where
  "obtained fd h = concat (map (\<lambda>(c, r). case c of
     Sys_recv f n \<Rightarrow> if f = fd \<and> sr_ok r then take n (sr_data r) else [] | _ \<Rightarrow> []) (rev h))"

lemma obtained_append: "obtained fd (h @ h') = obtained fd h' @ obtained fd h"
  by (simp add: obtained_def)

lemma delivered_append: "delivered fd (h @ h') = delivered fd h' @ delivered fd h"
  by (simp add: delivered_def)

lemma relay_calls_obtain: "\<forall>(c, r) \<in> set h. relay_call f c \<Longrightarrow> obtained fd h = []"
  by (auto simp: obtained_def relay_call_def split: syscall.splits) 

lemma relay_calls_deliver: "\<forall>(c, r) \<in> set h. relay_call f c \<Longrightarrow> f \<noteq> fd \<Longrightarrow> delivered fd h = []"
  by (auto simp: delivered_def relay_call_def split: syscall.splits)

lemma obtained_recv:
  fixes s :: sstate
  shows "obtained fd (trace (after (Sys_recv f SESSION_BUFFER) s)) =
    obtained fd (trace s) @ (if f = fd then arrived_on f s else [])"
  by (simp add: obtained_def arrived_on_def Let_def)

subsection \<open>The two handlers of a connected session\<close>

text \<open>Both sides exist, on different sockets, with usable buffers, and the destination has answered.\<close>

definition connected :: "sstate \<Rightarrow> bool" where
  "connected s \<longleftrightarrow> se_state (sess s) = Connected \<and> relay_inv ClientSide s \<and> relay_inv RemoteSide s
     \<and> fd_of ClientSide (sess s) \<noteq> fd_of RemoteSide (sess s)
     \<and> (\<forall>r. se_remote (sess s) = Some r \<longrightarrow> rs_connected r)"

text \<open>The socket of a side, as the poller names it.\<close>

fun side_ptr :: "side \<Rightarrow> nat \<Rightarrow> ptr" where
  "side_ptr ClientSide n = PClient n"
| "side_ptr RemoteSide n = PRemote n"

definition room_event :: "u32 \<Rightarrow> bool" where
  "room_event flags \<longleftrightarrow> flags AND (Ev_Closed OR Ev_Error) = 0 \<and> flags AND Ev_Write \<noteq> 0"

lemma flags_split: "flags AND (Ev_Closed OR Ev_Error) = 0 \<longleftrightarrow> flags AND Ev_Closed = 0 \<and> flags AND Ev_Error = 0"
  by (simp add: bit.conj_disj_distrib or_eq_0_iff)

lemma connected_remote: "connected s \<Longrightarrow> \<exists>r. se_remote (sess s) = Some r \<and> rs_connected r \<and> fd_of RemoteSide (sess s) = rs_fd r"
  by (auto simp: connected_def relay_inv_def)

lemma connected_data_event:
  assumes "connected s" and "data_event flags"
  shows "ptr_handler (side_ptr d n) flags s =
    (let fd = fd_of d (sess s); s1 = after (Sys_recv fd SESSION_BUFFER) s in
     if arrived_on fd s = [] then (Inr False, s1)
     else session_socket_send (other_side d) (Some (received_on fd s)) s1)"
proof (cases d)
  case ClientSide
  then show ?thesis
    using assms connected_remote [OF assms(1)]
    by (auto simp: process_client_event_data process_client_def bnd_gets bnd_def the_remote_def gets_def
        connected_def Let_def)
next
  case RemoteSide
  then show ?thesis
    using assms connected_remote [OF assms(1)] arrived_failed [of s "fd_of RemoteSide (sess s)"]
    by (auto simp: process_remote_event_def process_remote_def bnd_gets bnd_def the_remote_def gets_def
        connected_def data_event_def flags_split local_buffer_def uninit_def hook_remote_recv_def recv_exec Let_def)
qed

lemma connected_room_event:
  assumes "connected s" and "room_event flags"
  shows "ptr_handler (side_ptr d n) flags s = session_socket_send d None s"
  using assms connected_remote [OF assms(1)]
  by (cases d) (auto simp: process_client_event_def process_remote_event_def room_event_def flags_split
    bnd_def the_remote_def gets_def)

subsection \<open>Runs\<close>

inductive relay_step :: "sstate \<Rightarrow> sstate \<Rightarrow> bool" where
  data: "\<not> relay_busy (other_side d) s \<Longrightarrow> data_event flags \<Longrightarrow>
    ptr_handler (side_ptr d n) flags s = (Inr True, t) \<Longrightarrow> relay_step s t"
| room: "relay_busy d s \<Longrightarrow> room_event flags \<Longrightarrow>
    ptr_handler (side_ptr d n) flags s = (Inr True, t) \<Longrightarrow> relay_step s t"

text \<open>What a step of one side means for both.\<close>

lemma other_other [simp]: "other_side (other_side d) = d"
  by (cases d) simp_all

lemma other_cases: "e = d \<or> e = other_side d"
  by (cases d; cases e) simp_all

lemma scheduled_other [simp]: "scheduled_for (other_side d) (schedule d q se) = scheduled_for (other_side d) se"
  by (cases d) simp_all

lemma one_side_other:
  assumes "one_side d s t" and "fd_of d (sess s) \<noteq> fd_of (other_side d) (sess s)"
  shows "stream (other_side d) t = stream (other_side d) s" and "\<And>e. fd_of e (sess t) = fd_of e (sess s)"
    and "relay_inv (other_side d) t = relay_inv (other_side d) s"
    and "se_state (sess t) = se_state (sess s)" and "se_remote (sess t) = se_remote (sess s)"
    and "\<And>fd. obtained fd (trace t) = obtained fd (trace s)"
proof -
  obtain h where h: "trace t = h @ trace s" "\<forall>(c, r) \<in> set h. relay_call (fd_of d (sess s)) c"
    using assms(1) by (auto simp: one_side_def)
  have sess: "sess t = sess s \<or> (\<exists>q. sess t = schedule d q (sess s))"
    using assms(1) by (simp add: one_side_def)
  then show fd: "\<And>e. fd_of e (sess t) = fd_of e (sess s)"
    and "se_state (sess t) = se_state (sess s)" and r: "se_remote (sess t) = se_remote (sess s)"
    by auto
  have q: "scheduled_for (other_side d) (sess t) = scheduled_for (other_side d) (sess s)"
    using sess by auto
  then show "stream (other_side d) t = stream (other_side d) s"
    using relay_calls_deliver [OF h(2) assms(2)] by (simp add: stream_def delivered_append h(1) fd)
  show "relay_inv (other_side d) t = relay_inv (other_side d) s"
    using q r by (simp add: relay_inv_def)
  show "\<And>fd. obtained fd (trace t) = obtained fd (trace s)"
    using relay_calls_obtain [OF h(2)] by (simp add: obtained_append h(1))
qed

text \<open>Received from a side, and on its way to the other.\<close>

abbreviation taken_in :: "side \<Rightarrow> sstate \<Rightarrow> bytes" where
  "taken_in d s \<equiv> obtained (fd_of (other_side d) (sess s)) (trace s)"

definition forwards :: "sstate \<Rightarrow> sstate \<Rightarrow> bool" where
  "forwards s t \<longleftrightarrow> (\<forall>d. \<exists>xs. taken_in d t = taken_in d s @ xs \<and> stream d t = stream d s @ xs)"

lemma forwards_trans: "forwards s t \<Longrightarrow> forwards t u \<Longrightarrow> forwards s u"
  unfolding forwards_def by (metis append.assoc)

lemma forwardsI:
  assumes "taken_in d t = taken_in d s @ xs" "stream d t = stream d s @ xs"
    and "taken_in (other_side d) t = taken_in (other_side d) s" "stream (other_side d) t = stream (other_side d) s"
  shows "forwards s t"
  unfolding forwards_def
proof
  fix e
  show "\<exists>xs. taken_in e t = taken_in e s @ xs \<and> stream e t = stream e s @ xs"
    using other_cases [of e d] assms by auto
qed

lemma relay_step_forwards:
  assumes "relay_step s t" and "connected s"
  shows "connected t \<and> forwards s t"
  using assms(1)
proof cases
  case (data d flags n)
  let ?fd = "fd_of d (sess s)" and ?e = "other_side d"
  let ?s1 = "after (Sys_recv ?fd SESSION_BUFFER) s"
  have ne: "?fd \<noteq> fd_of ?e (sess s)" using assms(2) by (cases d) (auto simp: connected_def)
  have run: "session_socket_send ?e (Some (received_on ?fd s)) ?s1 = (Inr True, t)"
    using data(3) connected_data_event [OF assms(2) data(2), of d n] by (auto simp: Let_def split: if_splits)
  have inv: "relay_inv ?e ?s1" "relay_inv d ?s1" "\<not> relay_busy ?e ?s1"
    using assms(2) data(1) by (cases d; simp add: connected_def relay_inv_def relay_busy_def)+
  obtain m where m: "mb_ptr (received_on ?fd s) = Some m" "mb_size (received_on ?fd s) \<le> SESSION_BUFFER"
    by (auto simp: received_on_def arrived_on_def Let_def)
  note out = socket_send_out [OF inv(1,3) m run]
  have st1: "stream x ?s1 = stream x s" for x by (simp add: stream_def delivered_Cons)
  note side = one_side_other [of ?e ?s1 t, simplified]
  have frame: "stream d t = stream d s" "fd_of x (sess t) = fd_of x (sess s)" "relay_inv d t"
      "se_state (sess t) = se_state (sess s)" "se_remote (sess t) = se_remote (sess s)"
      "obtained fd (trace t) = obtained fd (trace ?s1)" for x fd
    using side out ne inv(2) st1 by auto
  have "connected t"
    using assms(2) out frame by (cases d) (auto simp: connected_def)
  moreover have "forwards s t"
  proof (rule forwardsI [where d = ?e])
    show "taken_in ?e t = taken_in ?e s @ arrived_on ?fd s"
      unfolding frame(2) frame(6) obtained_recv by simp
    show "stream ?e t = stream ?e s @ arrived_on ?fd s" using out st1 by simp
    show "taken_in (other_side ?e) t = taken_in (other_side ?e) s"
      unfolding frame(2) frame(6) obtained_recv using ne by simp
    show "stream (other_side ?e) t = stream (other_side ?e) s" using frame(1) by simp
  qed
  ultimately show ?thesis ..
next
  case (room d flags n)
  have ne: "fd_of d (sess s) \<noteq> fd_of (other_side d) (sess s)"
    using assms(2) by (cases d) (auto simp: connected_def)
  have run: "session_socket_send d None s = (Inr True, t)"
    using room(3) connected_room_event [OF assms(2) room(2)] by simp
  have "relay_inv d s" using assms(2) by (cases d) (auto simp: connected_def)
  note out = socket_flush_out [OF this room(1) run]
  note side = one_side_other [OF _ ne, of t]
  have "connected t"
    using assms(2) out side by (cases d) (auto simp: connected_def)
  moreover have "forwards s t"
    by (rule forwardsI [where d = d and xs = "[]"]) (use out side in auto)
  ultimately show ?thesis ..
qed

text \<open>
  C5: Over any run of a connected session's events in which a side is read only while nothing is
  scheduled for the other, and for both directions at once: the bytes received from a side
  are exactly the bytes that its peer's socket has taken or that are still scheduled for it, in order, none lost,
  added or repeated, however much of each buffer every call of \<open>send\<close> takes.
\<close>

theorem connected_session_forwards_every_byte:
  assumes "relay_step\<^sup>*\<^sup>* s t" and "connected s"
  shows "connected t \<and> (\<exists>xs. obtained (fd_of (other_side d) (sess t)) (trace t)
        = obtained (fd_of (other_side d) (sess s)) (trace s) @ xs \<and> stream d t = stream d s @ xs)"
proof -
  have "connected t \<and> forwards s t"
    using assms
  proof (induction rule: rtranclp_induct)
    case base
    then show ?case by (auto simp: forwards_def)
  next
    case (step t u)
    then show ?case using relay_step_forwards forwards_trans by blast
  qed
  then show ?thesis by (simp add: forwards_def)
qed

text \<open>Two connected sockets, 7 for the client and 9 for the destination.\<close>

definition pair :: "sysret list \<Rightarrow> sstate" where
  "pair rs = sstate_of (scripted rs) ServerParams_default ((session_at 0 7)\<lparr>se_state := Connected,
     se_remote := Some \<lparr>rs_fd = 9, rs_info = se_peer (session_at 0 7), rs_addresses = None, rs_idx = 0,
       rs_connected = True\<rparr>\<rparr>)"

lemma pair_sel [simp]:
  "os (pair rs) = scripted rs" "trace (pair rs) = []" "stack (pair rs) = (\<lambda>_ _. 0)"
  "se_client (sess (pair rs)) = 7" "se_id (sess (pair rs)) = 0" "se_state (sess (pair rs)) = Connected"
  "se_remote (sess (pair rs)) = Some \<lparr>rs_fd = 9, rs_info = se_peer (session_at 0 7), rs_addresses = None, rs_idx = 0,
       rs_connected = True\<rparr>"
  "se_client_buffer (sess (pair rs)) = MemoryBuffer_null" "se_remote_buffer (sess (pair rs)) = MemoryBuffer_null"
  by (simp_all add: pair_def session_at_def)

lemma connected_pair: "connected (pair rs)"
  by (simp add: connected_def relay_inv_def) (simp add: MemoryBuffer_null_def)

lemma idle_pair: "\<not> relay_busy d (pair rs)"
  by (cases d) (simp_all add: relay_busy_def MemoryBuffer_null_def)

theorem connected_session_forwards_every_byte_witness:
  "let s = pair [deliver [1, 2, 3] (SockIn [] 0), answer 1, answer 0, answer 0, answer 2];
       t = snd (ptr_handler (PRemote 0) Ev_Write (snd (ptr_handler (PClient 0) Ev_Read s)))
   in stream RemoteSide t = [1, 2, 3] \<and> obtained 7 (trace t) = [1, 2, 3] \<and> delivered 9 (trace t) = [1, 2, 3]"
proof -
  let ?s = "pair [deliver [1, 2, 3] (SockIn [] 0), answer 1, answer 0, answer 0, answer 2]"
  let ?t = "snd (ptr_handler (PClient 0) Ev_Read ?s)"
  let ?u = "snd (ptr_handler (PRemote 0) Ev_Write ?t)"
  have "fst (ptr_handler (PClient 0) Ev_Read ?s) = Inr True" "fst (ptr_handler (PRemote 0) Ev_Write ?t) = Inr True"
    by code_simp+
  then have runs: "ptr_handler (side_ptr ClientSide 0) Ev_Read ?s = (Inr True, ?t)"
      "ptr_handler (side_ptr RemoteSide 0) Ev_Write ?t = (Inr True, ?u)"
    by (simp_all add: prod_eq_iff)
  have "relay_busy RemoteSide ?t" unfolding relay_busy_def by code_simp
  moreover have "room_event Ev_Write" by (simp add: room_event_def ev_defs)
  ultimately have "relay_step ?t ?u" using runs(2) by (rule relay_step.room)
  moreover have "relay_step ?s ?t" by (rule relay_step.data [OF idle_pair data_event_Read runs(1)])
  ultimately have "relay_step\<^sup>*\<^sup>* ?s ?u" by (rule converse_rtranclp_into_rtranclp [rotated, OF r_into_rtranclp])
  from connected_session_forwards_every_byte [OF this connected_pair, of RemoteSide]
  have "stream RemoteSide ?u = obtained (se_client (sess ?u)) (trace ?u)"
    by (auto simp: stream_def obtained_def delivered_def MemoryBuffer_null_def mb_data.simps)
  moreover have "obtained (se_client (sess ?u)) (trace ?u) = [1, 2, 3]" "se_client (sess ?u) = 7"
      "delivered 9 (trace ?u) = [1, 2, 3]" by code_simp+
  ultimately show ?thesis by (simp add: Let_def)
qed

subsection \<open>Back-pressure\<close>

lemma connected_parts:
  assumes "connected s"
  shows "se_remote (sess s) \<noteq> None" "relay_inv d s" "fd_of d (sess s) \<noteq> fd_of (other_side d) (sess s)"
  using assms by (cases d; auto simp: connected_def relay_inv_def)+

lemma calls_Cons: "calls (s\<lparr>trace := x # trace s, errno := e\<rparr>) = calls s @ [fst x]"
  by (simp add: calls_def)

text \<open>
  C23: When the other socket takes less than a side has sent, the session keeps exactly the rest,
  waits for room there, and reads the sending side no more: its socket is watched for the end of the
  connection only.
\<close>

theorem backpressure_stops_reading:
  fixes s :: sstate
  assumes "connected s" and "data_event flags" and idle: "\<not> relay_busy (other_side d) s"
    and bs: "bs = arrived_on (fd_of d (sess s)) s" "bs \<noteq> []"
    and r: "r = send_answer (other_side d) bs (after (Sys_recv (fd_of d (sess s)) SESSION_BUFFER) s)"
    and partial: "(sr_ok r \<and> sr_val r < length bs) \<or> would_block r"
  shows "\<exists>t. ptr_handler (side_ptr d n) flags s = (Inr True, t) \<and> relay_busy (other_side d) t
    \<and> mb_data (scheduled_for (other_side d) (sess t)) = drop (length (taken r bs)) bs
    \<and> calls t = calls s @ [Sys_recv (fd_of d (sess s)) SESSION_BUFFER, Sys_send (fd_of (other_side d) (sess s)) bs,
        mod_event (other_side d) (sess s) (Ev_Write OR Ev_Closed), mod_event d (sess s) Ev_Closed]"
proof -
  let ?e = "other_side d" and ?fd = "fd_of d (sess s)"
  let ?b = "received_on ?fd s" and ?s1 = "after (Sys_recv ?fd SESSION_BUFFER) s"
  have run: "ptr_handler (side_ptr d n) flags s = session_socket_send ?e (Some ?b) ?s1"
    using bs connected_data_event [OF assms(1,2), of d n] by (simp add: Let_def)
  obtain m where b: "mb_ptr ?b = Some m" "mb_size ?b \<le> SESSION_BUFFER"
    by (auto simp: received_on_def arrived_on_def Let_def)
  have pre: "se_remote (sess ?s1) \<noteq> None" "mb_size (scheduled_for ?e (sess ?s1)) = 0" "mb_wf (scheduled_for ?e (sess ?s1))"
      "mb_ptr (scheduled_for ?e (sess ?s1)) = None \<or> mb_cap (scheduled_for ?e (sess ?s1)) = SESSION_BUFFER"
    using connected_parts(1) [OF assms(1)] connected_parts(2) [OF assms(1), of ?e] idle by (auto simp: relay_inv_def relay_busy_def)
  have r': "r = send_answer ?e (mb_data ?b) ?s1" using r bs by simp
  have part: "(sr_ok r \<and> taken r (mb_data ?b) \<noteq> mb_data ?b) \<or> would_block r"
    using partial bs by (auto simp: taken_def)
  obtain q where q: "session_socket_send ?e (Some ?b) ?s1 =
        (let s2 = (after (Sys_send (fd_of ?e (sess ?s1)) (mb_data ?b)) ?s1)\<lparr>sess := schedule ?e q (sess ?s1)\<rparr>;
             s3 = after (mod_event ?e (sess ?s1) (Ev_Write OR Ev_Closed)) s2
         in (Inr True, after (mod_event (other_side ?e) (sess ?s1) Ev_Closed) s3))"
    and wf: "mb_wf q" "mb_ptr q \<noteq> None" and data: "taken r (mb_data ?b) @ mb_data q = mb_data ?b"
    using send_fresh(3) [OF pre(1,2) b pre(3,4) r' refl part] by blast
  let ?s2 = "(after (Sys_send (fd_of ?e (sess s)) bs) ?s1)\<lparr>sess := schedule ?e q (sess s)\<rparr>"
  define t where "t = after (mod_event d (sess s) Ev_Closed) (after (mod_event ?e (sess s) (Ev_Write OR Ev_Closed)) ?s2)"
  have run': "ptr_handler (side_ptr d n) flags s = (Inr True, t)"
    unfolding run q using bs by (simp add: Let_def t_def)
  have dq: "mb_data q = drop (length (taken r bs)) bs" using data bs by (metis append_eq_conv_conj received_on_sel(2))
  have "length (taken r bs) < length bs" using partial bs by (auto simp: taken_def would_block_def)
  then have "mb_data q \<noteq> []" by (simp add: dq)
  then have "mb_size q > 0" using length_mb_data [OF wf(2)] by (metis length_greater_0_conv)
  then have "relay_busy ?e t" by (simp add: relay_busy_def t_def)
  moreover have "calls t = calls s @ [Sys_recv ?fd SESSION_BUFFER, Sys_send (fd_of ?e (sess s)) bs,
        mod_event ?e (sess s) (Ev_Write OR Ev_Closed), mod_event d (sess s) Ev_Closed]"
    by (simp add: t_def calls_def)
  ultimately show ?thesis using run' dq by (auto simp: t_def)
qed

theorem backpressure_stops_reading_witness:
  "\<exists>t. ptr_handler (PClient 0) Ev_Read (pair [deliver [1, 2, 3] (SockIn [] 0), answer 1]) = (Inr True, t)
    \<and> mb_data (se_remote_buffer (sess t)) = [2, 3]
    \<and> calls t = [Sys_recv 7 SESSION_BUFFER, Sys_send 9 [1, 2, 3], Sys_epoll_ctl EPOLL_CTL_MOD 9 (PRemote 0) (Ev_Write OR Ev_Closed),
        Sys_epoll_ctl EPOLL_CTL_MOD 7 (PClient 0) Ev_Closed]"
proof -
  let ?s = "pair [deliver [1, 2, 3] (SockIn [] 0), answer 1]"
  have a: "[1, 2, 3] = arrived_on (fd_of ClientSide (sess ?s)) ?s" by code_simp
  have r: "answer 1 = send_answer (other_side ClientSide) [1, 2, 3]
      (after (Sys_recv (fd_of ClientSide (sess ?s)) SESSION_BUFFER) ?s)"
    by (simp add: scripted_def)
  have "calls ?s = []" by (simp add: calls_def)
  then show ?thesis
    using backpressure_stops_reading [OF connected_pair data_event_Read idle_pair a _ r, of 0]
    by (auto simp: taken_def answer_def)
qed

text \<open>
  C12: Once the socket has taken all that was scheduled for it, nothing is scheduled and
  both sides are read again.
\<close>

theorem flush_resumes_reading:
  fixes s :: sstate
  assumes "connected s" and "room_event flags" and busy: "relay_busy d s"
    and bs: "bs = mb_data (scheduled_for d (sess s))"
    and r: "r = send_answer d bs s" "sr_ok r" "sr_val r \<ge> length bs"
  shows "\<exists>t. ptr_handler (side_ptr d n) flags s = (Inr True, t) \<and> \<not> relay_busy d t
    \<and> calls t = calls s @ [Sys_send (fd_of d (sess s)) bs,
        mod_event d (sess s) (Ev_Read OR Ev_Closed), mod_event (other_side d) (sess s) (Ev_Read OR Ev_Closed)]"
proof -
  have pre: "se_remote (sess s) \<noteq> None" "mb_size (scheduled_for d (sess s)) > 0" "mb_ptr (scheduled_for d (sess s)) \<noteq> None"
    using connected_parts(1) [OF assms(1)] connected_parts(2) [OF assms(1), of d] busy by (auto simp: relay_inv_def relay_busy_def mb_wf_def)
  have all: "taken r bs = bs" using r by (simp add: taken_def)
  note run = send_flush(1) [OF pre bs r(1) refl all r(2)]
  show ?thesis
    unfolding connected_room_event [OF assms(1,2)] run
    by (simp add: Let_def relay_busy_def set_size_def calls_def)
qed

text \<open>A session with something scheduled for the destination.\<close>

definition waiting :: "sysret list \<Rightarrow> sstate" where
  "waiting rs = (pair rs)\<lparr>sess := (sess (pair rs))\<lparr>se_remote_buffer :=
     MemoryBuffer (mem_write (\<lambda>_. 0) 0 [2, 3]) 2 SESSION_BUFFER\<rparr>\<rparr>"

lemma waiting_sel [simp]:
  "os (waiting rs) = scripted rs" "trace (waiting rs) = []"
  "se_client (sess (waiting rs)) = 7" "se_id (sess (waiting rs)) = 0" "se_remote (sess (waiting rs)) = se_remote (sess (pair rs))"
  "mb_data (se_remote_buffer (sess (waiting rs))) = [2, 3]"
  using mem_read_write_same [of "\<lambda>_. 0" 0 "[2, 3]"]
  by (simp_all add: waiting_def mb_data_MemoryBuffer)

lemma connected_waiting: "connected (waiting rs)" and busy_waiting: "relay_busy RemoteSide (waiting rs)"
  by (simp_all add: connected_def relay_inv_def relay_busy_def waiting_def MemoryBuffer_def MemoryBuffer_null_def
      mb_wf_def SESSION_BUFFER_def)

theorem flush_resumes_reading_witness:
  "\<exists>t. ptr_handler (PRemote 0) Ev_Write (waiting [answer 2]) = (Inr True, t) \<and> \<not> relay_busy RemoteSide t
    \<and> calls t = [Sys_send 9 [2, 3], Sys_epoll_ctl EPOLL_CTL_MOD 9 (PRemote 0) (Ev_Read OR Ev_Closed),
        Sys_epoll_ctl EPOLL_CTL_MOD 7 (PClient 0) (Ev_Read OR Ev_Closed)]"
proof -
  let ?s = "waiting [answer 2]"
  have r: "answer 2 = send_answer RemoteSide [2, 3] ?s" by (simp add: scripted_def)
  have "room_event Ev_Write" by (simp add: room_event_def ev_defs)
  from flush_resumes_reading [OF connected_waiting this busy_waiting _ r, of 0]
  show ?thesis by (simp add: calls_def)
qed

text \<open>
  C37: When the socket takes only a part of what was scheduled, the write event follows a null
  pointer: the copy of the rest starts from the argument that such an event does not have.
\<close>

theorem partial_flush_follows_null:
  fixes s :: sstate
  assumes "connected s" and "room_event flags" and busy: "relay_busy d s"
    and r: "r = send_answer d (mb_data (scheduled_for d (sess s))) s" "sr_ok r"
      "sr_val r < length (mb_data (scheduled_for d (sess s)))"
  shows "fst (ptr_handler (side_ptr d n) flags s) = Inl (UndefinedBehaviour ''null buffer'')"
proof -
  have pre: "se_remote (sess s) \<noteq> None" "mb_size (scheduled_for d (sess s)) > 0" "mb_ptr (scheduled_for d (sess s)) \<noteq> None"
    using connected_parts(1) [OF assms(1)] connected_parts(2) [OF assms(1), of d] busy by (auto simp: relay_inv_def relay_busy_def mb_wf_def)
  have "taken r (mb_data (scheduled_for d (sess s))) \<noteq> mb_data (scheduled_for d (sess s))"
    using r by (auto simp: taken_def)
  then show ?thesis
    unfolding connected_room_event [OF assms(1,2)]
    using send_flush(4) [OF pre refl r(1) refl r(2)] by simp
qed

theorem partial_flush_follows_null_witness:
  "fst (ptr_handler (PRemote 0) Ev_Write (waiting [answer 1])) = Inl (UndefinedBehaviour ''null buffer'')"
proof -
  have "room_event Ev_Write" by (simp add: room_event_def ev_defs)
  from partial_flush_follows_null [OF connected_waiting this busy_waiting refl, of "[answer 1]" 0]
  show ?thesis by (simp add: scripted_def answer_def)
qed

text \<open>With something scheduled, the argument only matters for the rest of a partial send.\<close>

lemma busy_ignores_argument:
  fixes s :: sstate
  assumes rem: "se_remote (sess s) \<noteq> None" and busy: "relay_busy d s" and ptr: "mb_ptr (scheduled_for d (sess s)) \<noteq> None"
    and r: "r = send_answer d (mb_data (scheduled_for d (sess s))) s"
    and full: "\<not> sr_ok r \<or> taken r (mb_data (scheduled_for d (sess s))) = mb_data (scheduled_for d (sess s))"
  shows "session_socket_send d ob s = session_socket_send d None s"
proof -
  let ?q = "scheduled_for d (sess s)"
  define res where "res = (if sr_ok r then int (min (sr_val r) (mb_size ?q)) else -1)"
  have len: "length (mb_data ?q) = mb_size ?q" using ptr by (simp add: length_mb_data)
  have sent: "side_send d (fd_of d (sess s)) ?q s = (Inr res, after (Sys_send (fd_of d (sess s)) (mb_data ?q)) s)"
    using len r by (simp add: side_send_eq sys_send_def bnd_def syscall_def Let_def res_def)
  have "res = -1 \<or> res = int (mb_size ?q)" using full len by (auto simp: taken_def res_def)
  then show ?thesis
    using busy by (auto simp: session_socket_send_def bnd_def gets_def side_socket_exec [OF rem] sent relay_busy_def
        when_do_def Let_def seq_def)
qed

text \<open>
  C36: A side that is read while something is scheduled for the other loses what it sent: the
  session receives the bytes and goes on, but sends only what was scheduled before. The two read
  events of one poll can do this when both directions fill up, since stopping one side
  also takes back the other's wait for room.
\<close>

theorem read_while_scheduled_loses_data:
  fixes s :: sstate
  assumes "connected s" and "data_event flags" and busy: "relay_busy (other_side d) s"
    and bs: "bs = arrived_on (fd_of d (sess s)) s" "bs \<noteq> []"
    and r: "r = send_answer (other_side d) (mb_data (scheduled_for (other_side d) (sess s)))
       (after (Sys_recv (fd_of d (sess s)) SESSION_BUFFER) s)" "sr_ok r"
      "sr_val r \<ge> length (mb_data (scheduled_for (other_side d) (sess s)))"
  shows "\<exists>t. ptr_handler (side_ptr d n) flags s = (Inr True, t)
    \<and> obtained (fd_of d (sess t)) (trace t) = obtained (fd_of d (sess s)) (trace s) @ bs
    \<and> \<not> relay_busy (other_side d) t \<and> stream (other_side d) t = stream (other_side d) s"
proof -
  let ?e = "other_side d" and ?fd = "fd_of d (sess s)"
  let ?s1 = "after (Sys_recv ?fd SESSION_BUFFER) s" and ?q = "scheduled_for ?e (sess s)"
  have inv: "relay_inv ?e ?s1" "relay_busy ?e ?s1"
    using connected_parts(2) [OF assms(1), of ?e] busy by (simp_all add: relay_inv_def relay_busy_def)
  have pre: "se_remote (sess ?s1) \<noteq> None" "mb_size (scheduled_for ?e (sess ?s1)) > 0" "mb_ptr (scheduled_for ?e (sess ?s1)) \<noteq> None"
    using inv by (auto simp: relay_inv_def relay_busy_def mb_wf_def)
  have r1: "r = send_answer ?e (mb_data (scheduled_for ?e (sess ?s1))) ?s1" using r by simp
  have full: "taken r (mb_data (scheduled_for ?e (sess ?s1))) = mb_data (scheduled_for ?e (sess ?s1))"
    using r by (simp add: taken_def)
  note flush = send_flush(1) [OF pre refl r1 refl full r(2)]
  obtain t where t: "session_socket_send ?e None ?s1 = (Inr True, t)" "\<not> relay_busy ?e t"
    unfolding flush by (auto simp: Let_def relay_busy_def set_size_def)
  have run: "ptr_handler (side_ptr d n) flags s = (Inr True, t)"
    using bs connected_data_event [OF assms(1,2), of d n]
      busy_ignores_argument [OF pre(1) inv(2) pre(3) r1] full t(1) by (simp add: Let_def)
  note out = socket_flush_out [OF inv t(1)]
  have ne: "fd_of ?e (sess ?s1) \<noteq> fd_of (other_side ?e) (sess ?s1)"
    using connected_parts(3) [OF assms(1), of d] by simp
  have "one_side ?e ?s1 t" using out by simp
  note frame = one_side_other [OF this ne]
  have "obtained (fd_of d (sess t)) (trace t) = obtained ?fd (trace s) @ bs"
    unfolding frame(2) frame(6) using bs(1) obtained_recv [where fd = ?fd and f = ?fd and s = s] by simp
  moreover have "stream ?e t = stream ?e s" using out by (simp add: stream_def delivered_Cons)
  ultimately show ?thesis using run t(2) by blast
qed

theorem read_while_scheduled_loses_data_witness:
  "\<exists>t. ptr_handler (PClient 0) Ev_Read (waiting [deliver [4, 5] (SockIn [] 0), answer 2]) = (Inr True, t)
    \<and> obtained 7 (trace t) = [4, 5] \<and> stream RemoteSide t = [2, 3]"
proof -
  let ?s = "waiting [deliver [4, 5] (SockIn [] 0), answer 2]"
  have busy: "relay_busy (other_side ClientSide) ?s" using busy_waiting by simp
  have a: "[4, 5] = arrived_on (fd_of ClientSide (sess ?s)) ?s" by code_simp
  have r: "answer 2 = send_answer (other_side ClientSide) (mb_data (scheduled_for (other_side ClientSide) (sess ?s)))
      (after (Sys_recv (fd_of ClientSide (sess ?s)) SESSION_BUFFER) ?s)"
    by (simp add: scripted_def)
  have "stream RemoteSide ?s = [2, 3]" "obtained 7 (trace ?s) = []"
    by (simp_all add: stream_def delivered_def obtained_def)
  moreover obtain t where "ptr_handler (side_ptr ClientSide 0) Ev_Read ?s = (Inr True, t)"
      "obtained (se_client (sess t)) (trace t) = obtained 7 (trace ?s) @ [4, 5]" "stream RemoteSide t = stream RemoteSide ?s"
    using read_while_scheduled_loses_data [OF connected_waiting data_event_Read busy a _ r, of 0] by auto
  moreover have "se_client (sess t) = 7"
    using handler_grows [of ?s "PClient 0" Ev_Read] calculation(3) by (simp add: grows_def)
  ultimately show ?thesis by auto
qed

end
