(* ===== verification/Connecting.thy ===== *)
theory Connecting
  imports Forwarding
begin

section \<open>Commands and connections\<close>

text \<open>
  From the command of an authenticated client to a working connection or association: what each
  request makes the session do, in which order the addresses of a destination are tried, and
  which reply the client gets on every path.
\<close>

subsection \<open>Trying the addresses of a destination\<close>

text \<open>The call that connects to an address, and whether its answer lets the session wait.\<close>

definition connect_call :: "int \<Rightarrow> ipaddress \<Rightarrow> syscall" where
  "connect_call fd a = Sys_connect fd (ia_sockaddr a) (sa_len (ia_sockaddr a))"

definition in_progress :: "sysret \<Rightarrow> bool" where
  "in_progress r \<longleftrightarrow> sr_ok r \<or> sr_errno r \<in> {EWOULDBLOCK, EAGAIN, EINPROGRESS}"

text \<open>The reply about an address of the destination.\<close>

definition address_reply :: "reply \<Rightarrow> ipaddress \<Rightarrow> sstate \<Rightarrow> bytes" where
  "address_reply rep a s = (let m = reply_block rep (addr_type_of_ip a) (bytes_mem (ia_storage a)) (ia_port a)
       (stack s (trace s)) in mem_read m 0 (S5R_get_size m 0))"

abbreviation reply_call :: "reply \<Rightarrow> ipaddress \<Rightarrow> sstate \<Rightarrow> syscall" where
  "reply_call rep a s \<equiv> Sys_send (se_client (sess s)) (address_reply rep a s)"

lemma reply_remote_exec:
  fixes s :: sstate
  assumes "rep \<noteq> Rep_Success"
  shows "reply_remote_connection rep (addr_type_of_ip a) (bytes_mem (ia_storage a)) (ia_port a) s =
    (Inr False, if se_state (sess s) = ConnectingRemote then after (reply_call rep a s) s else s)"
  using assms
  by (simp add: reply_remote_connection_def bnd_gets seq_def when_do_def bnd_def send_reply_def uninit_def
      sys_send_def syscall_def gets_def Let_def address_reply_def)

text \<open>One step: the next address, or the verdict on the last.\<close>

abbreviation at_index :: "remotesock \<Rightarrow> nat \<Rightarrow> sstate \<Rightarrow> sstate" where
  "at_index r i s \<equiv> s\<lparr>sess := (sess s)\<lparr>se_remote := Some (r\<lparr>rs_idx := of_nat i\<rparr>)\<rparr>\<rparr>"

lemma try_connect_next_exec:
  fixes s :: sstate
  assumes r: "se_remote (sess s) = Some r" "rs_addresses r = Some as" "rs_idx r + 1 = of_nat i"
    and i: "i \<le> length as" "length as < 2 ^ 64" and st: "se_state (sess s) = ConnectingRemote"
  defines "t \<equiv> at_index r i s"
  shows "i < length as \<Longrightarrow> in_progress (os s (trace s) (connect_call (rs_fd r) (as ! i))) \<Longrightarrow>
      try_connect_next s = (Inr True, after (connect_call (rs_fd r) (as ! i)) t)"
    and "i < length as \<Longrightarrow> \<not> in_progress (os s (trace s) (connect_call (rs_fd r) (as ! i))) \<Longrightarrow>
      try_connect_next s = (Inr False, let u = after (connect_call (rs_fd r) (as ! i)) t
        in after (reply_call Rep_GeneralFailure (as ! i) u) u)"
    and "i = length as \<Longrightarrow> as \<noteq> [] \<Longrightarrow>
      try_connect_next s = (Inr False, after (reply_call Rep_Unreachable (last as) t) t)"
proof -
  have idx: "unat (rs_idx r + 1) = i" using r(3) i by (simp add: unat_of_nat)
  have run: "try_connect_next s = (
          if i \<le> length as then
            bnd (vector_at as (if i = length as then rs_idx r + 1 - 1 else rs_idx r + 1)) (\<lambda>addr.
              if i = length as then
                bnd (reply_remote_connection Rep_Unreachable (addr_type_of_ip addr)
                       (bytes_mem (ia_storage addr)) (ia_port addr)) (\<lambda>_. ret False)
              else bnd (Socket_connect (rs_fd r) (ia_sockaddr addr) (sa_len (ia_sockaddr addr))) (\<lambda>res.
                bnd (asks errno) (\<lambda>err.
                  if res < 0 \<and> err \<noteq> EWOULDBLOCK \<and> err \<noteq> EAGAIN \<and> err \<noteq> EINPROGRESS then
                    bnd (reply_remote_connection Rep_GeneralFailure (addr_type_of_ip addr)
                           (bytes_mem (ia_storage addr)) (ia_port addr)) (\<lambda>_. ret False)
                  else ret True)))
          else ret False) t"
    using r idx by (simp add: try_connect_next_def bnd_def the_remote_def gets_def seq_def set_remote_def
        sets_def t_def Let_def)
  have connect: "Socket_connect fd (ia_sockaddr a) (sa_len (ia_sockaddr a)) u =
      (Inr (if sr_ok (os u (trace u) (connect_call fd a)) then int (sr_val (os u (trace u) (connect_call fd a))) else -1),
       after (connect_call fd a) u)" for fd a and u :: sstate
    by (simp add: Socket_connect_def sys_int_def bnd_def syscall_def Let_def connect_call_def)
  have here: "vector_at as (rs_idx r + 1) u = (Inr (as ! i), u)" if "i < length as" for u :: sstate
    using that idx by (simp add: vector_at_def)
  show "try_connect_next s = (Inr True, after (connect_call (rs_fd r) (as ! i)) t)"
    if "i < length as" "in_progress (os s (trace s) (connect_call (rs_fd r) (as ! i)))"
    using that by (auto simp: run bnd_def here connect in_progress_def t_def)
  show "try_connect_next s = (Inr False, let u = after (connect_call (rs_fd r) (as ! i)) t
        in after (reply_call Rep_GeneralFailure (as ! i) u) u)"
    if "i < length as" "\<not> in_progress (os s (trace s) (connect_call (rs_fd r) (as ! i)))"
    using that st by (simp add: run bnd_def here connect in_progress_def t_def reply_remote_exec Let_def)
  show "try_connect_next s = (Inr False, after (reply_call Rep_Unreachable (last as) t) t)"
    if "i = length as" "as \<noteq> []"
  proof -
    have "rs_idx r = of_nat (length as - 1)"
      using r(3) that by (metis add_diff_cancel_right' of_nat_1 of_nat_diff length_greater_0_conv Suc_leI One_nat_def)
    then have "unat (rs_idx r) = length as - 1" using i by (simp add: unat_of_nat)
    then have "vector_at as (rs_idx r) u = (Inr (last as), u)" for u :: sstate
      using that by (simp add: vector_at_def last_conv_nth)
    then show ?thesis using that st by (simp add: run bnd_def reply_remote_exec t_def)
  qed
qed

text \<open>The address as the client sees it in a reply.\<close>

definition ia_endpoint :: "ipaddress \<Rightarrow> endpoint" where
  "ia_endpoint a = (if ia_version a = IPv4 then EpIPv4 (take 4 (ia_storage a)) (ia_port a)
     else EpIPv6 (take 16 (ia_storage a)) (ia_port a))"

lemma ia_endpoint_props:
  assumes "ia_ok a"
  shows "ep_ok (ia_endpoint a)" "ep_type (ia_endpoint a) = addr_type_of_ip a" "ep_port (ia_endpoint a) = ia_port a"
    "ep_src (bytes_mem (ia_storage a)) (ia_endpoint a)"
  using assms
  by (auto simp: ia_endpoint_def ia_ok_def addr_type_of_ip_def ep_src_def bytes_mem_def mem_read_write_prefix)

lemma address_reply_wire:
  assumes "ia_ok a"
  shows "address_reply rep a s = [5, reply_byte rep, stack s (trace s) 2] @ ep_wire (ia_endpoint a)"
  using reply_block_wire [OF ia_endpoint_props(1,4) [OF assms], of rep "stack s (trace s)"]
  by (simp add: address_reply_def ia_endpoint_props [OF assms] Let_def)

subsection \<open>A kernel for the examples\<close>

text \<open>Every call succeeds, except that a connection takes time; the client asks for this.\<close>

definition slow_connect :: "bytes \<Rightarrow> history \<Rightarrow> syscall \<Rightarrow> sysret" where
  "slow_connect d h c = (case c of Sys_connect _ _ _ \<Rightarrow> refuse EINPROGRESS | Sys_recv _ _ \<Rightarrow> deliver d (SockIn [] 0)
     | _ \<Rightarrow> answer 10)"

definition no_connect :: "bytes \<Rightarrow> history \<Rightarrow> syscall \<Rightarrow> sysret" where
  "no_connect d h c = (case c of Sys_connect _ _ _ \<Rightarrow> refuse 111 | _ \<Rightarrow> slow_connect d h c)"

definition two_addresses :: "ipaddress list" where
  "two_addresses = [\<lparr>ia_storage = [10, 0, 0, 1] @ replicate 12 0, ia_port = 80, ia_version = IPv4\<rparr>,
     \<lparr>ia_storage = [10, 0, 0, 2] @ replicate 12 0, ia_port = 80, ia_version = IPv4\<rparr>]"

definition trying :: "64 word \<Rightarrow> sstate" where
  "trying i = sstate_of (slow_connect []) ServerParams_default ((session_at 0 7)\<lparr>se_state := ConnectingRemote,
     se_remote := Some \<lparr>rs_fd = 9, rs_info = se_peer (session_at 0 7), rs_addresses = Some two_addresses,
       rs_idx = i, rs_connected = False\<rparr>\<rparr>)"


definition connecting :: "nat \<Rightarrow> remotesock \<Rightarrow> ipaddress list \<Rightarrow> sstate \<Rightarrow> bool" where
  "connecting k r as s \<longleftrightarrow> se_remote (sess s) = Some r \<and> rs_addresses r = Some as \<and> rs_idx r + 1 = of_nat k
     \<and> \<not> rs_connected r \<and> se_state (sess s) = ConnectingRemote"

lemma error_event_exec:
  "connecting k r as s \<Longrightarrow> process_remote_event Ev_Error s = try_connect_next s"
proof -
  assume "connecting k r as s"
  moreover have "Ev_Error AND Ev_Closed = 0" "Ev_Error AND Ev_Error \<noteq> 0" by (simp_all add: ev_defs)
  ultimately show ?thesis
    by (simp add: process_remote_event_def connecting_def bnd_def the_remote_def gets_def)
qed





subsection \<open>The command CONNECT\<close>

abbreviation add_event :: "int \<Rightarrow> ptr \<Rightarrow> u32 \<Rightarrow> syscall" where
  "add_event \<equiv> Sys_epoll_ctl EPOLL_CTL_ADD"

lemma calls_after: "calls (s\<lparr>trace := (c, r) # trace s, errno := e\<rparr>) = calls s @ [c]"
  by (simp add: calls_def)

lemma calls_sess: "calls (s\<lparr>sess := x\<rparr>) = calls s"
  by (simp add: calls_def)

lemma connecting_after: "connecting k r as (s\<lparr>trace := h, errno := e\<rparr>) = connecting k r as s"
  by (simp add: connecting_def)

text \<open>Up to the first attempt.\<close>

lemma connect_remote_start:
  fixes s :: sstate and fd :: int and as :: "ipaddress list"
  defines "r \<equiv> \<lparr>rs_fd = fd, rs_info = SocketInfo_fresh (stack s (trace s)), rs_addresses = Some as, rs_idx = -1, rs_connected = False\<rparr>"
  defines "s1 \<equiv> (after (Sys_fionbio fd True) s)\<lparr>sess := (sess s)\<lparr>se_remote := Some r\<rparr>\<rparr>"
  shows "connect_remote fd as s = bnd (process_remote_event Ev_Error) (\<lambda>ok.
         if \<not> ok then ret False
         else bnd (set_event fd (PRemote (se_id (sess s))) (Ev_Write OR Ev_Closed) False) (\<lambda>_. ret True))
       (in_state ConnectingRemote (after (Sys_keepalive fd (remote_tcp_keepalive (params s)))
         (after (Sys_nodelay fd (remote_tcp_nodelay (params s))) s1)))"
  unfolding s1_def r_def
  by (simp add: connect_remote_def RemoteSocket_new_def bnd_def gets_def uninit_def set_blocking_def set_nodelay_def
      set_keepalive_def sys_int_def syscall_def Let_def seq_def set_remote_def sets_def set_state_def
      cong: if_cong split del: if_split)

lemma connect_remote_exec:
  fixes s :: sstate
  assumes "as \<noteq> []" and "length as < 2 ^ 64" and wait: "\<And>h. in_progress (os s h (connect_call fd (hd as)))"
  shows "\<exists>t r. connect_remote fd as s = (Inr True, t) \<and> connecting 1 r as t \<and> rs_fd r = fd
    \<and> calls t = calls s @ [Sys_fionbio fd True, Sys_nodelay fd (remote_tcp_nodelay (params s)),
        Sys_keepalive fd (remote_tcp_keepalive (params s)), connect_call fd (hd as),
        add_event fd (PRemote (se_id (sess s))) (Ev_Write OR Ev_Closed)]"
proof -
  let ?r = "\<lparr>rs_fd = fd, rs_info = SocketInfo_fresh (stack s (trace s)), rs_addresses = Some as, rs_idx = -1, rs_connected = False\<rparr>"
  let ?s1 = "(after (Sys_fionbio fd True) s)\<lparr>sess := (sess s)\<lparr>se_remote := Some ?r\<rparr>\<rparr>"
  define s2 where "s2 = in_state ConnectingRemote (after (Sys_keepalive fd (remote_tcp_keepalive (params s)))
    (after (Sys_nodelay fd (remote_tcp_nodelay (params s))) ?s1))"
  have run: "connect_remote fd as s = bnd (process_remote_event Ev_Error) (\<lambda>ok.
         if \<not> ok then ret False
         else bnd (set_event fd (PRemote (se_id (sess s))) (Ev_Write OR Ev_Closed) False) (\<lambda>_. ret True)) s2"
    unfolding s2_def by (rule connect_remote_start)
  have c0: "connecting 0 ?r as s2" by (simp add: connecting_def s2_def)
  have h: "as ! 0 = hd as" "0 < length as" using assms(1) by (simp_all add: hd_conv_nth)
  have "try_connect_next s2 = (Inr True, after (connect_call fd (hd as)) (at_index ?r 0 s2))"
    using try_connect_next_exec(1) [of s2 ?r as 0] c0 assms(2) h wait by (simp add: connecting_def s2_def)
  then have run': "connect_remote fd as s =
     (Inr True, after (add_event fd (PRemote (se_id (sess s))) (Ev_Write OR Ev_Closed))
       (after (connect_call fd (hd as)) (at_index ?r 0 s2)))"
    unfolding run using error_event_exec [OF c0]
    by (simp add: bnd_def set_event_def epoll_ctl_def sys_int_def syscall_def Let_def cong: if_cong split del: if_split)
  define u where "u = at_index ?r 0 s2"
  define r0 where "r0 = ?r\<lparr>rs_idx := of_nat 0\<rparr>"
  have c1: "connecting 1 r0 as u" "rs_fd r0 = fd"
    using c0 by (simp_all add: connecting_def u_def r0_def)
  have k: "calls u = calls s @ [Sys_fionbio fd True, Sys_nodelay fd (remote_tcp_nodelay (params s)),
        Sys_keepalive fd (remote_tcp_keepalive (params s))]"
    unfolding u_def s2_def calls_after calls_sess by simp
  show ?thesis
    unfolding run' u_def [symmetric]
    by (rule exI, rule exI [of _ r0], intro conjI, rule refl)
      (simp_all only: connecting_after calls_after c1 k append.assoc append.simps)
qed

text \<open>The address field of a request.\<close>

lemma request_fields:
  assumes "mem_read m 0 (length (v # c # rsv # ep_wire e)) = v # c # rsv # ep_wire e" and "ep_ok e"
  shows "S5CommandMessage_get_command m 0 = command_of c"
    and "S5Address_get_type m (S5R_get_address 0) = ep_type e"
    and "mem_read m (S5Address_get_address (S5R_get_address 0)) (length (ep_addr e)) = ep_addr e"
    and "S5Address_get_port m (S5R_get_address 0) = ep_port e"
proof -
  have w: "mem_read m 3 (length (ep_wire e)) = ep_wire e" and "m (Suc 0) = c"
    using assms(1) mem_read_append [of m 0 3 "length (ep_wire e)"]
    by (simp_all add: mem_read_Suc numeral_3_eq_3)
  then show "S5CommandMessage_get_command m 0 = command_of c"
    by (simp add: S5CommandMessage_get_command_def S5R_get_cmd_or_rep_def)
  have a: "S5R_get_address 0 = 3" by (simp add: S5R_get_address_def)
  show "S5Address_get_type m (S5R_get_address 0) = ep_type e"
    and "mem_read m (S5Address_get_address (S5R_get_address 0)) (length (ep_addr e)) = ep_addr e"
    and "S5Address_get_port m (S5R_get_address 0) = ep_port e"
    unfolding a using get_type_wire [OF w] get_address_wire [OF w] get_port_wire [OF w assms(2)] by simp_all
qed

lemma request_block:
  assumes "arrived s = v # c # rsv # ep_wire e"
  shows "mem_read (block s) 0 (length (v # c # rsv # ep_wire e)) = v # c # rsv # ep_wire e"
  using mem_read_write_same [of "stack s (trace s)" 0 "arrived s"] assms
  by (simp add: block_def)

lemma check_command_exec:
  assumes "mb_ptr b = Some m" and "S5CommandMessage_get_command m 0 \<in> {Cmd_Connect, Cmd_UdpAssociate}"
  shows "check_command b s = (Inr True, s\<lparr>sess := (sess s)\<lparr>se_command := S5CommandMessage_get_command m 0\<rparr>\<rparr>)"
  using assms(2) by (auto simp: check_command_def bnd_block_of [OF assms(1)] seq_def bnd_def sets_def Let_def)

text \<open>The socket address of a request with an address.\<close>

fun ep_sockaddr :: "endpoint \<Rightarrow> sockaddr" where
  "ep_sockaddr (EpIPv4 ip p) = SockIn ip (htons p)"
| "ep_sockaddr (EpIPv6 ip p) = SockIn6 ip (htons p)"
| "ep_sockaddr (EpDomain d p) = SockIn [] 0"

fun is_domain :: "endpoint \<Rightarrow> bool" where
  "is_domain (EpDomain _ _) = True"
| "is_domain _ = False"

lemma ia_sockaddr_endpoint: "ia_sockaddr a = ep_sockaddr (ia_endpoint a)"
  by (simp add: ia_sockaddr_def ia_endpoint_def get_netport_def)

lemma resolve_address_exec:
  fixes s :: sstate
  assumes "mb_ptr b = Some m" and m: "mem_read m 0 (length (v # c # rsv # ep_wire e)) = v # c # rsv # ep_wire e"
    and ok: "ep_ok e" "\<not> is_domain e"
  shows "\<exists>a. resolve_address b s = (Inr (Some [a], False), s) \<and> ia_endpoint a = e \<and> ia_ok a"
proof -
  let ?at = "S5Address_get_address (S5R_get_address 0)"
  define a where "a = IPAddress_of_bytes (stack s (trace s)) (if ep_type e = AT_IPv4 then IPv4 else IPv6)
                  (\<lambda>i. m (?at + i)) (ep_port e) False"
  note f = request_fields [OF m ok(1)]
  have shift: "mem_read (\<lambda>i. m (?at + i)) 0 n = mem_read m ?at n" for n
    by (rule mem_read_cong) simp
  have "resolve_address b s = (Inr (Some [a], False), s)"
    using ok(2) unfolding resolve_address_def bnd_block_of [OF assms(1)] Let_def f
    by (cases e) (simp_all add: bnd_def uninit_def a_def)
  moreover have "ia_endpoint a = e"
    using ok f(3) by (cases e) (simp_all add: a_def ia_endpoint_def IPAddress_of_bytes_def Let_def shift overwrite_def)
  moreover have "ia_ok a" unfolding a_def by (rule ia_ok_of_bytes)
  ultimately show ?thesis by blast
qed

lemma authenticated_exec:
  assumes "data_event flags" and "arrived s \<noteq> []" and "se_state (sess s) = Authenticated"
  shows "process_client_event flags s = bnd (check_command (received s)) (\<lambda>ok.
       if \<not> ok then ret False
       else bnd (resolve_address (received s)) (\<lambda>(addresses, is_domain_name).
         if is_domain_name then ret True
         else case addresses of None \<Rightarrow> ret False | Some as \<Rightarrow> do_command as)) (after (recv_call s) s)"
  using assms by (simp add: process_client_event_data process_client_def bnd_gets)

abbreviation socket_call :: "ipaddress \<Rightarrow> socktype \<Rightarrow> syscall" where
  "socket_call a t \<equiv> Sys_socket (if ia_version a = IPv4 then AF_INET else AF_INET6) t"

fun ep_family :: "endpoint \<Rightarrow> family" where
  "ep_family (EpIPv6 _ _) = AF_INET6"
| "ep_family _ = AF_INET"

lemma ep_family_of: "(if ia_version a = IPv4 then AF_INET else AF_INET6) = ep_family (ia_endpoint a)"
  by (simp add: ia_endpoint_def)

lemma open_socket_exec:
  assumes "sr_ok (os s (trace s) (Sys_socket d t))"
  shows "Socket_open d t s = (Inr (int (sr_val (os s (trace s) (Sys_socket d t)))), after (Sys_socket d t) s)"
  using assms by (simp add: Socket_open_def sys_int_def bnd_def syscall_def Let_def)

text \<open>A request for an address, up to the socket it opens.\<close>

lemma connect_request_start:
  fixes s :: sstate
  assumes "data_event flags" and "se_state (sess s) = Authenticated"
    and req: "arrived s = v # 1 # rsv # ep_wire e" and e: "ep_ok e" "\<not> is_domain e"
    and sock: "\<And>h. os s h (Sys_socket (ep_family e) SOCK_STREAM) = answer k"
  obtains a u where "process_client_event flags s = bnd (connect_remote (int k) [a]) (\<lambda>_. ret True) u"
    and "ia_endpoint a = e" and "ia_ok a" and "os u = os s" and "params u = params s"
    and "se_id (sess u) = se_id (sess s)" and "se_client (sess u) = se_client (sess s)"
    and "calls u = calls s @ [recv_call s, Sys_socket (ep_family e) SOCK_STREAM]"
proof -
  let ?s1 = "after (recv_call s) s"
  define s2 where "s2 = ?s1\<lparr>sess := (sess s)\<lparr>se_command := Cmd_Connect\<rparr>\<rparr>"
  note m = request_block [OF req]
  have "S5CommandMessage_get_command (block s) 0 = Cmd_Connect"
    using request_fields(1) [OF m e(1)] by (simp add: command_of_def)
  then have cmd: "check_command (received s) ?s1 = (Inr True, s2)"
    using check_command_exec [OF received_ptr, of s ?s1] by (simp add: s2_def)
  obtain a where a: "resolve_address (received s) s2 = (Inr (Some [a], False), s2)" "ia_endpoint a = e" "ia_ok a"
    using resolve_address_exec [OF received_ptr m e] by blast
  let ?s3 = "after (Sys_socket (ep_family e) SOCK_STREAM) s2"
  have fam: "(if ia_version a = IPv4 then open_tcp else open_tcp6) = Socket_open (ep_family e) SOCK_STREAM"
    using a(2) by (auto simp: open_tcp_def open_tcp6_def ia_endpoint_def)
  have os: "os s2 = os s" and cmd_is: "se_command (sess s2) = Cmd_Connect" by (simp_all add: s2_def)
  have "Socket_open (ep_family e) SOCK_STREAM s2 = (Inr (int k), ?s3)"
    by (subst open_socket_exec) (simp_all add: os sock answer_def)
  then have run: "process_client_event flags s = bnd (connect_remote (int k) [a]) (\<lambda>_. ret True) ?s3"
    using authenticated_exec [OF assms(1) _ assms(2)] req cmd a(1) cmd_is
    by (simp add: bnd_def do_command_def gets_def fam cong: if_cong split del: if_split)
  have "calls ?s3 = calls s @ [recv_call s, Sys_socket (ep_family e) SOCK_STREAM]"
    unfolding s2_def calls_after calls_sess by simp
  then show ?thesis
    by (rule that [OF run a(2,3), rotated 4]) (simp_all add: s2_def)
qed

text \<open>
  C14: An authenticated client that asks for a connection to an address gets a socket of that
  family that is connected to exactly that address and port, and the session waits for the outcome.
\<close>

theorem connect_request_connects:
  fixes s :: sstate
  assumes "data_event flags" and "se_state (sess s) = Authenticated"
    and "arrived s = v # 1 # rsv # ep_wire e" and "ep_ok e" and "\<not> is_domain e"
    and "\<And>h. os s h (Sys_socket (ep_family e) SOCK_STREAM) = answer k"
    and wait: "\<And>h. in_progress (os s h (Sys_connect (int k) (ep_sockaddr e) (sa_len (ep_sockaddr e))))"
  shows "\<exists>t. process_client_event flags s = (Inr True, t) \<and> se_state (sess t) = ConnectingRemote
    \<and> calls t = calls s @ [recv_call s, Sys_socket (ep_family e) SOCK_STREAM, Sys_fionbio (int k) True,
        Sys_nodelay (int k) (remote_tcp_nodelay (params s)), Sys_keepalive (int k) (remote_tcp_keepalive (params s)),
        Sys_connect (int k) (ep_sockaddr e) (sa_len (ep_sockaddr e)),
        add_event (int k) (PRemote (se_id (sess s))) (Ev_Write OR Ev_Closed)]"
proof -
  obtain a u where u: "process_client_event flags s = bnd (connect_remote (int k) [a]) (\<lambda>_. ret True) u"
    "ia_endpoint a = e" "ia_ok a" "os u = os s" "params u = params s" "se_id (sess u) = se_id (sess s)"
    "se_client (sess u) = se_client (sess s)" "calls u = calls s @ [recv_call s, Sys_socket (ep_family e) SOCK_STREAM]"
    by (rule connect_request_start [OF assms(1-6)])
  have c: "connect_call (int k) a = Sys_connect (int k) (ep_sockaddr e) (sa_len (ep_sockaddr e))"
    by (simp add: connect_call_def ia_sockaddr_endpoint u(2))
  obtain t r where t: "connect_remote (int k) [a] u = (Inr True, t)" "connecting 1 r [a] t"
    "calls t = calls u @ [Sys_fionbio (int k) True, Sys_nodelay (int k) (remote_tcp_nodelay (params u)),
        Sys_keepalive (int k) (remote_tcp_keepalive (params u)), connect_call (int k) a,
        add_event (int k) (PRemote (se_id (sess u))) (Ev_Write OR Ev_Closed)]"
    using connect_remote_exec [of "[a]" u "int k"] wait by (auto simp: c u(4))
  show ?thesis using t by (simp add: u bnd_def connecting_def c)
qed

theorem connect_request_connects_witness:
  "\<exists>t. process_client_event Ev_Read (sstate_of (slow_connect [5, 1, 0, 1, 10, 0, 0, 1, 0, 80]) ServerParams_default
        ((session_at 0 7)\<lparr>se_state := Authenticated\<rparr>)) = (Inr True, t)
    \<and> calls t = [Sys_recv 7 SESSION_BUFFER, Sys_socket AF_INET SOCK_STREAM, Sys_fionbio 10 True, Sys_nodelay 10 False,
        Sys_keepalive 10 False, Sys_connect 10 (SockIn [10, 0, 0, 1] (htons 80)) 16, add_event 10 (PRemote 0) (Ev_Write OR Ev_Closed)]"
proof -
  let ?s = "sstate_of (slow_connect [5, 1, 0, 1, 10, 0, 0, 1, 0, 80]) ServerParams_default ((session_at 0 7)\<lparr>se_state := Authenticated\<rparr>)"
  let ?e = "EpIPv4 [10, 0, 0, 1] 80"
  have req: "arrived ?s = 5 # 1 # 0 # ep_wire ?e"
    by (simp add: arrived_on_def slow_connect_def SESSION_BUFFER_def ep_wire_def hi8_def lo8_def)
  have c: "calls ?s = []" "se_client (sess ?s) = 7" "se_id (sess ?s) = 0"
    by (simp_all add: calls_def session_at_def)
  show ?thesis
    using connect_request_connects [OF data_event_Read _ req, of 10] c
    by (auto simp: slow_connect_def in_progress_def ServerParams_default_def)
qed

text \<open>The first error of the first attempt ends nothing: the result of the connection is not looked at.\<close>

lemma connect_remote_refused:
  fixes s :: sstate
  assumes "as \<noteq> []" and "length as < 2 ^ 64" and "\<And>h. \<not> in_progress (os s h (connect_call fd (hd as)))"
    and "ia_ok (hd as)"
  shows "\<exists>t reserved. connect_remote fd as s = (Inr False, t) \<and> se_state (sess t) = ConnectingRemote
    \<and> calls t = calls s @ [Sys_fionbio fd True, Sys_nodelay fd (remote_tcp_nodelay (params s)),
        Sys_keepalive fd (remote_tcp_keepalive (params s)), connect_call fd (hd as),
        Sys_send (se_client (sess s)) ([5, 1, reserved] @ ep_wire (ia_endpoint (hd as)))]"
proof -
  let ?r = "\<lparr>rs_fd = fd, rs_info = SocketInfo_fresh (stack s (trace s)), rs_addresses = Some as, rs_idx = -1, rs_connected = False\<rparr>"
  let ?s1 = "(after (Sys_fionbio fd True) s)\<lparr>sess := (sess s)\<lparr>se_remote := Some ?r\<rparr>\<rparr>"
  define s2 where "s2 = in_state ConnectingRemote (after (Sys_keepalive fd (remote_tcp_keepalive (params s)))
    (after (Sys_nodelay fd (remote_tcp_nodelay (params s))) ?s1))"
  have run: "connect_remote fd as s = bnd (process_remote_event Ev_Error) (\<lambda>ok.
         if \<not> ok then ret False
         else bnd (set_event fd (PRemote (se_id (sess s))) (Ev_Write OR Ev_Closed) False) (\<lambda>_. ret True)) s2"
    unfolding s2_def by (rule connect_remote_start)
  have c0: "connecting 0 ?r as s2" by (simp add: connecting_def s2_def)
  have h: "as ! 0 = hd as" "0 < length as" using assms(1) by (simp_all add: hd_conv_nth)
  define u where "u = after (connect_call fd (hd as)) (at_index ?r 0 s2)"
  have pre: "se_remote (sess s2) = Some ?r" "rs_addresses ?r = Some as" "rs_idx ?r + 1 = of_nat 0"
      "0 \<le> length as" "length as < 2 ^ 64" "se_state (sess s2) = ConnectingRemote" "os s2 = os s"
    using c0 assms(2) by (simp_all add: connecting_def s2_def)
  have no: "\<not> in_progress (os s2 (trace s2) (connect_call (rs_fd ?r) (as ! 0)))"
    using assms(3) h(1) pre(7) by simp
  have "try_connect_next s2 = (Inr False, after (reply_call Rep_GeneralFailure (hd as) u) u)"
    using try_connect_next_exec(2) [OF pre(1-6) h(2) no] unfolding Let_def u_def h(1) by simp
  then have run': "connect_remote fd as s = (Inr False, after (reply_call Rep_GeneralFailure (hd as) u) u)"
    unfolding run using error_event_exec [OF c0] by (simp add: bnd_def)
  have k: "calls u = calls s @ [Sys_fionbio fd True, Sys_nodelay fd (remote_tcp_nodelay (params s)),
        Sys_keepalive fd (remote_tcp_keepalive (params s)), connect_call fd (hd as)]"
    unfolding u_def s2_def calls_after calls_sess by simp
  have reply: "reply_call Rep_GeneralFailure (hd as) u = Sys_send (se_client (sess s)) ([5, 1, stack u (trace u) 2] @ ep_wire (ia_endpoint (hd as)))"
    unfolding address_reply_wire [OF assms(4)] by (simp add: u_def s2_def)
  have st: "se_state (sess u) = ConnectingRemote" by (simp add: u_def s2_def)
  define t where "t = after (reply_call Rep_GeneralFailure (hd as) u) u"
  have calls: "calls t = calls u @ [reply_call Rep_GeneralFailure (hd as) u]" unfolding t_def calls_after ..
  have "connect_remote fd as s = (Inr False, t)" unfolding run' t_def ..
  moreover have "se_state (sess t) = ConnectingRemote" using st by (simp add: t_def)
  moreover have "calls t = calls s @ [Sys_fionbio fd True, Sys_nodelay fd (remote_tcp_nodelay (params s)),
        Sys_keepalive fd (remote_tcp_keepalive (params s)), connect_call fd (hd as),
        Sys_send (se_client (sess s)) ([5, 1, stack u (trace u) 2] @ ep_wire (ia_endpoint (hd as)))]"
    unfolding calls k reply by (simp only: append.assoc append.simps)
  ultimately show ?thesis by blast
qed

text \<open>
  C38: When the first attempt fails at once the client is told so, but the session goes on:
  it keeps waiting in the connecting state, with its socket registered for no event.
\<close>

theorem refused_connection_keeps_session:
  fixes s :: sstate
  assumes "data_event flags" and "se_state (sess s) = Authenticated"
    and "arrived s = v # 1 # rsv # ep_wire e" and "ep_ok e" and "\<not> is_domain e"
    and "\<And>h. os s h (Sys_socket (ep_family e) SOCK_STREAM) = answer k"
    and fail: "\<And>h. \<not> in_progress (os s h (Sys_connect (int k) (ep_sockaddr e) (sa_len (ep_sockaddr e))))"
  shows "\<exists>t reserved. process_client_event flags s = (Inr True, t) \<and> se_state (sess t) = ConnectingRemote
    \<and> calls t = calls s @ [recv_call s, Sys_socket (ep_family e) SOCK_STREAM, Sys_fionbio (int k) True,
        Sys_nodelay (int k) (remote_tcp_nodelay (params s)), Sys_keepalive (int k) (remote_tcp_keepalive (params s)),
        Sys_connect (int k) (ep_sockaddr e) (sa_len (ep_sockaddr e)),
        Sys_send (se_client (sess s)) ([5, 1, reserved] @ ep_wire e)]"
proof -
  obtain a u where u: "process_client_event flags s = bnd (connect_remote (int k) [a]) (\<lambda>_. ret True) u"
    "ia_endpoint a = e" "ia_ok a" "os u = os s" "params u = params s" "se_id (sess u) = se_id (sess s)"
    "se_client (sess u) = se_client (sess s)" "calls u = calls s @ [recv_call s, Sys_socket (ep_family e) SOCK_STREAM]"
    by (rule connect_request_start [OF assms(1-6)])
  have c: "connect_call (int k) a = Sys_connect (int k) (ep_sockaddr e) (sa_len (ep_sockaddr e))"
    by (simp add: connect_call_def ia_sockaddr_endpoint u(2))
  obtain t x where t: "connect_remote (int k) [a] u = (Inr False, t)" "se_state (sess t) = ConnectingRemote"
    "calls t = calls u @ [Sys_fionbio (int k) True, Sys_nodelay (int k) (remote_tcp_nodelay (params u)),
        Sys_keepalive (int k) (remote_tcp_keepalive (params u)), connect_call (int k) a,
        Sys_send (se_client (sess u)) ([5, 1, x] @ ep_wire (ia_endpoint a))]"
    using connect_remote_refused [of "[a]" u "int k"] fail u(3) by (auto simp: c u(4))
  show ?thesis using t by (simp add: u bnd_def c)
qed

theorem refused_connection_keeps_session_witness:
  "\<exists>t reserved. process_client_event Ev_Read (sstate_of (no_connect [5, 1, 0, 1, 10, 0, 0, 1, 0, 80]) ServerParams_default
        ((session_at 0 7)\<lparr>se_state := Authenticated\<rparr>)) = (Inr True, t)
    \<and> last (calls t) = Sys_send 7 [5, 1, reserved, 1, 10, 0, 0, 1, 0, 80]"
proof -
  let ?s = "sstate_of (no_connect [5, 1, 0, 1, 10, 0, 0, 1, 0, 80]) ServerParams_default ((session_at 0 7)\<lparr>se_state := Authenticated\<rparr>)"
  let ?e = "EpIPv4 [10, 0, 0, 1] 80"
  have w: "ep_wire ?e = [1, 10, 0, 0, 1, 0, 80]" by (simp add: ep_wire_def hi8_def lo8_def)
  have req: "arrived ?s = 5 # 1 # 0 # ep_wire ?e"
    by (simp add: arrived_on_def no_connect_def slow_connect_def SESSION_BUFFER_def w)
  have c: "calls ?s = []" "se_client (sess ?s) = 7" by (simp_all add: calls_def session_at_def)
  obtain t x where "process_client_event Ev_Read ?s = (Inr True, t)" "last (calls t) = Sys_send 7 ([5, 1, x] @ ep_wire ?e)"
    using refused_connection_keeps_session [OF data_event_Read _ req, of 10] c
    by (fastforce simp: no_connect_def slow_connect_def in_progress_def EWOULDBLOCK_def EAGAIN_def EINPROGRESS_def)
  then show ?thesis unfolding w by auto
qed

subsection \<open>A connection that is established\<close>

lemma connecting_index:
  fixes u :: sstate
  assumes "connecting (Suc i) r as s" and "Suc i \<le> length as" and "length as < 2 ^ 64"
  shows "vector_at as (rs_idx r) u = (Inr (as ! i), u)"
proof -
  have "rs_idx r = of_nat i" using assms(1) by (simp add: connecting_def)
  then have "unat (rs_idx r) = i" using assms(2,3) by (simp add: unat_of_nat)
  then show ?thesis using assms(2) by (simp add: vector_at_def)
qed

lemma send_reply_address_exec:
  fixes s :: sstate and rep :: reply
  assumes "ia_ok a"
  defines "x \<equiv> os s (trace s) (reply_call rep a s)"
  shows "send_reply (se_client (sess s)) rep (addr_type_of_ip a) (bytes_mem (ia_storage a)) (ia_port a) s =
    (Inr (\<not> (sr_ok x \<and> sr_val x = 0)), after (reply_call rep a s) s)"
proof -
  have n: "address_reply rep a s \<noteq> []" by (simp add: address_reply_wire [OF assms(1)])
  have "send_reply (se_client (sess s)) rep (addr_type_of_ip a) (bytes_mem (ia_storage a)) (ia_port a) s
      = bnd (sys_send (se_client (sess s)) (address_reply rep a s)) (\<lambda>n. ret (n \<noteq> 0)) s"
    by (simp add: send_reply_def bnd_def uninit_def address_reply_def Let_def)
  then show ?thesis
    using n by (simp add: bnd_def sys_send_def syscall_def Let_def x_def min_def split del: if_split cong: if_cong) auto
qed

lemma could_connect_exec:
  fixes s :: sstate
  assumes conn: "connecting (Suc i) r as s" and len: "Suc i \<le> length as" "length as < 2 ^ 64"
    and a: "a = as ! i" "ia_ok a" and peer: "\<And>h. sr_ok (os s h (Sys_getpeername (rs_fd r)))"
  defines "r' \<equiv> r\<lparr>rs_connected := True, rs_addresses := None\<rparr>"
  defines "s1 \<equiv> after (Sys_getpeername (rs_fd r)) (s\<lparr>sess := (sess s)\<lparr>se_remote := Some r'\<rparr>\<rparr>)"
  shows "\<exists>info. let s2 = s1\<lparr>sess := (sess s)\<lparr>se_remote := Some (r'\<lparr>rs_info := info\<rparr>)\<rparr>\<rparr>;
       s3 = in_state Connected (after (Sys_epoll_ctl EPOLL_CTL_MOD (rs_fd r) (PRemote (se_id (sess s))) (Ev_Read OR Ev_Closed)) s2)
    in could_connect s = bnd (send_reply (se_client (sess s3)) Rep_Success (addr_type_of_ip a)
          (bytes_mem (ia_storage a)) (ia_port a)) ret s3"
proof -
  have st: "se_remote (sess s) = Some r" "rs_addresses r = Some as" "se_state (sess s) = ConnectingRemote"
    using conn by (simp_all add: connecting_def)
  let ?x = "os s (trace s) (Sys_getpeername (rs_fd r))"
  define info where "info = SocketInfo_from (sr_addr ?x) (SocketInfo_fresh (stack s (trace s)))"
  show ?thesis
    using st peer connecting_index [OF conn len] a(1)
    by (intro exI [of _ info])
      (simp add: could_connect_def the_remote_def gets_def bnd_def seq_def set_remote_def sets_def set_state_def
        get_peer_address_def uninit_def syscall_def Let_def info_def s1_def r'_def reply_remote_connection_def
        remote_connected_def set_event_def epoll_ctl_def sys_int_def when_do_def
        split del: if_split cong: if_cong)
qed

text \<open>
  C15: When the socket of a connecting session becomes writable, the session takes the
  connection over: it asks for the peer's address, reads both sides from then on, tells the client the address
  it reached with reply 0, and is in the state from which every byte is forwarded; it only ends if
  sending the reply returns 0.
\<close>

theorem established_connection_is_reported:
  fixes s :: sstate
  assumes conn: "connecting (Suc i) r as s" and len: "Suc i \<le> length as" "length as < 2 ^ 64" and ok: "ia_ok (as ! i)"
    and "room_event flags" and peer: "\<And>h. sr_ok (os s h (Sys_getpeername (rs_fd r)))"
    and "se_client_buffer (sess s) = MemoryBuffer_null" and "se_remote_buffer (sess s) = MemoryBuffer_null"
    and "se_client (sess s) \<noteq> rs_fd r"
  shows "\<exists>t reserved x. process_remote_event flags s = (Inr (\<not> (sr_ok x \<and> sr_val x = 0)), t) \<and> connected t
    \<and> x = snd (hd (trace t))
    \<and> calls t = calls s @ [Sys_getpeername (rs_fd r),
        Sys_epoll_ctl EPOLL_CTL_MOD (rs_fd r) (PRemote (se_id (sess s))) (Ev_Read OR Ev_Closed),
        Sys_send (se_client (sess s)) ([5, 0, reserved] @ ep_wire (ia_endpoint (as ! i)))]"
proof -
  let ?r = "r\<lparr>rs_connected := True, rs_addresses := None\<rparr>" and ?a = "as ! i"
  let ?s1 = "after (Sys_getpeername (rs_fd r)) (s\<lparr>sess := (sess s)\<lparr>se_remote := Some ?r\<rparr>\<rparr>)"
  let ?mod = "Sys_epoll_ctl EPOLL_CTL_MOD (rs_fd r) (PRemote (se_id (sess s))) (Ev_Read OR Ev_Closed)"
  obtain info where c: "let s2 = ?s1\<lparr>sess := (sess s)\<lparr>se_remote := Some (?r\<lparr>rs_info := info\<rparr>)\<rparr>\<rparr>;
       s3 = in_state Connected (after ?mod s2)
    in could_connect s = bnd (send_reply (se_client (sess s3)) Rep_Success (addr_type_of_ip ?a)
          (bytes_mem (ia_storage ?a)) (ia_port ?a)) ret s3"
    using could_connect_exec [OF conn len refl ok peer] by blast
  define s2 where "s2 = ?s1\<lparr>sess := (sess s)\<lparr>se_remote := Some (?r\<lparr>rs_info := info\<rparr>)\<rparr>\<rparr>"
  define s3 where "s3 = in_state Connected (after ?mod s2)"
  define t where "t = after (reply_call Rep_Success ?a s3) s3"
  have "could_connect s = bnd (send_reply (se_client (sess s3)) Rep_Success (addr_type_of_ip ?a)
          (bytes_mem (ia_storage ?a)) (ia_port ?a)) ret s3"
    using c unfolding Let_def s3_def s2_def .
  then have run: "could_connect s = (Inr (\<not> (sr_ok (snd (hd (trace t))) \<and> sr_val (snd (hd (trace t))) = 0)), t)"
    by (simp add: bnd_def send_reply_address_exec [OF ok] t_def)
  have k: "calls s3 = calls s @ [Sys_getpeername (rs_fd r), ?mod]"
    unfolding s3_def s2_def calls_after calls_sess by simp
  have reply: "reply_call Rep_Success ?a s3 = Sys_send (se_client (sess s)) ([5, 0, stack s3 (trace s3) 2] @ ep_wire (ia_endpoint ?a))"
    unfolding address_reply_wire [OF ok] by (simp add: s3_def s2_def)
  have calls: "calls t = calls s3 @ [reply_call Rep_Success ?a s3]" unfolding t_def calls_after ..
  have "sess t = (sess s)\<lparr>se_remote := Some (?r\<lparr>rs_info := info\<rparr>), se_state := Connected\<rparr>"
    by (simp add: t_def s3_def s2_def)
  then have "connected t"
    using assms(7-9) by (simp add: connected_def relay_inv_def) (simp add: MemoryBuffer_null_def)
  moreover have "process_remote_event flags s = could_connect s"
    using conn assms(5) by (auto simp: process_remote_event_def connecting_def room_event_def flags_split bnd_def the_remote_def gets_def)
  ultimately show ?thesis using run calls unfolding k reply by (metis append.assoc append.simps(1,2))
qed

theorem established_connection_is_reported_witness:
  "\<exists>t reserved. process_remote_event Ev_Write (trying 0) = (Inr True, t) \<and> connected t
    \<and> calls t = [Sys_getpeername 9, Sys_epoll_ctl EPOLL_CTL_MOD 9 (PRemote 0) (Ev_Read OR Ev_Closed),
        Sys_send 7 [5, 0, reserved, 1, 10, 0, 0, 1, 0, 80]]"
proof -
  let ?s = "trying 0"
  let ?r = "\<lparr>rs_fd = 9, rs_info = se_peer (session_at 0 7), rs_addresses = Some two_addresses, rs_idx = 0, rs_connected = False\<rparr>"
  have pre: "connecting (Suc 0) ?r two_addresses ?s" "Suc 0 \<le> length two_addresses" "length two_addresses < 2 ^ 64"
      "ia_ok (two_addresses ! 0)" "sr_ok (os ?s h (Sys_getpeername (rs_fd ?r)))"
      "se_client_buffer (sess ?s) = MemoryBuffer_null" "se_remote_buffer (sess ?s) = MemoryBuffer_null"
      "se_client (sess ?s) \<noteq> rs_fd ?r" for h
    by (simp_all add: connecting_def trying_def two_addresses_def ia_ok_def slow_connect_def session_at_def)
  have room: "room_event Ev_Write" by (simp add: room_event_def ev_defs)
  have w: "ep_wire (ia_endpoint (two_addresses ! 0)) = [1, 10, 0, 0, 1, 0, 80]" "calls ?s = []" "se_client (sess ?s) = 7"
      "se_id (sess ?s) = 0"
    by (simp_all add: two_addresses_def ia_endpoint_def ep_wire_def hi8_def lo8_def trying_def session_at_def calls_def)
  obtain t y x where t: "process_remote_event Ev_Write ?s = (Inr (\<not> (sr_ok x \<and> sr_val x = 0)), t)" "connected t" "x = snd (hd (trace t))"
     "calls t = [Sys_getpeername 9, Sys_epoll_ctl EPOLL_CTL_MOD 9 (PRemote 0) (Ev_Read OR Ev_Closed),
        Sys_send 7 ([5, 0, y] @ ep_wire (ia_endpoint (two_addresses ! 0)))]"
    using established_connection_is_reported [OF pre(1-4) room pre(5-8)] w(2-4) by auto
  have "fst (process_remote_event Ev_Write ?s) = Inr True" by code_simp
  then show ?thesis using t by (auto simp: w(1))
qed

end
