(* ===== verification/Requests.thy ===== *)
theory Requests
  imports Connecting
begin

section \<open>Names, associations and refusals\<close>

text \<open>
  The requests that do not connect at once: a request that is refused, a request for a name, the
  answer to the lookup, and an association for datagrams.
\<close>

subsection \<open>Refusals\<close>

lemma refuse_command_exec:
  fixes s :: sstate
  assumes m: "mem_read m 0 (length (v # c # rsv # ep_wire e)) = v # c # rsv # ep_wire e" and ok: "ep_ok e"
  shows "refuse_command rep m s = bnd (sys_send (se_client (sess s)) ([5, reply_byte rep, stack s (trace s) 2] @ ep_wire e))
    (\<lambda>n. ret (n \<noteq> 0)) s"
proof -
  note f = request_fields [OF m ok]
  let ?src = "\<lambda>i. m (S5Address_get_address (S5R_get_address 0) + i)"
  have "mem_read ?src 0 (length (ep_addr e)) = mem_read m (S5Address_get_address (S5R_get_address 0)) (length (ep_addr e))"
    by (rule mem_read_cong) simp
  then have "ep_src ?src e" using f(3) by (simp add: ep_src_def)
  note w = reply_block_wire [OF ok this, of rep "stack s (trace s)"]
  have "refuse_command rep m s = send_reply (se_client (sess s)) rep (ep_type e) ?src (ep_port e) s"
    by (simp add: refuse_command_def bnd_gets Let_def f)
  also have "\<dots> = bnd (sys_send (se_client (sess s)) ([5, reply_byte rep, stack s (trace s) 2] @ ep_wire e)) (\<lambda>n. ret (n \<noteq> 0)) s"
    unfolding w [symmetric] by (simp add: send_reply_def bnd_def uninit_def Let_def)
  finally show ?thesis .
qed

text \<open>
  A command other than CONNECT and UDP ASSOCIATE ends the session with reply 7, command
  not supported, which repeats the address of the request; nothing else is done.
\<close>

lemma unsupported_command_is_refused:
  fixes s :: sstate
  assumes "data_event flags" and "se_state (sess s) = Authenticated"
    and req: "arrived s = v # c # rsv # ep_wire e" and e: "ep_ok e"
    and c: "command_of c \<notin> {Cmd_Connect, Cmd_UdpAssociate}"
  shows "\<exists>t reserved. process_client_event flags s = (Inr False, t)
    \<and> calls t = calls s @ [recv_call s, Sys_send (se_client (sess s)) ([5, 7, reserved] @ ep_wire e)]"
proof -
  let ?s1 = "after (recv_call s) s"
  define s2 where "s2 = ?s1\<lparr>sess := (sess s)\<lparr>se_command := command_of c\<rparr>\<rparr>"
  note m = request_block [OF req]
  let ?call = "Sys_send (se_client (sess s)) ([5, 7, stack s2 (trace s2) 2] @ ep_wire e)"
  have "check_command (received s) ?s1 = bnd (refuse_command Rep_CommandNotSupported (block s)) (\<lambda>_. ret False) s2"
    using c unfolding check_command_def bnd_block_of [OF received_ptr] request_fields(1) [OF m e]
    by (cases "command_of c") (simp_all add: seq_def bnd_def sets_def s2_def Let_def)
  also have "\<dots> = (Inr False, after ?call s2)"
    by (simp add: bnd_def refuse_command_exec [OF m e] sys_send_def syscall_def Let_def s2_def split del: if_split cong: if_cong)
  finally have "process_client_event flags s = (Inr False, after ?call s2)"
    using authenticated_exec [OF assms(1) _ assms(2)] req by (simp add: bnd_def split del: if_split)
  moreover have "calls (after ?call s2) = calls s @ [recv_call s, ?call]"
    unfolding calls_after s2_def calls_sess by simp
  ultimately show ?thesis by blast
qed

lemma unsupported_command_is_refused_witness:
  "\<exists>t reserved. process_client_event Ev_Read (sstate_of (slow_connect [5, 2, 0, 1, 10, 0, 0, 1, 0, 80]) ServerParams_default
        ((session_at 0 7)\<lparr>se_state := Authenticated\<rparr>)) = (Inr False, t)
    \<and> calls t = [Sys_recv 7 SESSION_BUFFER, Sys_send 7 [5, 7, reserved, 1, 10, 0, 0, 1, 0, 80]]"
proof -
  let ?s = "sstate_of (slow_connect [5, 2, 0, 1, 10, 0, 0, 1, 0, 80]) ServerParams_default ((session_at 0 7)\<lparr>se_state := Authenticated\<rparr>)"
  let ?e = "EpIPv4 [10, 0, 0, 1] 80"
  have w: "ep_wire ?e = [1, 10, 0, 0, 1, 0, 80]" by (simp add: ep_wire_def hi8_def lo8_def)
  have req: "arrived ?s = 5 # 2 # 0 # ep_wire ?e"
    by (simp add: arrived_on_def slow_connect_def SESSION_BUFFER_def w)
  have c: "calls ?s = []" "se_client (sess ?s) = 7" by (simp_all add: calls_def session_at_def)
  show ?thesis
    using unsupported_command_is_refused [OF data_event_Read _ req] c by (simp add: command_of_def w)
qed

subsection \<open>Names\<close>

lemma request_domain:
  assumes "mem_read m 0 (length (v # c # rsv # ep_wire (EpDomain d p))) = v # c # rsv # ep_wire (EpDomain d p)"
    and "length d < 256"
  defines "name \<equiv> S5Address_get_address (S5R_get_address 0)"
  shows "mem_read m (name + 1) (unat (m name)) = d"
proof -
  have "mem_read m name (Suc (length d)) = of_nat (length d) # d"
    using request_fields(3) [OF assms(1)] assms(2) by (simp add: name_def)
  then have "m name = of_nat (length d)" "mem_read m (Suc name) (length d) = d"
    by (simp_all add: mem_read_Suc)
  then show ?thesis using assms(2) by (simp add: unat_of_nat_byte)
qed

text \<open>The name server as an address, when it is an IPv4 literal.\<close>

lemma name_server_address:
  assumes "pton AF_INET ip = Some ns" and "length ns = 4"
  obtains a where "IPAddress_of_string pton junk ip port False = Inr a" and "ia_version a = IPv4"
    and "ia_sockaddr a = SockIn ns (htons port)"
proof -
  let ?a = "\<lparr>ia_storage = overwrite 0 ns (mem_read junk 0 16), ia_port = port, ia_version = IPv4\<rparr>"
  have "IPAddress_of_string pton junk ip port False = Inr ?a"
    using assms by (simp add: IPAddress_of_string_def Let_def)
  then show ?thesis
    by (rule that) (simp_all add: ia_sockaddr_def get_netport_def overwrite_def assms(2))
qed

lemma resolve_domain_name_exec:
  fixes s :: sstate
  assumes m: "mb_ptr b = Some m" "mem_read m 0 (length (v # c # rsv # ep_wire (EpDomain d p))) = v # c # rsv # ep_wire (EpDomain d p)"
    and d: "length d < 256" "name_ok d" and none: "se_dns (sess s) = []"
    and ns: "dns_ip (params s) \<noteq> []" "inet_pton s AF_INET (dns_ip (params s)) = Some ns" "length ns = 4"
    and sock: "\<And>h. os s h (Sys_socket AF_INET SOCK_DGRAM) = answer k"
  defines "ds \<equiv> \<lparr>ds_fd = int k, ds_domain_name = d, ds_port = p, ds_buffer = MemoryBuffer_null\<rparr>"
  shows "\<exists>t dg. resolve_domain_name b s = bnd (sys_sendto (int k) dg (SockIn ns (htons (dns_port (params s)))) 16)
        (\<lambda>status. if status = 0 then ret False else if status = -1 then ret False else ret (status > 0)) t
    \<and> Message_decode Message dg = Inr (address_question d)
    \<and> calls t = calls s @ [Sys_socket AF_INET SOCK_DGRAM, add_event (int k) (PDns (se_id (sess s)) 0) (Ev_Read OR Ev_Closed)]
    \<and> sess t = (sess s)\<lparr>se_domain := d, se_dns := [ds], se_state := ResolvingDomainName\<rparr> \<and> os t = os s"
proof -
  obtain a where a: "IPAddress_of_string (inet_pton s) (stack s (trace s)) (dns_ip (params s)) (dns_port (params s)) False = Inr a"
      "ia_version a = IPv4" "ia_sockaddr a = SockIn ns (htons (dns_port (params s)))"
    by (rule name_server_address [where pton = "inet_pton s" and ip = "dns_ip (params s)", OF ns(2,3)])
  let ?s1 = "after (Sys_socket AF_INET SOCK_DGRAM) s"
  let ?s2 = "?s1\<lparr>sess := (sess s)\<lparr>se_domain := d, se_dns := [ds]\<rparr>\<rparr>"
  define t where "t = in_state ResolvingDomainName
    (after (add_event (int k) (PDns (se_id (sess s)) 0) (Ev_Read OR Ev_Closed)) ?s2)"
  have opened: "open_udp s = (Inr (int k), ?s1)"
    unfolding open_udp_def by (subst open_socket_exec) (simp_all add: sock answer_def)
  have name: "mem_read m (Suc (S5Address_get_address (S5R_get_address 0))) (unat (m (S5Address_get_address (S5R_get_address 0)))) = d"
    using request_domain [OF m(2) d(1)] by simp
  have port: "S5Address_get_port m (S5R_get_address 0) = p"
    using request_fields(4) [OF m(2)] d(1) by simp
  have run: "resolve_domain_name b s = bnd (DnsSocket_query ds a)
      (\<lambda>status. if status = 0 then ret False else if status = -1 then ret False else ret (status > 0)) t"
    using none ns(1) a(1,2)
    by (simp add: resolve_domain_name_def MAX_DNS_SOCKETS_def bnd_gets bnd_asks uninit_def bnd_def opened Let_def
        bnd_block_of [OF m(1)] name port DnsSocket_new_plain seq_def sets_def set_event_def epoll_ctl_def sys_int_def
        syscall_def set_state_def t_def ds_def block_of_def m(1) gets_def split del: if_split cong: if_cong)
  have "name_ok (ds_domain_name ds)" using d(2) by (simp add: ds_def)
  then obtain dg where dg: "DnsSocket_query ds a t = sys_sendto (ds_fd ds) dg (ia_sockaddr a) (sa_len (ia_sockaddr a)) t"
      "Message_decode Message dg = Inr (address_question (ds_domain_name ds))"
    using DnsSocket_query_exec [unfolded dns_query_message_eq] by blast
  have "resolve_domain_name b s = bnd (sys_sendto (int k) dg (SockIn ns (htons (dns_port (params s)))) 16)
        (\<lambda>status. if status = 0 then ret False else if status = -1 then ret False else ret (status > 0)) t"
    unfolding run using dg(1) by (simp add: bnd_def a(3) ds_def)
  moreover have "calls t = calls s @ [Sys_socket AF_INET SOCK_DGRAM, add_event (int k) (PDns (se_id (sess s)) 0) (Ev_Read OR Ev_Closed)]"
    unfolding t_def calls_after calls_sess by simp
  moreover have "sess t = (sess s)\<lparr>se_domain := d, se_dns := [ds], se_state := ResolvingDomainName\<rparr>" "os t = os s"
    by (simp_all add: t_def)
  ultimately show ?thesis using dg(2) by (auto simp: ds_def)
qed

lemma Message_decode_empty: "Message_decode m [] \<noteq> Inr m'"
proof -
  have "get16bits (Buffer_ctor []) = (Inl (DnsException ''Try to read behind buffer''), Buffer_ctor [])"
    by (simp add: get16bits_def checkAvailableSpace_def Buffer_ctor_def seq_def bnd_def)
  then show ?thesis
    by (simp add: Message_decode_def Message_body_def bnd_Inl)
qed

text \<open>
  C16: A request for a name, of an authenticated client and with an IPv4 name server, sends that
  server one datagram, which decodes to a question for the addresses of exactly the requested name, and
  waits for the answer with the name and the port of the request kept.
\<close>

theorem name_request_asks_name_server:
  fixes s :: sstate
  assumes "data_event flags" and "se_state (sess s) = Authenticated"
    and req: "arrived s = v # c # rsv # ep_wire (EpDomain d p)" and c: "command_of c \<in> {Cmd_Connect, Cmd_UdpAssociate}"
    and d: "length d < 256" "name_ok d" and none: "se_dns (sess s) = []"
    and ns: "dns_ip (params s) \<noteq> []" "inet_pton s AF_INET (dns_ip (params s)) = Some ns" "length ns = 4"
    and sock: "\<And>h. os s h (Sys_socket AF_INET SOCK_DGRAM) = answer k"
    and sent: "\<And>h c. os s h (Sys_sendto (int k) c (SockIn ns (htons (dns_port (params s)))) 16) = answer (Suc j)"
  shows "\<exists>t dg. process_client_event flags s = (Inr True, t)
    \<and> sess t = (sess s)\<lparr>se_command := command_of c, se_domain := d, se_state := ResolvingDomainName,
        se_dns := [\<lparr>ds_fd = int k, ds_domain_name = d, ds_port = p, ds_buffer = MemoryBuffer_null\<rparr>]\<rparr>
    \<and> Message_decode Message dg = Inr (address_question d)
    \<and> calls t = calls s @ [recv_call s, Sys_socket AF_INET SOCK_DGRAM,
        add_event (int k) (PDns (se_id (sess s)) 0) (Ev_Read OR Ev_Closed),
        Sys_sendto (int k) dg (SockIn ns (htons (dns_port (params s)))) 16]"
proof -
  let ?s1 = "after (recv_call s) s" and ?to = "SockIn ns (htons (dns_port (params s)))"
  define s2 where "s2 = ?s1\<lparr>sess := (sess s)\<lparr>se_command := command_of c\<rparr>\<rparr>"
  have e: "ep_ok (EpDomain d p)" using d(1) by simp
  note m = request_block [OF req]
  have cmd: "check_command (received s) ?s1 = (Inr True, s2)"
    using check_command_exec [OF received_ptr, of s ?s1] request_fields(1) [OF m e] c by (simp add: s2_def)
  have s2: "os s2 = os s" "params s2 = params s" "inet_pton s2 = inet_pton s" "se_dns (sess s2) = []"
      "se_id (sess s2) = se_id (sess s)" "sess s2 = (sess s)\<lparr>se_command := command_of c\<rparr>"
      "calls s2 = calls s @ [recv_call s]"
    using none by (simp_all add: s2_def calls_def)
  have ns2: "dns_ip (params s2) \<noteq> []" "inet_pton s2 AF_INET (dns_ip (params s2)) = Some ns"
      "\<And>h. os s2 h (Sys_socket AF_INET SOCK_DGRAM) = answer k"
    using ns sock by (simp_all add: s2)
  obtain u dg where u: "resolve_domain_name (received s) s2 = bnd (sys_sendto (int k) dg ?to 16)
        (\<lambda>status. if status = 0 then ret False else if status = -1 then ret False else ret (status > 0)) u"
      "Message_decode Message dg = Inr (address_question d)"
      "calls u = calls s2 @ [Sys_socket AF_INET SOCK_DGRAM, add_event (int k) (PDns (se_id (sess s)) 0) (Ev_Read OR Ev_Closed)]"
      "sess u = (sess s2)\<lparr>se_domain := d, se_dns := [\<lparr>ds_fd = int k, ds_domain_name = d, ds_port = p, ds_buffer = MemoryBuffer_null\<rparr>],
         se_state := ResolvingDomainName\<rparr>" "os u = os s"
    using resolve_domain_name_exec [OF received_ptr m d s2(4) ns2(1,2) ns(3) ns2(3)] by (auto simp: s2)
  have "dg \<noteq> []" using u(2) Message_decode_empty by auto
  define t where "t = after (Sys_sendto (int k) dg ?to 16) u"
  have "resolve_domain_name (received s) s2 = (Inr True, t)"
    unfolding u(1) using sent [of "trace u" dg] \<open>dg \<noteq> []\<close>
    by (simp add: bnd_def sys_sendto_def syscall_def Let_def u(5) t_def answer_def)
  moreover have "resolve_address (received s) = bnd (resolve_domain_name (received s)) (\<lambda>is_domain_name.
         seq (when_do (\<not> is_domain_name) (bnd (refuse_command Rep_AddrTypeNotSupported (block s)) (\<lambda>_. ret ())))
           (ret (None, is_domain_name)))"
    by (simp add: resolve_address_def bnd_block_of [OF received_ptr] request_fields(2) [OF m e] Let_def)
  ultimately have "resolve_address (received s) s2 = (Inr (None, True), t)"
    by (simp add: bnd_def seq_def when_do_def)
  then have "process_client_event flags s = (Inr True, t)"
    using authenticated_exec [OF assms(1) _ assms(2)] req cmd by (simp add: bnd_def split del: if_split)
  moreover have "calls t = calls u @ [Sys_sendto (int k) dg ?to 16]" unfolding t_def calls_after ..
  moreover have "sess t = sess u" by (simp add: t_def)
  ultimately show ?thesis using u(2-4) s2(6,7) by auto
qed

text \<open>A server whose name server is the literal 1.1.1.1, and a \<open>inet_pton\<close> that knows it.\<close>

definition resolving :: "(history \<Rightarrow> syscall \<Rightarrow> sysret) \<Rightarrow> session \<Rightarrow> sstate" where
  "resolving f se = (sstate_of f (ServerParams_default\<lparr>dns_ip := [49]\<rparr>) se)
     \<lparr>inet_pton := (\<lambda>fam ip. if fam = AF_INET \<and> ip = [49] then Some [1, 1, 1, 1] else None)\<rparr>"

lemma resolving_sel [simp]:
  "os (resolving f se) = f" "trace (resolving f se) = []" "sess (resolving f se) = se"
  "stack (resolving f se) = (\<lambda>_ _. 0)" "dns_ip (params (resolving f se)) = [49]" "dns_port (params (resolving f se)) = 53"
  "remote_tcp_nodelay (params (resolving f se)) = False" "remote_tcp_keepalive (params (resolving f se)) = False"
  "inet_pton (resolving f se) AF_INET [49] = Some [1, 1, 1, 1]"
  by (simp_all add: resolving_def sstate_of_def ServerParams_default_def)

theorem name_request_asks_name_server_witness:
  "\<exists>t dg. process_client_event Ev_Read (resolving (slow_connect [5, 1, 0, 3, 3, 97, 46, 98, 0, 80])
        ((session_at 0 7)\<lparr>se_state := Authenticated\<rparr>)) = (Inr True, t)
    \<and> Message_decode Message dg = Inr (address_question [97, 46, 98])
    \<and> calls t = [Sys_recv 7 SESSION_BUFFER, Sys_socket AF_INET SOCK_DGRAM, add_event 10 (PDns 0 0) (Ev_Read OR Ev_Closed),
        Sys_sendto 10 dg (SockIn [1, 1, 1, 1] (htons 53)) 16]"
proof -
  let ?s = "resolving (slow_connect [5, 1, 0, 3, 3, 97, 46, 98, 0, 80]) ((session_at 0 7)\<lparr>se_state := Authenticated\<rparr>)"
  have req: "arrived ?s = 5 # 1 # 0 # ep_wire (EpDomain [97, 46, 98] 80)"
    by (simp add: arrived_on_def slow_connect_def SESSION_BUFFER_def ep_wire_def hi8_def lo8_def)
  have c: "calls ?s = []" "se_client (sess ?s) = 7" "se_id (sess ?s) = 0" "se_dns (sess ?s) = []"
      "se_state (sess ?s) = Authenticated"
    by (simp_all add: calls_def session_at_def)
  have n: "name_ok [97, 46, 98]" "command_of 1 \<in> {Cmd_Connect, Cmd_UdpAssociate}" "length [97, 46, 98 :: byte] < 256"
    by (simp_all add: name_ok_def labels_ok_def label_ok_def command_of_def)
  have k: "os ?s h (Sys_socket AF_INET SOCK_DGRAM) = answer 10"
      "os ?s h (Sys_sendto (int 10) b (SockIn [1, 1, 1, 1] (htons (dns_port (params ?s)))) 16) = answer (Suc 9)" for h b
    by (simp_all add: slow_connect_def)
  obtain t dg where "process_client_event Ev_Read ?s = (Inr True, t)" "Message_decode Message dg = Inr (address_question [97, 46, 98])"
      "calls t = calls ?s @ [recv_call ?s, Sys_socket AF_INET SOCK_DGRAM,
        add_event (int 10) (PDns (se_id (sess ?s)) 0) (Ev_Read OR Ev_Closed),
        Sys_sendto (int 10) dg (SockIn [1, 1, 1, 1] (htons (dns_port (params ?s)))) 16]"
    using name_request_asks_name_server [OF data_event_Read c(5) req n(2,3,1) c(4) _ _ _ k] by auto
  then show ?thesis using c(1-3) by auto
qed

subsection \<open>The answer to a lookup\<close>







subsection \<open>Associations\<close>

text \<open>The steps of an association: the bound address, the reply that reports it, and the two sockets.\<close>

lemma bound_address_exec:
  assumes "os s (trace s) (Sys_getsockname fd) = deliver [] a"
  shows "get_bound_address fd s
    = (Inr (SocketInfo_from a (SocketInfo_fresh (stack s (trace s)))), after (Sys_getsockname fd) s)"
  using assms by (simp add: get_bound_address_def bnd_def uninit_def syscall_def Let_def)

lemma success_reply_exec:
  fixes s :: sstate
  assumes "sa_ok a" and "\<And>h b. os s h (Sys_send fd b) = answer (Suc n)" and "i = SocketInfo_from a (SocketInfo_fresh junk)"
  shows "send_reply fd Rep_Success (if si_version i = IPv4 then AT_IPv4 else AT_IPv6) (bytes_mem (si_ip i)) (ntohs (si_port i)) s
    = (Inr True, after (Sys_send fd ([5, 0, stack s (trace s) 2] @ ep_wire (addr_endpoint a))) s)"
proof -
  let ?e = "addr_endpoint a"
  have e: "ep_ok ?e" "ep_src (bytes_mem (si_ip i)) ?e" "ep_port ?e = ntohs (si_port i)"
      "ep_type ?e = (if si_version i = IPv4 then AT_IPv4 else AT_IPv6)"
    using addr_endpoint_ok [OF assms(1)] ep_src_bytes [OF assms(1) si_ok_fresh] unfolding assms(3) by (simp, simp) (cases a; simp)+
  have "send_reply fd Rep_Success (if si_version i = IPv4 then AT_IPv4 else AT_IPv6) (bytes_mem (si_ip i)) (ntohs (si_port i)) s
      = bnd (sys_send fd ([5, 0, stack s (trace s) 2] @ ep_wire ?e)) (\<lambda>n. ret (n \<noteq> 0)) s"
    using reply_block_wire [OF e(1,2), of Rep_Success "stack s (trace s)"]
    unfolding e(3,4) [symmetric] by (simp add: send_reply_def bnd_def uninit_def Let_def)
  also have "\<dots> = (Inr True, after (Sys_send fd ([5, 0, stack s (trace s) 2] @ ep_wire ?e)) s)"
    using assms(2) by (simp add: bnd_def sys_send_def syscall_def answer_def Let_def)
  finally show ?thesis .
qed

lemma add_event_exec: "\<exists>v. set_event fd p fl False z = (Inr v, after (add_event fd p fl) z)" for z :: sstate
  by (simp add: set_event_def epoll_ctl_def sys_int_def bnd_def syscall_def Let_def split del: if_split)

lemma own_sockets_exec:
  fixes s :: sstate
  shows "\<exists>t r. bnd (UDPSocket_new cl peer) (\<lambda>u. seq (sets (\<lambda>se. se\<lparr>se_udp := Some u\<rparr>))
        (bnd (set_event cl (PUdp k) (Ev_Read OR Ev_Closed) False) (\<lambda>_.
         bnd (RemoteSocket_new rm None) (\<lambda>rem. seq (set_remote rem)
         (bnd (set_event rm (PRemote k) (Ev_Read OR Ev_Closed) False) (\<lambda>_. seq (set_state Associated) (ret True))))))) s
      = (Inr True, t)
    \<and> rs_fd r = rm
    \<and> sess t = (sess s)\<lparr>se_udp := Some \<lparr>us_fd = cl, us_port_maps = Map.empty, us_client = peer\<rparr>, se_remote := Some r, se_state := Associated\<rparr>
    \<and> calls t = calls s @ [Sys_fionbio cl True, add_event cl (PUdp k) (Ev_Read OR Ev_Closed),
        Sys_fionbio rm True, add_event rm (PRemote k) (Ev_Read OR Ev_Closed)]" (is "\<exists>t r. ?m s = _ \<and> _")
proof -
  define u where "u = \<lparr>us_fd = cl, us_port_maps = Map.empty, us_client = peer\<rparr>"
  define s1 where "s1 = after (Sys_fionbio cl True) s"
  define s2 where "s2 = s1\<lparr>sess := (sess s1)\<lparr>se_udp := Some u\<rparr>\<rparr>"
  define s3 where "s3 = after (add_event cl (PUdp k) (Ev_Read OR Ev_Closed)) s2"
  define r where "r = \<lparr>rs_fd = rm, rs_info = SocketInfo_fresh (stack s3 (trace s3)), rs_addresses = None, rs_idx = -1, rs_connected = True\<rparr>"
  define s4 where "s4 = after (Sys_fionbio rm True) s3"
  define s5 where "s5 = s4\<lparr>sess := (sess s4)\<lparr>se_remote := Some r\<rparr>\<rparr>"
  define s6 where "s6 = after (add_event rm (PRemote k) (Ev_Read OR Ev_Closed)) s5"
  have u: "UDPSocket_new cl peer s = (Inr u, s1)" "sets (\<lambda>se. se\<lparr>se_udp := Some u\<rparr>) s1 = (Inr (), s2)"
    by (simp_all add: UDPSocket_new_def set_blocking_def sys_int_def bnd_def syscall_def Let_def sets_def u_def s1_def s2_def split del: if_split)
  have r: "RemoteSocket_new rm None s3 = (Inr r, s4)" "set_remote r s4 = (Inr (), s5)"
    by (simp_all add: RemoteSocket_new_def uninit_def set_blocking_def sys_int_def bnd_def syscall_def Let_def set_remote_def sets_def
        r_def s4_def s5_def split del: if_split)
  obtain v w where e: "set_event cl (PUdp k) (Ev_Read OR Ev_Closed) False s2 = (Inr v, s3)"
      "set_event rm (PRemote k) (Ev_Read OR Ev_Closed) False s5 = (Inr w, s6)"
    using add_event_exec unfolding s3_def s6_def by blast
  have "set_state Associated s6 = (Inr (), in_state Associated s6)" by (simp add: set_state_def sets_def)
  then have "?m s = (Inr True, in_state Associated s6)" by (simp add: bnd_def seq_def u e r)
  moreover have "calls (in_state Associated s6) = calls s @ [Sys_fionbio cl True, add_event cl (PUdp k) (Ev_Read OR Ev_Closed),
      Sys_fionbio rm True, add_event rm (PRemote k) (Ev_Read OR Ev_Closed)]"
    unfolding calls_sess unfolding s6_def calls_after unfolding s5_def calls_sess unfolding s4_def calls_after
    unfolding s3_def calls_after unfolding s2_def calls_sess unfolding s1_def calls_after
    by (simp only: append.assoc append.simps)
  moreover have "sess (in_state Associated s6) = (sess s)\<lparr>se_udp := Some u, se_remote := Some r, se_state := Associated\<rparr>"
    by (simp add: s6_def s5_def s4_def s3_def s2_def s1_def)
  moreover have "rs_fd r = rm" by (simp add: r_def)
  ultimately show ?thesis unfolding u_def by blast
qed

text \<open>
  C18: An association binds a socket of its own to the address at which the client reached the server,
  at a port of the kernel's choice, tells the client the address and the port it got with
  reply 0, and then takes datagrams of the client on that socket and of destinations on the other.
\<close>

theorem association_is_offered:
  fixes s :: sstate
  assumes client: "\<And>h. os s h (Sys_getsockname (se_client (sess s))) = deliver [] here" "sa_ok here"
    and bound: "\<And>h. os s h (Sys_getsockname cl) = deliver [] there" "sa_ok there"
    and bind: "\<And>h. sr_ok (os s h (Sys_bind cl (sa_clear_port here) (sa_len here)))"
    and sent: "\<And>h b. os s h (Sys_send (se_client (sess s)) b) = answer (Suc n)"
  shows "\<exists>t reserved u r. associate cl rm s = (Inr True, t)
    \<and> se_state (sess t) = Associated \<and> se_udp (sess t) = Some u \<and> us_fd u = cl \<and> us_client u = se_peer (sess s)
    \<and> us_port_maps u = Map.empty \<and> se_remote (sess t) = Some r \<and> rs_fd r = rm
    \<and> calls t = calls s @ [Sys_getsockname (se_client (sess s)), Sys_bind cl (sa_clear_port here) (sa_len here),
        Sys_getsockname cl, Sys_send (se_client (sess s)) ([5, 0, reserved] @ ep_wire (addr_endpoint there)),
        Sys_fionbio cl True, add_event cl (PUdp (se_id (sess s))) (Ev_Read OR Ev_Closed),
        Sys_fionbio rm True, add_event rm (PRemote (se_id (sess s))) (Ev_Read OR Ev_Closed)]"
proof -
  let ?fd = "se_client (sess s)" and ?k = "se_id (sess s)"
  let ?i1 = "SocketInfo_from here (SocketInfo_fresh (stack s (trace s)))"
  define s1 where "s1 = after (Sys_getsockname ?fd) s"
  define s2 where "s2 = after (Sys_bind cl (sa_clear_port here) (sa_len here)) s1"
  define i where "i = SocketInfo_from there (SocketInfo_fresh (stack s2 (trace s2)))"
  define s3 where "s3 = after (Sys_getsockname cl) s2"
  let ?bytes = "[5, 0, stack s3 (trace s3) 2] @ ep_wire (addr_endpoint there)"
  define s4 where "s4 = after (Sys_send ?fd ?bytes) s3"
  have sel: "os s1 = os s" "os s2 = os s" "os s3 = os s" "sess s1 = sess s" "sess s2 = sess s" "sess s3 = sess s" "sess s4 = sess s"
    by (simp_all add: s1_def s2_def s3_def s4_def)
  have here: "get_bound_address ?fd s = (Inr ?i1, s1)" "SocketInfo_to ?i1 = (here, sa_len here)"
    unfolding s1_def using client by (simp_all add: bound_address_exec SocketInfo_to_addr del: SocketInfo_from.simps)
  obtain v where bind: "Socket_bind cl (sa_clear_port here) (sa_len here) s1 = (Inr v, s2)" "v \<noteq> -1"
    using bind by (simp add: Socket_bind_def sys_int_def bnd_def syscall_def Let_def s2_def sel)
  have "get_bound_address cl s2 = (Inr i, s3)"
    unfolding s3_def i_def using bound(1) by (simp add: bound_address_exec sel del: SocketInfo_from.simps)
  then have there: "catch_all (bnd (get_bound_address cl) (\<lambda>i. ret (Some i))) (ret None) s2 = (Inr (Some i), s3)"
    by (simp add: catch_all_def bnd_def)
  have reply: "send_reply ?fd Rep_Success (if si_version i = IPv4 then AT_IPv4 else AT_IPv6) (bytes_mem (si_ip i)) (ntohs (si_port i)) s3
      = (Inr True, s4)"
    unfolding s4_def by (rule success_reply_exec [OF bound(2) _ i_def]) (simp add: sel sent)
  obtain t r where t: "associate cl rm s = (Inr True, t)" "rs_fd r = rm"
    "sess t = (sess s4)\<lparr>se_udp := Some \<lparr>us_fd = cl, us_port_maps = Map.empty, us_client = se_peer (sess s)\<rparr>,
        se_remote := Some r, se_state := Associated\<rparr>"
    "calls t = calls s4 @ [Sys_fionbio cl True, add_event cl (PUdp ?k) (Ev_Read OR Ev_Closed),
        Sys_fionbio rm True, add_event rm (PRemote ?k) (Ev_Read OR Ev_Closed)]"
    using own_sockets_exec [of cl "se_peer (sess s)" ?k rm s4] bind(2)
    by (auto simp: associate_def bnd_gets bnd_Inr here bind(1) there reply sel simp del: SocketInfo_from.simps)
  have "calls s4 = calls s @ [Sys_getsockname ?fd, Sys_bind cl (sa_clear_port here) (sa_len here), Sys_getsockname cl, Sys_send ?fd ?bytes]"
    unfolding s4_def calls_after unfolding s3_def calls_after unfolding s2_def calls_after unfolding s1_def calls_after
    by (simp only: append.assoc append.simps)
  with t show ?thesis
    by (intro exI [of _ t] exI [of _ "stack s3 (trace s3) 2"] exI [of _ "the (se_udp (sess t))"] exI [of _ r]) simp
qed

theorem association_is_offered_witness:
  "\<exists>t reserved. associate 8 9 (sstate_of (\<lambda>h c. case c of Sys_getsockname _ \<Rightarrow> deliver [] (SockIn [10, 0, 0, 1] (htons 5)) | _ \<Rightarrow> answer 10)
        ServerParams_default (session_at 0 7)) = (Inr True, t)
    \<and> se_state (sess t) = Associated
    \<and> calls t = [Sys_getsockname 7, Sys_bind 8 (SockIn [10, 0, 0, 1] 0) 16, Sys_getsockname 8,
        Sys_send 7 [5, 0, reserved, 1, 10, 0, 0, 1, 0, 5], Sys_fionbio 8 True, add_event 8 (PUdp 0) (Ev_Read OR Ev_Closed),
        Sys_fionbio 9 True, add_event 9 (PRemote 0) (Ev_Read OR Ev_Closed)]"
proof -
  let ?a = "SockIn [10, 0, 0, 1] (htons 5)"
  let ?s = "sstate_of (\<lambda>h c. case c of Sys_getsockname _ \<Rightarrow> deliver [] ?a | _ \<Rightarrow> answer 10) ServerParams_default (session_at 0 7)"
  have w: "ep_wire (addr_endpoint ?a) = [1, 10, 0, 0, 1, 0, 5]" by (simp add: ep_wire_def hi8_def lo8_def)
  have c: "calls ?s = []" "se_client (sess ?s) = 7" "se_id (sess ?s) = 0" by (simp_all add: calls_def session_at_def)
  have k: "os ?s h (Sys_getsockname fd) = deliver [] ?a" "sa_ok ?a" "sr_ok (os ?s h (Sys_bind 8 (sa_clear_port ?a) (sa_len ?a)))"
      "os ?s h (Sys_send fd b) = answer (Suc 9)" for h fd b
    by simp_all
  obtain t x where "associate 8 9 ?s = (Inr True, t)" "se_state (sess t) = Associated"
    "calls t = calls ?s @ [Sys_getsockname (se_client (sess ?s)), Sys_bind 8 (sa_clear_port ?a) (sa_len ?a),
        Sys_getsockname 8, Sys_send (se_client (sess ?s)) ([5, 0, x] @ ep_wire (addr_endpoint ?a)),
        Sys_fionbio 8 True, add_event 8 (PUdp (se_id (sess ?s))) (Ev_Read OR Ev_Closed),
        Sys_fionbio 9 True, add_event 9 (PRemote (se_id (sess ?s))) (Ev_Read OR Ev_Closed)]"
    using association_is_offered [where cl = 8 and rm = 9, OF k(1,2) k(1,2) k(3,4)] by blast
  then show ?thesis unfolding w c by auto
qed

end
