(* ===== verification/SessionFaults.thy ===== *)
theory SessionFaults
  imports SessionRules DnsSafety
begin

section \<open>How a handler can fail\<close>

text \<open>
  The faults a session's handler can end with: the exceptions of the DNS library and of the three calls that
  throw, and undefined behaviour of the session's own making. None of them is a use of a deleted
  session, which the server's loop relies on. Steps that follow no pointer of the session to a socket
  can also not find it null.
\<close>

definition heap_faults :: "string set" where
  "heap_faults = {''use after free'', ''double free'', ''erase at end''}"

text \<open>A null pointer to a socket, or a lookup the session does not have.\<close>

definition socket_faults :: "string set" where
  "socket_faults = {''null remote socket'', ''null udp socket'', ''no such dns socket''}"

fun handler_fault :: "fault \<Rightarrow> bool" where
  "handler_fault (DnsException _) = True"
| "handler_fault (SocketCreationException _) = True"
| "handler_fault (RuntimeError _) = True"
| "handler_fault OutOfRange = True"
| "handler_fault (UndefinedBehaviour what) = (what \<notin> heap_faults)"
| "handler_fault _ = False"

definition io_fault :: "fault \<Rightarrow> bool" where
  "io_fault e \<longleftrightarrow> handler_fault e \<and> e \<notin> UndefinedBehaviour ` socket_faults"

abbreviation handles :: "('s, 'a) exec \<Rightarrow> bool" where
  "handles \<equiv> raises handler_fault"

subsection \<open>Judgements that fit every set of faults\<close>

lemma raises_system [raising]: "raises F (syscall c)" "raises F (sys_int c)" "raises F uninit"
  by (simp_all add: raises_def syscall_def sys_int_def uninit_def bnd_def Let_def)

lemma raises_Inl [raising]: "F e \<Longrightarrow> raises F (Pair (Inl e))"
  by (simp add: raises_def)

lemma raises_state [raising]: "raises F (gets g)" "raises F (sets h)" "raises F (set_state st)"
  "raises F (set_remote r)" "raises F local_buffer"
  unfolding gets_def sets_def set_state_def set_remote_def local_buffer_def by (intro raising)+

lemma raises_by_state [raising]:
  "\<lbrakk>raises F a; raises F b; raises F c; raises F d; raises F e; raises F f; raises F g; raises F h\<rbrakk> \<Longrightarrow>
   raises F (case st of Accepted \<Rightarrow> a | AuthRequested \<Rightarrow> b | Authenticated \<Rightarrow> c
     | ResolvingDomainName \<Rightarrow> d | ConnectingRemote \<Rightarrow> e | Connected \<Rightarrow> f | Associated \<Rightarrow> g | Invalid \<Rightarrow> h)"
  by (cases st) simp_all

lemma raises_by_command [raising]:
  "\<lbrakk>raises F a; raises F b; raises F c; raises F d; \<And>x. raises F (e x)\<rbrakk> \<Longrightarrow>
   raises F (case cmd of Cmd_Connect \<Rightarrow> a | Cmd_Bind \<Rightarrow> b | Cmd_UdpAssociate \<Rightarrow> c
     | Cmd_Invalid \<Rightarrow> d | Cmd_Other x \<Rightarrow> e x)"
  by (cases cmd) simp_all

lemma raises_by_type [raising]:
  "\<lbrakk>raises F a; raises F b; raises F c; raises F d; \<And>x. raises F (e x)\<rbrakk> \<Longrightarrow>
   raises F (case t of AT_IPv4 \<Rightarrow> a | AT_DomainName \<Rightarrow> b | AT_IPv6 \<Rightarrow> c
     | AT_Invalid \<Rightarrow> d | AT_Other x \<Rightarrow> e x)"
  by (cases t) simp_all

lemma raises_by_list [raising]:
  "raises F a \<Longrightarrow> (\<And>x xs. raises F (f x xs)) \<Longrightarrow> raises F (case ys of [] \<Rightarrow> a | x # xs \<Rightarrow> f x xs)"
  by (cases ys) simp_all

subsection \<open>Steps that follow no pointer to a socket\<close>

text \<open>The contract of what judges faults: it lets the faults of input and output pass.\<close>

locale io_faults =
  fixes F :: "fault \<Rightarrow> bool"
  assumes io: "io_fault e \<Longrightarrow> F e"
begin

lemmas tolerated = io io_fault_def heap_faults_def socket_faults_def

lemma raises_socket [raising]:
  "raises F (Socket_open d t)" "raises F open_tcp" "raises F open_tcp6" "raises F open_udp"
  "raises F open_udp6" "raises F (set_blocking fd e)" "raises F (set_nodelay fd e)"
  "raises F (set_keepalive fd e)" "raises F (Socket_connect fd a n)" "raises F (Socket_bind fd a n)"
  "raises F (sys_recv fd n m)" "raises F (sys_recvfrom fd n m)" "raises F (sys_send fd bs)"
  "raises F (sys_sendto fd bs a n)" "raises F (Socket_close fd)" "raises F (Socket_shutdown fd)"
  "raises F (get_bound_address fd)" "raises F (get_peer_address fd)"
  "raises F (SessionSocket_send fd b)" "raises F (SessionSocket_send_to fd b a n)"
  "raises F (SessionSocket_recv fd b)" "raises F (SessionSocket_recv_from fd b)"
  unfolding socket_defs SessionSocket_recv_def SessionSocket_recv_from_def Let_def
  by (intro raising; simp add: tolerated)+

lemma raises_poller [raising]:
  "raises F (epoll_ctl opr fd p flags)" "raises F (remove_event fd)" "raises F (set_event fd p flags m)"
  unfolding epoll_ctl_def remove_event_def set_event_def by (intro raising)+

lemma raises_client [raising]:
  "raises F (ClientSocket_new fd)" "raises F (send_auth fd m)" "raises F (send_auth_status fd b)"
  "raises F (send_reply fd r t a p)"
  unfolding ClientSocket_new_def send_auth_def send_auth_status_def send_reply_def Let_def
  by (intro raising)+

lemma raises_udp [raising]:
  "raises F (UDPSocket_new fd i)" "raises F (UDPSocket_recv_from us b)" "raises F (UDPSocket_send_to us b a)"
  unfolding UDPSocket_new_def UDPSocket_recv_from_def UDPSocket_send_to_def Let_def
  by (intro raising; simp add: tolerated)+

subsection \<open>The DNS library\<close>

lemma dn_labels_fault: "dn_labels val m idx n p q ix = Inl e \<Longrightarrow> F e"
  by (induction val m idx n p q ix rule: dn_labels.induct)
    (subst (asm) dn_labels.simps, auto simp: arr_set_def tolerated split: if_splits)

lemma raises_put [raising]: "raises F (checkAvailableSpace n)" "raises F (poke v)" "raises F (put8bits v)"
  "raises F (put16bits w)" "raises F (putBytes bs)"
  unfolding checkAvailableSpace_def poke_def put8bits_def put16bits_def putBytes_def
  by (intro raising; simp add: tolerated)+

lemma raises_compress [raising]: "raises F (dn_compress m n idx)"
  by (induction idx) (auto simp: Let_def intro!: raising)

lemma raises_name [raising]: "raises F (putDnsDomainName junk val c)"
  unfolding putDnsDomainName_def
  by (intro raising; simp add: tolerated dn_labels_fault)

lemma raises_query_message: "raises F (Message_put junk (dns_query_message name))"
proof -
  have empty: "mAnswers (dns_query_message name) = []" "mAuthorities (dns_query_message name) = []"
      "mAdditional (dns_query_message name) = []"
    by (simp_all add: dns_query_message_def Message_def Let_def addQuery_def setOpCode_def setQr_def)
  show ?thesis
    unfolding Message_put_def empty map_each.simps QuerySection_encode_def by (intro raising)
qed

lemma Message_encode_query_fault:
  "Message_encode junk (dns_query_message name) out = Inl e \<Longrightarrow> F e"
  using raisesD [OF raises_query_message]
  by (auto simp: Message_encode_def split: prod.splits sum.splits)

lemma Message_decode_fault: "Message_decode m bs = Inl e \<Longrightarrow> F e"
proof -
  assume fail: "Message_decode m bs = Inl e"
  have "decode_fault e"
  proof (cases "length bs \<le> MAX_MSG_LEN")
    case True
    then have wf: "dns_wf (Buffer_ctor bs)" by (rule dns_wf_ctor)
    with True fail show ?thesis
      using dns_reader_InlD [OF Message_body_reader wf]
      by (cases "Message_body (removeAllRecords m) (Buffer_ctor bs)") (auto simp: Message_decode_def)
  qed (use fail in \<open>auto simp: Message_decode_def decode_fault_def\<close>)
  then show ?thesis by (cases e) (auto simp: decode_fault_def tolerated)
qed

lemma answers_addresses_fault: "answers_addresses junk p rrs = Inl e \<Longrightarrow> F e"
  by (induction rrs)
    (auto simp: answer_addresses_def tolerated split: sum.splits if_splits option.splits rdata.splits)

lemma raises_dns [raising]: "raises F (DnsSocket_query ds a)" "raises F (DnsSocket_get_response ds)"
  unfolding DnsSocket_query_def DnsSocket_get_response_def Let_def
  by (intro raising; simp add: tolerated Message_encode_query_fault Message_decode_fault answers_addresses_fault)+

subsection \<open>The session\<close>

lemma raises_hooks [raising]: "raises F (hook_client_recv fd b)" "raises F (hook_remote_recv fd b)"
  "raises F (hook_client_send fd b)" "raises F (hook_remote_send fd b)" "raises F (hook_udp_recv_from r b)"
  "raises F (hook_udp_send_to r b a)" "raises F (RemoteSocket_new fd as)"
  unfolding hook_defs RemoteSocket_new_def by (intro raising)+

lemma raises_initialize [raising]: "raises F (Session_new n fd)" "raises F initialize"
  unfolding Session_new_def initialize_def by (intro raising)+

lemma raises_drop [raising]: "raises F (drop_socket fd)" "raises F (drop_dns ds)"
  unfolding drop_socket_def by (induction ds) (auto simp: drop_socket_def intro!: raising)

lemma raises_end [raising]: "raises F Session_shutdown" "raises F (Session_delete se)"
  unfolding Session_shutdown_def Session_delete_def by (intro raising)+

lemma copy_from_fault: "copy_from m n b = (Inl e, b') \<Longrightarrow> F e"
  by (auto simp: copy_from_def bnd_def seq_def Let_def tolerated split: option.splits if_splits)

lemma raises_copy:
  assumes "\<And>b'. raises F (f b')"
  shows "raises F (case copy_from m n b of (Inl e, _) \<Rightarrow> throw e | (Inr _, b') \<Rightarrow> f b')"
  using assms by (auto simp: copy_from_fault intro!: raises_throw split: prod.split sum.split)

lemma IPAddress_of_string_fault: "IPAddress_of_string pton junk ip p n = Inl e \<Longrightarrow> F e"
  by (auto simp: IPAddress_of_string_def Let_def tolerated split: option.splits)

lemma raises_vector_at [raising]: "raises F (vector_at xs i)"
  unfolding vector_at_def by (intro raising; simp add: tolerated)

lemma raises_messages [raising]: "raises F (block_of b)" "raises F (check_version b)" "raises F (request_auth b)"
  "raises F (handle_auth b)" "raises F (refuse_command r m)" "raises F (check_command b)"
  "raises F (resolve_domain_name b)" "raises F (resolve_address b)"
proof -
  show b: "raises F (block_of b)" for b
    unfolding block_of_def by (intro raising; simp add: tolerated)
  show r: "raises F (refuse_command r m)" for r m
    unfolding refuse_command_def Let_def by (intro raising)
  show d: "raises F (resolve_domain_name b)" for b
    unfolding resolve_domain_name_def Let_def DnsSocket_new_plain
    by (intro raising b; simp add: tolerated IPAddress_of_string_fault)
  show "raises F (resolve_address b)"
    unfolding resolve_address_def Let_def by (intro raising b r d)
  show "raises F (check_version b)" "raises F (request_auth b)" "raises F (handle_auth b)" "raises F (check_command b)"
    unfolding check_version_def request_auth_def handle_auth_def check_command_def Let_def
    by (intro raising b r)+
qed

lemma raises_associate [raising]: "raises F (associate c m)"
  unfolding associate_def Let_def by (intro raising)

end

interpretation input: io_faults io_fault
  by unfold_locales

interpretation handler: io_faults handler_fault
  by unfold_locales (simp add: io_fault_def)

end
