(* ===== verification/SessionPointers.thy ===== *)
theory SessionPointers
  imports SessionFaults
begin

section \<open>When a handler follows a pointer of its session\<close>

text \<open>
  The destination's socket, the socket of an association and the lookups are pointers that may be null. This
  theory states once which handlers follow them and what has to hold then: under a property \<open>P\<close> of the state
  that the handlers preserve, the faults are those that \<open>F\<close> tolerates. With \<open>P\<close> always true and the faults of
  any handler it says how a handler fails in any state; with a session that owns the sockets of its state it
  says that a handler finds no pointer null.
\<close>

subsection \<open>Faults from a state with a property\<close>

definition raises_from :: "('s \<Rightarrow> bool) \<Rightarrow> (fault \<Rightarrow> bool) \<Rightarrow> ('s, 'a) exec \<Rightarrow> bool" where
  "raises_from P F m \<longleftrightarrow> (\<forall>s e t. P s \<longrightarrow> m s = (Inl e, t) \<longrightarrow> F e)"

lemma raises_fromD: "raises_from P F m \<Longrightarrow> P s \<Longrightarrow> m s = (Inl e, t) \<Longrightarrow> F e"
  by (simp add: raises_from_def)

lemma raises_from_True: "raises_from (\<lambda>_. True) F m \<longleftrightarrow> raises F m"
  by (simp add: raises_from_def raises_def)

lemma from_raises: "raises F m \<Longrightarrow> raises_from P F m"
  by (auto simp: raises_from_def raises_def)

lemma from_weaken: "raises_from P F m \<Longrightarrow> (\<And>s. P' s \<Longrightarrow> P s) \<Longrightarrow> raises_from P' F m"
  unfolding raises_from_def by blast

lemma from_bnd_pre:
  assumes "raises_from P F m" and "\<And>s x t. P s \<Longrightarrow> m s = (Inr x, t) \<Longrightarrow> Q x t" and "\<And>x. raises_from (Q x) F (f x)"
  shows "raises_from P F (bnd m f)"
  using assms unfolding raises_from_def by (blast elim: bnd_InlE)

lemma from_bnd: "raises_from P F m \<Longrightarrow> keeps P m \<Longrightarrow> (\<And>x. raises_from P F (f x)) \<Longrightarrow> raises_from P F (bnd m f)"
  by (rule from_bnd_pre [where Q = "\<lambda>_. P"]) (auto dest: keepsD)

lemma from_seq: "raises_from P F m \<Longrightarrow> keeps P m \<Longrightarrow> raises_from P F n \<Longrightarrow> raises_from P F (seq m n)"
  unfolding seq_def by (rule from_bnd)

lemma from_if: "(c \<Longrightarrow> raises_from P F m) \<Longrightarrow> (\<not> c \<Longrightarrow> raises_from P F n) \<Longrightarrow> raises_from P F (if c then m else n)"
  by simp

lemma from_when_do: "raises_from P F m \<Longrightarrow> raises_from P F (when_do c m)"
  by (simp add: when_do_def raises_from_def)

lemma from_option:
  "(v = None \<Longrightarrow> raises_from P F m) \<Longrightarrow> (\<And>x. v = Some x \<Longrightarrow> raises_from P F (f x)) \<Longrightarrow>
     raises_from P F (case v of None \<Rightarrow> m | Some x \<Rightarrow> f x)"
  by (cases v) simp_all

lemma from_sum:
  "(\<And>e. v = Inl e \<Longrightarrow> raises_from P F (g e)) \<Longrightarrow> (\<And>x. v = Inr x \<Longrightarrow> raises_from P F (f x)) \<Longrightarrow>
     raises_from P F (case v of Inl e \<Rightarrow> g e | Inr x \<Rightarrow> f x)"
  by (cases v) simp_all

lemma from_prod: "(\<And>x y. raises_from P F (f x y)) \<Longrightarrow> raises_from P F (case v of (x, y) \<Rightarrow> f x y)"
  by (cases v) simp

lemma from_by_state:
  "\<lbrakk>raises_from P F a; raises_from P F b; raises_from P F c; raises_from P F d; raises_from P F e;
    raises_from P F f; raises_from P F g; raises_from P F h\<rbrakk> \<Longrightarrow>
   raises_from P F (case st of Accepted \<Rightarrow> a | AuthRequested \<Rightarrow> b | Authenticated \<Rightarrow> c
     | ResolvingDomainName \<Rightarrow> d | ConnectingRemote \<Rightarrow> e | Connected \<Rightarrow> f | Associated \<Rightarrow> g | Invalid \<Rightarrow> h)"
  by (cases st) simp_all

lemma from_gets:
  "(\<And>x. raises_from (\<lambda>s. P s \<and> x = f (sess s)) F (g x)) \<Longrightarrow> raises_from P F (bnd (gets f) g)"
  by (simp add: raises_from_def bnd_def gets_def)

lemma from_the_remote:
  assumes "\<And>s. P s \<Longrightarrow> se_remote (sess s) = None \<Longrightarrow> F (UndefinedBehaviour ''null remote socket'')"
    and "\<And>r. raises_from (\<lambda>s. P s \<and> se_remote (sess s) = Some r) F (g r)"
  shows "raises_from P F (bnd the_remote g)"
  using assms unfolding raises_from_def
  by (auto simp: bnd_def the_remote_def gets_def split: option.splits)

lemma from_the_udp:
  assumes "\<And>s. P s \<Longrightarrow> se_udp (sess s) = None \<Longrightarrow> F (UndefinedBehaviour ''null udp socket'')"
    and "\<And>u. raises_from (\<lambda>s. P s \<and> se_udp (sess s) = Some u) F (g u)"
  shows "raises_from P F (bnd the_udp g)"
  using assms unfolding raises_from_def
  by (auto simp: bnd_def the_udp_def gets_def split: option.splits)

lemma from_forget: "raises_from P F m \<Longrightarrow> raises_from (\<lambda>s. P s \<and> B s) F m"
  by (erule from_weaken) simp

lemmas from_rules = from_bnd from_seq from_if from_when_do from_option from_sum from_prod from_by_state

subsection \<open>The contract\<close>

text \<open>
  What a handler of the client's events needs: \<open>P\<close> in the states in which a message of the client goes to another
  socket, and where \<open>P\<close> does not hold nothing that waits to be sent.
\<close>

definition usable :: "(sstate \<Rightarrow> bool) \<Rightarrow> sstate \<Rightarrow> bool" where
  "usable P s \<longleftrightarrow> (se_state (sess s) \<in> {Connected, Associated} \<longrightarrow> P s)
     \<and> (P s \<or> mb_size (scheduled_for ClientSide (sess s)) = 0)"


text \<open>
  \<open>P\<close> holds while a session owns the sockets that its state asks for; a session that has a destination and
  begins to connect satisfies it.
\<close>

locale socket_user = session_invariant P S + io_faults F
  for P :: "sstate \<Rightarrow> bool" and S :: "sess_state set" and F :: "fault \<Rightarrow> bool" +
  assumes connected: "Connected \<in> S"
    and remote: "P s \<Longrightarrow> se_remote (sess s) = None \<Longrightarrow> F (UndefinedBehaviour ''null remote socket'')"
    and udp: "P s \<Longrightarrow> se_state (sess s) = Associated \<Longrightarrow> se_udp (sess s) = None \<Longrightarrow> F (UndefinedBehaviour ''null udp socket'')"
    and connecting: "se_remote (sess s) \<noteq> None \<Longrightarrow> se_state (sess s) = ConnectingRemote \<Longrightarrow> P s"
begin

lemmas leaf = raises_ret [THEN from_raises] raises_throw [THEN from_raises] raises_Inl [THEN from_raises]
  raises_asks [THEN from_raises] raises_upd [THEN from_raises] raises_system [THEN from_raises]
  raises_state [THEN from_raises] raises_socket [THEN from_raises] raises_poller [THEN from_raises]
  raises_client [THEN from_raises] raises_udp [THEN from_raises] raises_dns [THEN from_raises]
  raises_hooks [THEN from_raises] raises_vector_at [THEN from_raises] raises_messages [THEN from_raises]
  raises_associate [THEN from_raises]

lemma the_remote_from: "raises_from P F the_remote"
  unfolding raises_from_def the_remote_def
  by (auto simp: bnd_def gets_def dest: remote split: option.splits)

lemmas pointer_rules = from_rules leaf the_remote_from rules hooks_keep

subsection \<open>The relay\<close>

lemma side_from: "raises_from P F (side_socket d)" "raises_from P F (side_send d fd b)"
  by (cases d; simp; intro pointer_rules)+

lemma watch_from: "raises_from P F (watch d fl)"
  unfolding watch_def by (intro pointer_rules side_from side_keeps)

lemma save_rest_from: "raises_from P F (save_rest d ob k n)"
proof -
  have "raises F (save_rest d ob k n)"
    unfolding save_rest_def Let_def
    by (intro raises_copy raising; simp add: tolerated)
  then show ?thesis by (rule from_raises)
qed

lemma relay_from: "raises_from P F (session_socket_send d ob)"
  unfolding session_socket_send_def Let_def
  by (intro pointer_rules side_from side_keeps watch_from watch_keeps save_rest_from save_rest_keeps
      keeps_sets keeps_schedule; simp add: tolerated)

subsection \<open>Connecting\<close>

lemma remote_connected_from: "raises_from P F remote_connected"
  unfolding remote_connected_def by (intro pointer_rules)

lemma reply_from: "raises_from P F (reply_remote_connection r t a p)"
  unfolding reply_remote_connection_def
  by (intro pointer_rules remote_connected_from remote_connected_keeps connected)

lemma try_connect_next_from: "raises_from P F try_connect_next"
  unfolding try_connect_next_def Let_def
  by (intro pointer_rules reply_from reply_keeps; simp add: tolerated connected)

lemma could_connect_from: "raises_from P F could_connect"
  unfolding could_connect_def by (intro pointer_rules reply_from; simp add: tolerated)

lemma process_remote_from: "raises_from P F (process_remote b addr)"
  unfolding process_remote_def
proof (rule from_gets)
  fix st
  let ?P = "\<lambda>s. P s \<and> st = se_state (sess s)"
  have c: "raises_from ?P F (bnd the_remote (\<lambda>_. session_socket_send ClientSide (Some b)))"
    by (intro from_forget pointer_rules relay_from)
  have f: "raises_from ?P F (ret False)" by (intro leaf)
  have a: "raises_from ?P F (bnd the_udp (\<lambda>u. case addr of
       None \<Rightarrow> throw (UndefinedBehaviour ''uninitialised address'')
     | Some a \<Rightarrow> bnd (UDPSocket_send_to u b a) (\<lambda>n. ret (n \<noteq> 0))))" if "st = Associated"
  proof (rule from_the_udp)
    show "F (UndefinedBehaviour ''null udp socket'')" if "?P s" "se_udp (sess s) = None" for s
      using udp [of s] that \<open>st = Associated\<close> by simp
  qed (rule from_raises, intro raising; simp add: tolerated)
  show "raises_from ?P F (case st of
     Connected \<Rightarrow> bnd the_remote (\<lambda>_. session_socket_send ClientSide (Some b))
   | Associated \<Rightarrow> bnd the_udp (\<lambda>u. case addr of
       None \<Rightarrow> throw (UndefinedBehaviour ''uninitialised address'')
     | Some a \<Rightarrow> bnd (UDPSocket_send_to u b a) (\<lambda>n. ret (n \<noteq> 0)))
   | _ \<Rightarrow> ret False)"
    using c f a by (cases st) (simp_all del: ret_exec)
qed

lemma process_remote_event_from: "raises_from P F (process_remote_event flags)"
  unfolding process_remote_event_def
  by (intro pointer_rules try_connect_next_from could_connect_from relay_from process_remote_from)

text \<open>A connection begins with the destination's socket, whatever the session owned before.\<close>

lemma connect_remote_from: "raises F (connect_remote fd as)"
proof -
  have tail: "raises_from P F (bnd (process_remote_event Ev_Error) (\<lambda>ok.
      if \<not> ok then ret False else bnd (set_event fd (PRemote n) (Ev_Write OR Ev_Closed) False) (\<lambda>_. ret True)))" for n
    by (intro pointer_rules process_remote_event_from start_connecting_keeps)
  let ?R = "\<lambda>s. se_remote (sess s) \<noteq> None"
  have closed: "plain_closed ?R" by (intro sys_closed_plain sys_closedI) simp
  have state: "raises_from ?R F (seq (set_state ConnectingRemote) m)" if "raises_from P F m" for m :: "bool ses"
  proof -
    have "P (s\<lparr>sess := (sess s)\<lparr>se_state := ConnectingRemote\<rparr>\<rparr>)" if "?R s" for s
      by (rule connecting) (use that in simp_all)
    with that show ?thesis
      unfolding raises_from_def by (fastforce simp: seq_def bnd_def set_state_def sets_def)
  qed
  have first: "raises_from (\<lambda>_. True) F (seq (set_remote r) m)" if "raises_from ?R F m" for r and m :: "bool ses"
  proof -
    have "seq (set_remote r) m s = m (s\<lparr>sess := (sess s)\<lparr>se_remote := Some r\<rparr>\<rparr>)" for s
      by (simp add: seq_def bnd_def set_remote_def sets_def)
    moreover have "?R (s\<lparr>sess := (sess s)\<lparr>se_remote := Some r\<rparr>\<rparr>)" for s by simp
    ultimately show ?thesis using that unfolding raises_from_def by metis
  qed
  have calls: "raises_from ?R F (bnd (set_nodelay fd b) (\<lambda>_. bnd (set_keepalive fd b') (\<lambda>_.
      seq (set_state ConnectingRemote) m)))" if "raises_from P F m" for b b' and m :: "bool ses"
    by (intro from_bnd leaf state plain_calls_keep closed that)
  have "raises_from (\<lambda>_. True) F (connect_remote fd as)"
    unfolding connect_remote_def
    by (intro from_bnd leaf first calls tail) (simp_all add: keeps_def)
  then show ?thesis by (simp add: raises_from_True)
qed

lemma do_command_from: "raises F (do_command as)"
  unfolding do_command_def by (intro raising connect_remote_from)

subsection \<open>The handlers\<close>

lemma process_client_from:
  "raises_from (\<lambda>s. se_state (sess s) \<in> {Connected, Associated} \<longrightarrow> P s) F (process_client b addr)"
  unfolding process_client_def
proof (rule from_gets)
  fix st
  let ?P = "\<lambda>s. (se_state (sess s) \<in> {Connected, Associated} \<longrightarrow> P s) \<and> st = se_state (sess s)"
  have p: "raises_from ?P F m" if "st \<in> {Connected, Associated}" "raises_from P F m" for m :: "bool ses"
    by (rule from_weaken [OF that(2)]) (use that(1) in auto)
  have c: "raises_from P F (bnd the_remote (\<lambda>_. session_socket_send RemoteSide (Some b)))"
    "raises_from P F (bnd the_remote (\<lambda>r. bnd (hook_udp_send_to r b addr) (\<lambda>n. ret (n \<noteq> 0))))"
    by (intro pointer_rules relay_from)+
  have m: "raises F (bnd (check_version b) (\<lambda>ok. if ok then request_auth b else ret False))"
    "raises F (handle_auth b)" "raises F (ret False)"
    "raises F (bnd (check_command b) (\<lambda>ok.
       if \<not> ok then ret False
       else bnd (resolve_address b) (\<lambda>(addresses, is_domain_name).
         if is_domain_name then ret True
         else case addresses of None \<Rightarrow> ret False | Some as \<Rightarrow> do_command as)))"
    by (intro raising do_command_from)+
  show "raises_from ?P F (case st of
     Accepted \<Rightarrow> bnd (check_version b) (\<lambda>ok. if ok then request_auth b else ret False)
   | AuthRequested \<Rightarrow> handle_auth b
   | Authenticated \<Rightarrow> bnd (check_command b) (\<lambda>ok.
       if \<not> ok then ret False
       else bnd (resolve_address b) (\<lambda>(addresses, is_domain_name).
         if is_domain_name then ret True
         else case addresses of None \<Rightarrow> ret False | Some as \<Rightarrow> do_command as))
   | ResolvingDomainName \<Rightarrow> ret False
   | Connected \<Rightarrow> bnd the_remote (\<lambda>_. session_socket_send RemoteSide (Some b))
   | Associated \<Rightarrow> bnd the_remote (\<lambda>r. bnd (hook_udp_send_to r b addr) (\<lambda>n. ret (n \<noteq> 0)))
   | _ \<Rightarrow> ret False)"
    using p c m [THEN from_raises] by (cases st) (simp_all del: ret_exec)
qed

lemma no_flush:
  assumes "mb_size (scheduled_for ClientSide (sess s)) = 0"
  shows "session_socket_send ClientSide None s = (Inl (UndefinedBehaviour ''null buffer''), s)"
  using assms by (simp add: session_socket_send_def gets_def bnd_def)

lemma process_client_event_from: "raises_from (usable P) F (process_client_event flags)"
proof -
  let ?L = "\<lambda>s. se_state (sess s) \<in> {Connected, Associated} \<longrightarrow> P s"
  have closed: "plain_closed ?L"
    using sys unfolding plain_closed_def sys_closed_def by (simp add: syscall_def Let_def)
  have flush: "raises_from (usable P) F (session_socket_send ClientSide None)"
    unfolding raises_from_def
  proof (intro allI impI)
    fix s e t
    assume u: "usable P s" and run: "session_socket_send ClientSide None s = (Inl e, t)"
    show "F e"
    proof (cases "P s")
      case True
      with run show ?thesis by (rule raises_fromD [OF relay_from, rotated])
    next
      case False
      with u have "mb_size (scheduled_for ClientSide (sess s)) = 0" by (simp add: usable_def)
      with run show ?thesis by (auto simp: no_flush tolerated)
    qed
  qed
  have message: "raises_from (usable P) F (bnd local_buffer (\<lambda>buffer. bnd (gets se_client) (\<lambda>fd.
        bnd (hook_client_recv fd buffer) (\<lambda>(status, buffer).
          if status = 0 then ret False
          else if status = -1 then ret False
          else process_client buffer None))))"
  proof (rule from_weaken)
    show "raises_from ?L F (bnd local_buffer (\<lambda>buffer. bnd (gets se_client) (\<lambda>fd.
        bnd (hook_client_recv fd buffer) (\<lambda>(status, buffer).
          if status = 0 then ret False
          else if status = -1 then ret False
          else process_client buffer None))))"
      unfolding hook_client_recv_def
      by (intro from_rules leaf raises_hooks [THEN from_raises] keeps_reads plain_calls_keep closed process_client_from)
  qed (simp add: usable_def)
  show ?thesis
    unfolding process_client_event_def by (intro from_if leaf flush message)
qed

lemma process_udp_event_from:
  "raises_from (\<lambda>s. usable P s \<and> (se_udp (sess s) = None \<longrightarrow> F (UndefinedBehaviour ''null udp socket''))) F
    (process_udp_event flags)"
proof -
  let ?L = "\<lambda>s. se_state (sess s) \<in> {Connected, Associated} \<longrightarrow> P s"
  let ?U = "\<lambda>s. ?L s \<and> (se_udp (sess s) = None \<longrightarrow> F (UndefinedBehaviour ''null udp socket''))"
  have closed: "plain_closed ?L"
    using sys unfolding plain_closed_def sys_closed_def by (simp add: syscall_def Let_def)
  have update: "keeps ?L (sets (\<lambda>se. se\<lparr>se_udp := Some u\<rparr>))" for u
    by (rule keeps_sets) (simp add: keeps_udp)
  have "raises_from ?U F (process_udp_event flags)"
    unfolding process_udp_event_def
  proof (rule from_if, intro leaf, rule from_bnd, intro leaf, intro keeps_reads, rule from_the_udp)
    fix buffer u
    have "raises_from ?L F (bnd (UDPSocket_recv_from u buffer) (\<lambda>(status, buffer, addr, u').
          seq (sets (\<lambda>se. se\<lparr>se_udp := Some u'\<rparr>))
            (if status = 0 then ret True
             else if status = -1 then ret False
             else process_client buffer addr)))"
      by (intro from_rules leaf plain_calls_keep closed update process_client_from)
    then show "raises_from (\<lambda>s. ?U s \<and> se_udp (sess s) = Some u) F (bnd (UDPSocket_recv_from u buffer) (\<lambda>(status, buffer, addr, u').
          seq (sets (\<lambda>se. se\<lparr>se_udp := Some u'\<rparr>))
            (if status = 0 then ret True
             else if status = -1 then ret False
             else process_client buffer addr)))"
      by (rule from_weaken) simp
  qed blast
  then show ?thesis by (rule from_weaken) (simp add: usable_def)
qed

lemma process_dns_event_from:
  "raises_from (\<lambda>s. i < length (se_dns (sess s)) \<or> F (UndefinedBehaviour ''no such dns socket'')) F (process_dns_event flags i)"
proof -
  have answer: "raises F (bnd (DnsSocket_get_response d) (\<lambda>(status, addresses).
          bnd (remove_event fd) (\<lambda>_.
            if status = 0 then ret False
            else if status = -1 then ret False
            else do_command addresses)))" for d fd
    by (intro raising do_command_from)
  show ?thesis
    unfolding process_dns_event_def
  proof (rule from_if, intro leaf, rule from_gets, rule from_if)
    fix dns :: "dnssock list" assume "i \<ge> length dns"
    then show "raises_from (\<lambda>s. (i < length (se_dns (sess s)) \<or> F (UndefinedBehaviour ''no such dns socket''))
        \<and> dns = se_dns (sess s)) F (throw (UndefinedBehaviour ''no such dns socket''))"
      by (auto simp: raises_from_def)
  qed (rule from_raises [OF answer])
qed

end

subsection \<open>The two uses of the contract\<close>

interpretation any_state: socket_user "\<lambda>_. True" UNIV handler_fault
  by unfold_locales (simp_all add: sys_closed_def heap_faults_def)

text \<open>A session owns the sockets of its state.\<close>

definition owns_sockets :: "sstate \<Rightarrow> bool" where
  "owns_sockets s \<longleftrightarrow> se_remote (sess s) \<noteq> None \<and> (se_state (sess s) = Associated \<longrightarrow> se_udp (sess s) \<noteq> None)"

lemma schedule_udp [simp]: "se_udp (schedule d b se) = se_udp se"
  by (cases d) simp_all

interpretation own_sockets: socket_user owns_sockets "- {Associated}" io_fault
proof
  show "sys_closed owns_sockets"
    by (rule sys_closedI) (simp add: owns_sockets_def)
qed (auto simp: owns_sockets_def)

end
