(* ===== verification/ServerSafety.thy ===== *)
theory ServerSafety
  imports Server SessionPointers
begin

section \<open>The server's sessions\<close>

text \<open>
  No event reaches a session that has been deleted, whatever the batch and whatever the calls
  answer; deleting a session releases every descriptor it owns, once; and when the loop ends
  nothing is left.
\<close>

subsection \<open>The sessions stay valid\<close>

text \<open>
  Between two events the list holds exactly the sessions that are allocated, each once, and
  the next session gets a new place.
\<close>

definition server_inv :: "server \<Rightarrow> bool" where
  "server_inv s \<longleftrightarrow> distinct (sv_sessions s) \<and> set (sv_sessions s) = dom (sv_heap s)
     \<and> (\<forall>n \<in> dom (sv_heap s). n < sv_next s)"

definition events_ok :: "event list \<Rightarrow> server \<Rightarrow> bool" where
  "events_ok es s \<longleftrightarrow> (\<forall>e \<in> set es. \<forall>n. ptr_session (ev_ptr e) = Some n \<longrightarrow> n \<in> dom (sv_heap s))"

text \<open>What a call into a session leaves as it is.\<close>

definition same_sessions :: "server \<Rightarrow> server \<Rightarrow> bool" where
  "same_sessions s t \<longleftrightarrow> dom (sv_heap t) = dom (sv_heap s) \<and> sv_sessions t = sv_sessions s
     \<and> sv_next t = sv_next s \<and> sv_fd t = sv_fd s"

lemma server_inv_same: "same_sessions s t \<Longrightarrow> server_inv t = server_inv s"
  by (simp add: same_sessions_def server_inv_def)

lemma events_ok_same: "same_sessions s t \<Longrightarrow> events_ok es t = events_ok es s"
  by (simp add: same_sessions_def events_ok_def)

lemma same_sessions_refl [simp]: "same_sessions s s"
  by (simp add: same_sessions_def)

lemma on_session_wp:
  assumes n: "n \<in> dom (sv_heap s)" and m: "raises F m"
    and Q: "\<And>x t. same_sessions s t \<Longrightarrow> Q x t" and E: "\<And>e t. F e \<Longrightarrow> E e t"
  shows "wpre (on_session n m) Q E s"
proof -
  from n obtain se where se: "sv_heap s n = Some se" by auto
  let ?s = "\<lparr>os = os s, stack = stack s, inet_pton = inet_pton s, trace = trace s,
    errno = errno s, params = params s, sess = se\<rparr>"
  obtain r t where t: "m ?s = (r, t)" by (cases "m ?s")
  show ?thesis
  proof (cases r)
    case (Inl e)
    then have "F e" using raisesD [OF m] t by simp
    then show ?thesis using se t Inl E by (simp add: wpre_def on_session_def)
  next
    case (Inr x)
    then show ?thesis using se t by (simp add: wpre_def on_session_def) (auto intro!: Q simp: same_sessions_def)
  qed
qed

lemma handles_ptr: "handles (ptr_handler p flags)"
proof -
  have any: "handles m" if "raises_from Q handler_fault m" "\<And>s. Q s" for m :: "bool ses" and Q
    using that by (auto simp: raises_from_def raises_def)
  have "handles (process_client_event flags)"
    by (rule any [OF any_state.process_client_event_from]) (simp add: usable_def)
  moreover have "handles (process_udp_event flags)"
    by (rule any [OF any_state.process_udp_event_from]) (simp add: usable_def heap_faults_def)
  moreover have "handles (process_dns_event flags i)" for i
    by (rule any [OF any_state.process_dns_event_from]) (simp add: heap_faults_def)
  moreover have "handles (process_remote_event flags)"
    by (rule any [OF any_state.process_remote_event_from]) simp
  ultimately show ?thesis by (cases p) simp_all
qed

text \<open>A system call of the server itself.\<close>

lemma keeps_same_sessions: "sys_closed (same_sessions s)"
  by (rule sys_closedI) (simp add: same_sessions_def)

lemma wpre_keeps:
  assumes "keeps P m" and "P s" and "raises F m"
    and "\<And>x t. P t \<Longrightarrow> Q x t" and "\<And>e t. F e \<Longrightarrow> E e t"
  shows "wpre m Q E s"
  using keepsD [OF assms(1,2)] raisesD [OF assms(3)] assms(4,5)
  by (auto simp: wpre_def split: prod.split sum.split)

subsection \<open>Creating and deleting a session\<close>

fun server_fault :: "fault \<Rightarrow> bool" where
  "server_fault (SocketAcceptException _) = True"
| "server_fault e = handler_fault e"

lemma server_faultI: "handler_fault e \<Longrightarrow> server_fault e"
  by (cases e) simp_all

lemma Session_new_keeps: "sys_closed P \<Longrightarrow> keeps P (Session_new n fd)"
  unfolding Session_new_def by auto

lemma accept_client_wp:
  assumes "\<And>x t. same_sessions s t \<Longrightarrow> Q x t"
  shows "wpre accept_client Q (\<lambda>e _. server_fault e) s"
proof (rule wpre_keeps)
  show "keeps (same_sessions s) accept_client"
    unfolding accept_client_def by (intro keeps_bnd keeps_asks keeps_socket sys_closed_plain keeps_same_sessions)
  show "raises server_fault accept_client"
    unfolding accept_client_def Socket_accept_def by (intro raising; simp)
qed (use assms in auto)

interpretation serving: io_faults server_fault
  by unfold_locales (simp add: io_fault_def server_faultI)

context io_faults begin

lemma create_new_session_wp:
  assumes inv: "server_inv s" and ok: "events_ok es s"
  shows "wpre (create_new_session fd) (\<lambda>_ t. server_inv t \<and> events_ok es t) (\<lambda>e _. F e) s"
proof -
  let ?n = "sv_next s"
  have new: "?n \<notin> dom (sv_heap s)" using inv by (auto simp: server_inv_def)
  show ?thesis
    unfolding create_new_session_def wp
  proof (rule wpre_keeps [of "same_sessions s" _ _ F])
    fix se and t :: server
    assume t: "same_sessions s t"
    let ?t = "t\<lparr>sv_heap := (sv_heap t)(?n := Some se), sv_next := ?n + 1\<rparr>"
    show "wpre (on_session ?n initialize)
        (\<lambda>_ s. server_inv (s\<lparr>sv_sessions := sv_sessions s @ [?n]\<rparr>)
             \<and> events_ok es (s\<lparr>sv_sessions := sv_sessions s @ [?n]\<rparr>))
        (\<lambda>e _. F e) ?t"
    proof (rule on_session_wp)
      fix u assume u: "same_sessions ?t u"
      show "server_inv (u\<lparr>sv_sessions := sv_sessions u @ [?n]\<rparr>) \<and> events_ok es (u\<lparr>sv_sessions := sv_sessions u @ [?n]\<rparr>)"
        using inv ok t u new by (auto simp: same_sessions_def server_inv_def events_ok_def intro: less_SucI domI)
    qed (auto intro: raises_initialize)
  qed (auto intro: Session_new_keeps keeps_same_sessions raises_initialize)
qed

end

lemma Session_delete_wp:
  assumes "\<And>t. same_sessions s t \<Longrightarrow> Q () t"
  shows "wpre (Session_delete se) Q E s"
proof (rule wpre_keeps)
  show "keeps (same_sessions s) (Session_delete se)"
    unfolding Session_delete_def
    by (intro keeps_bnd keeps_seq keeps_for_each keeps_option keeps_ret keeps_socket sys_closed_plain keeps_same_sessions)
  show "raises (\<lambda>_. False) (Session_delete se)"
    unfolding Session_delete_def Socket_close_def by (intro raising)
qed (use assms in auto)

lemma free_session_wp:
  assumes "n \<in> dom (sv_heap s)"
    and "\<And>t. \<lbrakk>dom (sv_heap t) = dom (sv_heap s) - {n}; sv_sessions t = sv_sessions s;
           sv_next t = sv_next s; sv_fd t = sv_fd s\<rbrakk> \<Longrightarrow> Q () t"
  shows "wpre (free_session n) Q E s"
proof -
  obtain se where "sv_heap s n = Some se" using assms(1) by auto
  then show ?thesis
    unfolding free_session_def wp option.case
    by (simp add: wp) (intro Session_delete_wp; simp add: wp; intro assms(2); simp add: same_sessions_def)
qed

lemma delete_session_wp:
  assumes inv: "server_inv s" and n: "n \<in> dom (sv_heap s)"
    and ok: "events_ok es s" "\<And>e. e \<in> set es \<Longrightarrow> ptr_session (ev_ptr e) \<noteq> Some n"
  shows "wpre (delete_session n) (\<lambda>_ t. server_inv t \<and> events_ok es t) (\<lambda>e _. server_fault e) s"
  unfolding delete_session_def wpre_seq wpre_bnd wpre_asks
proof (rule on_session_wp [OF n handler.raises_end(1)])
  fix t :: server
  assume t: "same_sessions s t"
  have n': "n \<in> set (sv_sessions t)" "n \<in> dom (sv_heap t)" "distinct (sv_sessions t)"
    using t inv n by (auto simp: same_sessions_def server_inv_def)
  have "wpre (seq (upd (\<lambda>s. s\<lparr>sv_sessions := remove1 n (sv_sessions t)\<rparr>)) (free_session n))
      (\<lambda>_ t. server_inv t \<and> events_ok es t) (\<lambda>e _. server_fault e) t"
    unfolding wp
    by (intro free_session_wp) (use t inv ok n' in \<open>auto simp: same_sessions_def server_inv_def events_ok_def\<close>)
  then show "wpre (if n \<notin> set (sv_sessions t) then throw (UndefinedBehaviour ''erase at end'')
      else seq (upd (\<lambda>s. s\<lparr>sv_sessions := remove1 n (sv_sessions t)\<rparr>)) (free_session n))
      (\<lambda>_ t. server_inv t \<and> events_ok es t) (\<lambda>e _. server_fault e) t"
    using n'(1) by simp
qed (rule server_faultI)

subsection \<open>A batch of events\<close>

lemma check_events_wp: "events_ok es s \<Longrightarrow> Q () s \<Longrightarrow> wpre (check_events es) Q E s"
proof (induction es)
  case (Cons e es)
  then have "wpre (check_events es) Q E s" by (simp add: events_ok_def)
  with Cons.prems(1) show ?case
    by (cases "ptr_session (ev_ptr e)")
      (auto simp: check_events_def get_session_def events_ok_def wp)
qed (simp add: check_events_def wp)

lemma invalidate_events_ok:
  assumes "events_ok es s"
  shows "events_ok (invalidate_events n es) s"
    and "e \<in> set (invalidate_events n es) \<Longrightarrow> ptr_session (ev_ptr e) \<noteq> Some n"
  using assms by (auto simp: events_ok_def invalidate_events_def Event_def split: if_splits)

lemma stop_wp:
  assumes "\<And>t. \<lbrakk>sv_heap t = sv_heap s; sv_sessions t = sv_sessions s; sv_next t = sv_next s; sv_fd t = -1\<rbrakk> \<Longrightarrow> Q () t"
  shows "wpre stop Q E s"
  unfolding stop_def Socket_shutdown_def Socket_close_def by (auto simp: wp Let_def intro: assms)

abbreviation stays_valid :: "'a srv \<Rightarrow> server \<Rightarrow> bool" where
  "stays_valid m \<equiv> wpre m (\<lambda>_ t. server_inv t) (\<lambda>e _. server_fault e)"

lemma accept_step:
  assumes "server_inv s" and "events_ok es s"
    and "\<And>t. server_inv t \<Longrightarrow> events_ok es t \<Longrightarrow> stays_valid m t"
  shows "stays_valid (bnd accept_client (\<lambda>fd. bnd (create_new_session fd) (\<lambda>_. m))) s"
  unfolding wpre_bnd [of accept_client]
proof (rule accept_client_wp)
  fix fd and t :: server
  assume t: "same_sessions s t"
  have "server_inv t" "events_ok es t"
    using assms(1,2) by (simp_all only: server_inv_same [OF t] events_ok_same [OF t])
  from serving.create_new_session_wp [OF this]
  show "stays_valid (bnd (create_new_session fd) (\<lambda>_. m)) t"
    unfolding wpre_bnd by (rule wpre_mono) (use assms(3) in auto)
qed

lemma session_step:
  assumes inv: "server_inv s" and ok: "events_ok es s" and n: "n \<in> dom (sv_heap s)"
    and go: "\<And>t. server_inv t \<Longrightarrow> events_ok es t \<Longrightarrow> stays_valid m t"
    and fin: "\<And>t. server_inv t \<Longrightarrow> events_ok (invalidate_events n es) t \<Longrightarrow> stays_valid m' t"
  shows "stays_valid (bnd (on_session n (ptr_handler p flags)) (\<lambda>ok.
      if ok then m else seq (check_events es) (seq (delete_session n) m'))) s"
  unfolding wpre_bnd
proof (rule on_session_wp [OF n handles_ptr])
  fix on and t :: server
  assume t: "same_sessions s t"
  then have inv: "server_inv t" and ev: "events_ok es t" and n': "n \<in> dom (sv_heap t)"
    using inv ok n by (simp_all only: server_inv_same [OF t] events_ok_same [OF t]) (simp add: same_sessions_def)
  note inval = invalidate_events_ok [OF ev]
  have "stays_valid (seq (delete_session n) m') t"
    unfolding wpre_seq
  proof (rule wpre_mono [OF delete_session_wp [OF inv n' inval]])
    show "stays_valid m' u" if "server_inv u \<and> events_ok (invalidate_events n es) u" for u
      using fin that by blast
  qed
  then have "stays_valid (seq (check_events es) (seq (delete_session n) m')) t"
    unfolding wpre_seq [of "check_events es"] by (rule check_events_wp [OF ev])
  then show "stays_valid (if on then m else seq (check_events es) (seq (delete_session n) m')) t"
    using go [OF inv ev] by simp
qed (rule server_faultI)

lemma run_batch_wp: "server_inv s \<Longrightarrow> events_ok es s \<Longrightarrow> stays_valid (run_batch es) s"
proof (induction es arbitrary: s rule: run_batch.induct)
  case 1
  then show ?case by (simp add: wp)
next
  case (2 e es)
  have ok: "events_ok es s" using 2(6) by (simp add: events_ok_def)
  consider "ev_ptr e = PServer" "ev_flags e AND Ev_Read \<noteq> 0" | "ev_ptr e = PServer" "ev_flags e AND Ev_Read = 0"
    | "ev_ptr e \<noteq> PServer" "ptr_session (ev_ptr e) = None"
    | n where "ev_ptr e \<noteq> PServer" "ptr_session (ev_ptr e) = Some n" by blast
  then show ?case
  proof cases
    case 1
    show ?thesis using accept_step [OF 2(5) ok 2(1) [OF 1]] 1 by simp
  next
    case stop: 2
    have "stays_valid stop s" by (rule stop_wp) (use 2(5) in \<open>simp add: server_inv_def\<close>)
    then show ?thesis using stop by simp
  next
    case 3
    then show ?thesis using 2(2) [OF 3 2(5) ok] by simp
  next
    case (4 n)
    have n: "n \<in> dom (sv_heap s)" using 2(6) 4(2) by (auto simp: events_ok_def)
    have "stays_valid (bnd (on_session n (ptr_handler (ev_ptr e) (ev_flags e))) (\<lambda>ok.
        if ok then run_batch es
        else seq (check_events es) (seq (delete_session n) (run_batch (invalidate_events n es))))) s"
      by (rule session_step [OF 2(5) ok n]) (use 2(3) [OF 4, of True] 2(4) [OF 4, of False] in auto)
    then show ?thesis using 4 by simp
  qed
qed

subsection \<open>Releasing what a session owns\<close>

text \<open>A step that makes these calls, returns a value of this kind and changes nothing else.\<close>

definition issues :: "('w world_scheme, 'a) exec \<Rightarrow> syscall list \<Rightarrow> ('a \<Rightarrow> bool) \<Rightarrow> bool" where
  "issues m cs R \<longleftrightarrow> (\<forall>s. \<exists>x tr e. m s = (Inr x, s\<lparr>trace := tr, errno := e\<rparr>) \<and> R x
     \<and> map fst (rev tr) = calls s @ cs)"

lemma issuesE:
  assumes "issues m cs R"
  obtains x tr e where "m s = (Inr x, s\<lparr>trace := tr, errno := e\<rparr>)" and "R x" and "map fst (rev tr) = calls s @ cs"
  using assms unfolding issues_def by blast

lemma issues_wp:
  assumes "issues m cs R"
    and "\<And>x tr e. R x \<Longrightarrow> map fst (rev tr) = calls s @ cs \<Longrightarrow> Q x (s\<lparr>trace := tr, errno := e\<rparr>)"
  shows "wpre m Q E s"
  by (rule issuesE [OF assms(1), of s]) (use assms(2) in \<open>simp add: wpre_def\<close>)

lemma issues_bnd:
  assumes m: "issues m cs R" and f: "\<And>x. R x \<Longrightarrow> issues (f x) ds R'"
  shows "issues (bnd m f) (cs @ ds) R'"
  unfolding issues_def
proof
  fix s
  obtain x tr e where x: "m s = (Inr x, s\<lparr>trace := tr, errno := e\<rparr>)" "R x" "map fst (rev tr) = calls s @ cs"
    by (rule issuesE [OF m])
  let ?s = "s\<lparr>trace := tr, errno := e\<rparr>"
  obtain y tr' e' where "f x ?s = (Inr y, ?s\<lparr>trace := tr', errno := e'\<rparr>)" "R' y" "map fst (rev tr') = calls ?s @ ds"
    by (rule issuesE [OF f [OF x(2)]])
  then show "\<exists>x tr e. bnd m f s = (Inr x, s\<lparr>trace := tr, errno := e\<rparr>) \<and> R' x
      \<and> map fst (rev tr) = calls s @ cs @ ds"
    using x by (intro exI [of _ y] exI [of _ tr'] exI [of _ e']) (simp add: bnd_def calls_def)
qed

lemma issues_ret: "R x \<Longrightarrow> issues (ret x) [] R"
  unfolding issues_def
proof
  fix s :: "'w world_scheme"
  assume "R x"
  then show "\<exists>y tr e. ret x s = (Inr y, s\<lparr>trace := tr, errno := e\<rparr>) \<and> R y \<and> map fst (rev tr) = calls s @ []"
    by (intro exI [of _ x] exI [of _ "trace s"] exI [of _ "errno s"]) (simp add: calls_def)
qed

lemma issues_sys: "issues (sys_int c) [c] (\<lambda>_. True)"
  unfolding issues_def
proof
  fix s :: "'w world_scheme"
  let ?r = "os s (trace s) c"
  show "\<exists>x tr e. sys_int c s = (Inr x, s\<lparr>trace := tr, errno := e\<rparr>) \<and> True \<and> map fst (rev tr) = calls s @ [c]"
    by (intro exI [of _ "if sr_ok ?r then int (sr_val ?r) else -1"] exI [of _ "(c, ?r) # trace s"]
        exI [of _ "if sr_ok ?r then errno s else sr_errno ?r"])
      (simp add: sys_int_def bnd_def syscall_def Let_def calls_def)
qed

lemma issues_seq: "issues m cs (\<lambda>_. True) \<Longrightarrow> issues n ds R \<Longrightarrow> issues (seq m n) (cs @ ds) R"
  unfolding seq_def by (rule issues_bnd)

lemma issues_map:
  assumes "issues m cs R" and "\<And>x. R x \<Longrightarrow> R' (f x)"
  shows "issues (bnd m (\<lambda>x. ret (f x))) cs R'"
  using issues_bnd [OF assms(1) issues_ret, of R' f] assms(2) by simp

lemma issues_for_each: "(\<And>x. issues (f x) (cs x) (\<lambda>_. True)) \<Longrightarrow> issues (for_each f xs) (concat (map cs xs)) (\<lambda>_. True)"
  by (induction xs) (auto simp: seq_def intro: issues_ret issues_bnd)

definition close_calls :: "int \<Rightarrow> syscall list" where
  "close_calls fd = (if fd = -1 then [] else [Sys_close fd])"

definition drop_calls :: "int \<Rightarrow> syscall list" where
  "drop_calls fd = [Sys_epoll_ctl EPOLL_CTL_DEL fd PNull 0, Sys_shutdown fd] @ close_calls fd"

lemma issues_close: "issues (Socket_close fd) (close_calls fd) (\<lambda>x. x = -1)"
  unfolding Socket_close_def close_calls_def
  by (cases "fd = -1") (auto intro: issues_ret issues_map issues_sys)

lemma issues_drop: "issues (drop_socket fd) (drop_calls fd) (\<lambda>x. x = -1)"
proof -
  have del: "issues (remove_event fd) [Sys_epoll_ctl EPOLL_CTL_DEL fd PNull 0] (\<lambda>_. True)"
    unfolding remove_event_def epoll_ctl_def by (rule issues_map [OF issues_sys]) simp
  show ?thesis
    unfolding drop_socket_def Socket_shutdown_def drop_calls_def
    using issues_bnd [OF del issues_bnd [OF issues_sys issues_close]] by simp
qed

lemma issues_drop_dns: "issues (drop_dns ds) (concat (map (drop_calls \<circ> ds_fd) ds))
    (\<lambda>ds'. ds' = map (\<lambda>d. d\<lparr>ds_fd := -1\<rparr>) ds)"
proof (induction ds)
  case (Cons d ds)
  show ?case
    unfolding drop_dns.simps list.map concat.simps comp_apply
    by (rule issues_bnd [OF issues_drop], rule issues_map [OF Cons.IH [unfolded comp_def]]) simp
next
  case Nil
  show ?case by (simp add: issues_ret del: ret_exec)
qed

text \<open>
  Shutting a session down: one \<open>DEL\<close>, one \<open>shutdown\<close> and one \<open>close\<close> for every socket it owns,
  in the order client, remote, UDP, DNS; then no descriptor is left to close.
\<close>

definition session_fds :: "session \<Rightarrow> int list" where
  "session_fds se = se_client se # (case se_remote se of None \<Rightarrow> [] | Some r \<Rightarrow> [rs_fd r])
     @ (case se_udp se of None \<Rightarrow> [] | Some u \<Rightarrow> [us_fd u]) @ map ds_fd (se_dns se)"

definition closed_session :: "session \<Rightarrow> session" where
  "closed_session se = se\<lparr>se_client := -1, se_remote := map_option (\<lambda>r. r\<lparr>rs_fd := -1\<rparr>) (se_remote se),
     se_udp := map_option (\<lambda>u. u\<lparr>us_fd := -1\<rparr>) (se_udp se), se_dns := map (\<lambda>d. d\<lparr>ds_fd := -1\<rparr>) (se_dns se)\<rparr>"

lemma Session_shutdown_wp:
  fixes s :: sstate
  shows "wpre Session_shutdown (\<lambda>_ t. t = s\<lparr>trace := trace t, errno := errno t, sess := closed_session (sess s)\<rparr>
    \<and> calls t = calls s @ concat (map drop_calls (session_fds (sess s)))) (\<lambda>_ _. False) s"
  unfolding Session_shutdown_def
  by (cases "se_remote (sess s)"; cases "se_udp (sess s)"; simp add: wp;
      (rule issues_wp [OF issues_drop] issues_wp [OF issues_drop_dns] | simp add: wp)+)
    (simp_all add: closed_session_def session_fds_def calls_def comp_def)

lemma issues_option: "(\<And>x. issues (f x) (cs x) (\<lambda>_. True)) \<Longrightarrow>
    issues (case v of None \<Rightarrow> ret () | Some x \<Rightarrow> f x) (case v of None \<Rightarrow> [] | Some x \<Rightarrow> cs x) (\<lambda>_. True)"
  by (cases v) (simp_all add: issues_ret del: ret_exec)

lemma issues_delete: "issues (Session_delete se) (concat (map close_calls (session_fds se))) (\<lambda>_. True)"
proof -
  have close: "issues (bnd (Socket_close fd) (\<lambda>_. ret ())) (close_calls fd) (\<lambda>_. True)" for fd
    by (rule issues_map [OF issues_close]) simp
  have "concat (map close_calls (session_fds se)) = close_calls (se_client se)
      @ (case se_remote se of None \<Rightarrow> [] | Some r \<Rightarrow> close_calls (rs_fd r))
      @ (case se_udp se of None \<Rightarrow> [] | Some u \<Rightarrow> close_calls (us_fd u))
      @ concat (map (\<lambda>d. close_calls (ds_fd d)) (se_dns se))"
    by (simp add: session_fds_def comp_def split: option.split)
  then show ?thesis
    unfolding Session_delete_def
    by (simp only:) (intro issues_bnd [OF issues_close] issues_seq issues_option issues_for_each close)
qed

text \<open>\<open>delete_session\<close> as a whole: the destructor finds nothing left to close.\<close>

lemma closed_session_fds: "concat (map close_calls (session_fds (closed_session se))) = []"
  by (auto simp: session_fds_def closed_session_def close_calls_def split: option.splits)

lemma delete_session_releases:
  assumes n: "sv_heap s n = Some se" "n \<in> set (sv_sessions s)"
  shows "wpre (delete_session n) (\<lambda>_ t. calls t = calls s @ concat (map drop_calls (session_fds se))
      \<and> sv_heap t = (sv_heap s)(n := None) \<and> sv_sessions t = remove1 n (sv_sessions s)) (\<lambda>_ _. False) s"
proof -
  let ?s = "\<lparr>os = os s, stack = stack s, inet_pton = inet_pton s, trace = trace s,
    errno = errno s, params = params s, sess = se\<rparr>"
  obtain x t where run: "Session_shutdown ?s = (Inr x, t)"
    and t: "t = ?s\<lparr>trace := trace t, errno := errno t, sess := closed_session se\<rparr>"
      "calls t = calls s @ concat (map drop_calls (session_fds se))"
    using Session_shutdown_wp [of ?s]
    by (cases "Session_shutdown ?s") (auto simp: wpre_def calls_def split: sum.splits)
  let ?u = "s\<lparr>trace := trace t, errno := errno t, sv_heap := (sv_heap s)(n := Some (closed_session se))\<rparr>"
  have u: "on_session n Session_shutdown s = (Inr x, ?u)"
  proof -
    have "sess t = closed_session se" by (subst t(1)) simp
    then show ?thesis using n run by (simp add: on_session_def)
  qed
  have calls_u: "calls ?u = calls t" by (simp add: calls_def)
  note gone = issues_delete [of "closed_session se", unfolded closed_session_fds]
  have "wpre (seq (upd (\<lambda>s'. s'\<lparr>sv_sessions := remove1 n (sv_sessions s)\<rparr>)) (free_session n))
    (\<lambda>_ t. calls t = calls s @ concat (map drop_calls (session_fds se))
      \<and> sv_heap t = (sv_heap s)(n := None) \<and> sv_sessions t = remove1 n (sv_sessions s)) (\<lambda>_ _. False) ?u"
    using n unfolding free_session_def
    by (simp add: wp) (rule issues_wp [OF gone], use t(2) in \<open>simp add: wp calls_def\<close>)
  then show ?thesis
    using n u unfolding delete_session_def by (simp add: wpre_def seq_Inr bnd_def)
qed

lemma free_sessions_wp:
  assumes "distinct ns" and "set ns \<subseteq> dom (sv_heap s)"
    and "\<And>t. dom (sv_heap t) = dom (sv_heap s) - set ns \<Longrightarrow> Q () t"
  shows "wpre (for_each free_session ns) Q E s"
  using assms
proof (induction ns arbitrary: s)
  case (Cons n ns)
  show ?case
    unfolding for_each.simps wpre_seq
  proof (rule free_session_wp)
    fix t :: server
    assume "dom (sv_heap t) = dom (sv_heap s) - {n}"
    then show "wpre (for_each free_session ns) Q E t"
      using Cons.prems by (intro Cons.IH) (auto simp: Diff_insert2 [of _ n "set ns"])
  qed (use Cons.prems in simp)
qed (simp add: wp)

lemma delete_all_sessions_wp:
  assumes "server_inv s" and "\<And>t. sv_heap t = Map.empty \<Longrightarrow> sv_sessions t = [] \<Longrightarrow> Q () t"
  shows "wpre delete_all_sessions Q E s"
  unfolding delete_all_sessions_def wpre_bnd wpre_asks wpre_seq
  by (rule free_sessions_wp) (use assms in \<open>auto simp: server_inv_def wp\<close>)

lemma end_serving_wp:
  assumes inv: "server_inv s"
  shows "wpre (end_serving fd) (\<lambda>_ t. sv_heap t = Map.empty \<and> sv_sessions t = [] \<and> sv_fd t = -1) (\<lambda>_ _. False) s"
  unfolding end_serving_def remove_event_def epoll_ctl_def wpre_bnd wpre_seq wpre_sys_int wpre_ret Let_def
  by (rule delete_all_sessions_wp)
    (use inv in \<open>auto simp: wp is_serving_def server_inv_def intro!: stop_wp\<close>)

subsection \<open>The properties\<close>

text \<open>
  C3: When the sessions on the list are exactly those allocated and every event of a batch points
  to one of them (or to the server, or nowhere), handling the batch never follows a pointer to a
  session that has been deleted, frees none twice and erases none that is not on the list,
  however many sessions the batch ends: a fault is an exception, or undefined behaviour
  inside a handler; otherwise the sessions are valid again for the next batch.
\<close>

theorem run_batch_keeps_sessions_valid:
  assumes "server_inv s" and "events_ok es s" and "run_batch es s = (r, t)"
  shows "case r of Inr _ \<Rightarrow> server_inv t | Inl e \<Rightarrow> server_fault e"
  using run_batch_wp [OF assms(1,2)] assms(3) by (simp add: wpre_def split: sum.splits)

definition two_sessions :: server where
  "two_sessions = with_session (session_at 1 6) (with_session (session_at 0 5)
     (server_of (\<lambda>_ _. answer 0) ServerParams_default))"

lemma two_sessions_inv: "server_inv two_sessions"
  by (auto simp: server_inv_def two_sessions_def with_session_def server_of_def)

theorem run_batch_keeps_sessions_valid_witness:
  "server_inv (snd (run_batch [Event 0 Ev_Closed (PClient 0), Event 0 Ev_Read (PClient 1),
       Event 0 Ev_Read (PRemote 0)] two_sessions))
   \<and> sv_heap (snd (run_batch [Event 0 Ev_Closed (PClient 0), Event 0 Ev_Read (PClient 1),
       Event 0 Ev_Read (PRemote 0)] two_sessions)) 0 = None"
proof -
  let ?es = "[Event 0 Ev_Closed (PClient 0), Event 0 Ev_Read (PClient 1), Event 0 Ev_Read (PRemote 0)]"
  have ok: "events_ok ?es two_sessions"
    by (auto simp: events_ok_def two_sessions_def with_session_def server_of_def Event_def)
  have run: "fst (run_batch ?es two_sessions) = Inr ()" by code_simp
  have gone: "sv_heap (snd (run_batch ?es two_sessions)) 0 = None" by code_simp
  show ?thesis
    using run_batch_keeps_sessions_valid [OF two_sessions_inv ok prod.collapse [symmetric]] run gone by simp
qed

text \<open>
  C13: Deleting a session always succeeds, and takes every socket the session owns out of the
  poller, shuts it down and closes it, once each, in the order client, remote, UDP, DNS; the
  destructor finds no descriptor left to close. The session leaves the list and the heap.
\<close>

theorem delete_session_releases_descriptors:
  assumes "sv_heap s n = Some se" and "n \<in> set (sv_sessions s)"
  shows "\<exists>t. delete_session n s = (Inr (), t)
    \<and> calls t = calls s @ concat (map drop_calls (session_fds se))
    \<and> sv_heap t = (sv_heap s)(n := None) \<and> sv_sessions t = remove1 n (sv_sessions s)"
  using delete_session_releases [OF assms] by (auto simp: wpre_def split: prod.splits sum.splits)

theorem delete_session_releases_descriptors_witness:
  "\<exists>t. delete_session 1 two_sessions = (Inr (), t)
    \<and> calls t = [Sys_epoll_ctl EPOLL_CTL_DEL 6 PNull 0, Sys_shutdown 6, Sys_close 6]
    \<and> sv_sessions t = [0]"
proof -
  have "sv_heap two_sessions 1 = Some (session_at 1 6)" "1 \<in> set (sv_sessions two_sessions)"
      "sv_sessions two_sessions = [0, 1]" "calls two_sessions = []"
    by (simp_all add: two_sessions_def with_session_def server_of_def calls_def)
  with delete_session_releases_descriptors [of two_sessions 1 "session_at 1 6"]
  show ?thesis by (auto simp: session_fds_def session_at_def drop_calls_def close_calls_def)
qed

text \<open>
  C24: Ending the loop always succeeds: every session is deleted and freed, and the server's
  socket is closed, whether or not \<open>stop\<close> had been called before.
\<close>

theorem end_serving_frees_everything:
  assumes "server_inv s"
  shows "\<exists>t. end_serving fd s = (Inr (), t) \<and> sv_heap t = Map.empty \<and> sv_sessions t = [] \<and> \<not> is_serving t"
  using end_serving_wp [OF assms, of fd] by (auto simp: wpre_def is_serving_def split: prod.splits sum.splits)

theorem end_serving_frees_everything_witness:
  "\<exists>t. end_serving 3 two_sessions = (Inr (), t) \<and> sv_heap t = Map.empty \<and> sv_sessions t = [] \<and> \<not> is_serving t"
  by (rule end_serving_frees_everything [OF two_sessions_inv])

end
