(* ===== verification/Registration.thy ===== *)
theory Registration
  imports ServerSafety SessionPhases
begin

section \<open>What the poller has registered\<close>

text \<open>
  \<open>epoll\<close> gives back the pointer that was registered with a descriptor. Which pointer that is can
  be read off the calls made so far. The sessions keep an invariant with it: a registered pointer to a socket
  of a session is that of a session that exists, and the socket has the descriptor. So a
  kernel that reports registered descriptors never hands the server a pointer to a session
  that it has deleted.
\<close>

subsection \<open>Registrations\<close>

text \<open>
  As \<open>epoll_ctl\<close> and \<open>close\<close> document: \<open>ADD\<close> and \<open>MOD\<close> set the pointer when they succeed; after
  \<open>DEL\<close> and \<open>close\<close> the descriptor is not registered, whether they failed or not.
\<close>

fun note_call :: "syscall \<Rightarrow> sysret \<Rightarrow> (int \<Rightarrow> ptr option) \<Rightarrow> (int \<Rightarrow> ptr option)" where
  "note_call (Sys_epoll_ctl EPOLL_CTL_DEL fd _ _) r g = g(fd := None)"
| "note_call (Sys_epoll_ctl _ fd p _) r g = (if sr_ok r then g(fd := Some p) else g)"
| "note_call (Sys_close fd) r g = g(fd := None)"
| "note_call _ r g = g"

primrec registered :: "history \<Rightarrow> int \<Rightarrow> ptr option" where
  "registered [] = (\<lambda>_. None)"
| "registered (cr # h) = note_call (fst cr) (snd cr) (registered h)"

lemma note_call_plain: "\<not> sets_event c \<Longrightarrow> note_call c r g fd = Some p \<Longrightarrow> g fd = Some p"
  by (cases "(c, r, g)" rule: note_call.cases) (auto split: if_splits)

lemma note_call_set:
  "note_call (Sys_epoll_ctl opr fd p flags) r g fd' = Some p' \<Longrightarrow> g fd' = Some p' \<or> (fd' = fd \<and> p' = p)"
  by (cases opr) (auto split: if_splits)

fun is_dns :: "ptr \<Rightarrow> bool" where
  "is_dns (PDns _ _) = True"
| "is_dns _ = False"

text \<open>The descriptor of the socket a pointer stands for, in its session.\<close>

fun ptr_fd :: "ptr \<Rightarrow> session \<Rightarrow> int option" where
  "ptr_fd (PClient _) se = Some (se_client se)"
| "ptr_fd (PRemote _) se = map_option rs_fd (se_remote se)"
| "ptr_fd (PUdp _) se = map_option us_fd (se_udp se)"
| "ptr_fd (PDns _ i) se = (if i < length (se_dns se) then Some (ds_fd (se_dns se ! i)) else None)"
| "ptr_fd _ se = None"

lemma ptr_fd_session_fds: "ptr_fd p se = Some fd \<Longrightarrow> fd \<in> set (session_fds se)"
  by (cases p) (auto simp: session_fds_def split: if_splits)

subsection \<open>The registrations of one session\<close>

text \<open>
  While a handler of session \<open>n\<close> runs, which began after \<open>h\<close>: the pointers to its sockets are
  registered with the descriptors of the sockets, the other registrations are old, and the
  session's data satisfies \<open>A\<close>. In \<open>quiet\<close> parts no lookup is registered.
\<close>

definition watched :: "nat \<Rightarrow> history \<Rightarrow> bool \<Rightarrow> (session \<Rightarrow> bool) \<Rightarrow> sstate \<Rightarrow> bool" where
  "watched n h quiet A s \<longleftrightarrow> se_id (sess s) = n \<and> A (sess s)
     \<and> (\<forall>fd p. registered (trace s) fd = Some p \<longrightarrow>
          (if ptr_session p = Some n then ptr_fd p (sess s) = Some fd \<and> (quiet \<longrightarrow> \<not> is_dns p)
           else registered h fd = Some p))"

lemma watched_weaken:
  "watched n h q A s \<Longrightarrow> (q' \<Longrightarrow> q) \<Longrightarrow> (\<And>se. A se \<Longrightarrow> A' se) \<Longrightarrow> watched n h q' A' s"
  unfolding watched_def by metis

lemma watched_disj: "watched n h q (\<lambda>se. A se \<or> B se) s \<longleftrightarrow> watched n h q A s \<or> watched n h q B s"
  unfolding watched_def by blast

lemma watched_plain: "plain_closed (watched n h q A)"
  unfolding plain_closed_def
proof (intro allI impI)
  fix s c
  assume c: "\<not> sets_event c" and s: "watched n h q A s"
  let ?t = "snd (syscall c s)"
  have "registered (trace s) fd = Some p" if "registered (trace ?t) fd = Some p" for fd p
    using that c note_call_plain by (auto simp: syscall_def Let_def)
  moreover have "sess ?t = sess s" by (simp add: syscall_def Let_def)
  ultimately show "watched n h q A ?t" using s unfolding watched_def by metis
qed

lemma watched_set_event:
  assumes "watched n h q A s" and "ptr_session p = Some n" and "ptr_fd p (sess s) = Some fd" and "q \<Longrightarrow> \<not> is_dns p"
  shows "watched n h q A (snd (set_event fd p flags m s))"
proof -
  let ?t = "snd (set_event fd p flags m s)"
  have t: "sess ?t = sess s" "\<exists>r opr. trace ?t = (Sys_epoll_ctl opr fd p flags, r) # trace s"
    by (auto simp: set_event_def epoll_ctl_def sys_int_def bnd_def syscall_def Let_def)
  have "registered (trace s) fd' = Some p' \<or> (fd' = fd \<and> p' = p)" if "registered (trace ?t) fd' = Some p'" for fd' p'
    using that t(2) by (auto simp del: note_call.simps dest: note_call_set)
  then show ?thesis
    using assms unfolding watched_def t(1) by metis
qed

lemma watched_sess:
  assumes "watched n h q A s" and "A (sess s) \<Longrightarrow> A' (f (sess s))" and "se_id (f (sess s)) = se_id (sess s)"
    and "\<And>p fd. ptr_session p = Some n \<Longrightarrow> ptr_fd p (sess s) = Some fd \<Longrightarrow> (q \<Longrightarrow> \<not> is_dns p) \<Longrightarrow> ptr_fd p (f (sess s)) = Some fd"
  shows "watched n h q A' (s\<lparr>sess := f (sess s)\<rparr>)"
  using assms unfolding watched_def by auto

subsection \<open>What holds when a step returns\<close>

text \<open>Partial correctness: the faults of a handler are another matter.\<close>

definition ensures :: "('s \<Rightarrow> bool) \<Rightarrow> ('s, 'a) exec \<Rightarrow> ('a \<Rightarrow> 's \<Rightarrow> bool) \<Rightarrow> bool" where
  "ensures P m Q \<longleftrightarrow> (\<forall>s x t. P s \<longrightarrow> m s = (Inr x, t) \<longrightarrow> Q x t)"

lemma ensuresD: "ensures P m Q \<Longrightarrow> P s \<Longrightarrow> m s = (Inr x, t) \<Longrightarrow> Q x t"
  by (simp add: ensures_def)

lemma ensures_keeps: "keeps P m \<Longrightarrow> ensures P m (\<lambda>_. P)"
  unfolding ensures_def using keepsD by fastforce

lemma ensures_mono: "ensures P m Q \<Longrightarrow> (\<And>s. P' s \<Longrightarrow> P s) \<Longrightarrow> (\<And>x s. Q x s \<Longrightarrow> Q' x s) \<Longrightarrow> ensures P' m Q'"
  unfolding ensures_def by blast

lemma ensures_pre: "ensures P m Q \<Longrightarrow> (\<And>s. P' s \<Longrightarrow> P s) \<Longrightarrow> ensures P' m Q"
  unfolding ensures_def by blast

lemma ensures_ret: "(\<And>s. P s \<Longrightarrow> Q x s) \<Longrightarrow> ensures P (ret x) Q"
  by (simp add: ensures_def)

lemma ensures_throw: "ensures P (throw e) Q"
  by (simp add: ensures_def)

lemma ensures_bnd: "ensures P m R \<Longrightarrow> (\<And>x. ensures (R x) (f x) Q) \<Longrightarrow> ensures P (bnd m f) Q"
  unfolding ensures_def by (blast elim: bnd_InrE)

lemma ensures_bnd_keeps: "keeps P m \<Longrightarrow> (\<And>x. ensures P (f x) Q) \<Longrightarrow> ensures P (bnd m f) Q"
  by (rule ensures_bnd [OF ensures_keeps])

lemma ensures_seq: "ensures P m (\<lambda>_. R) \<Longrightarrow> ensures R n Q \<Longrightarrow> ensures P (seq m n) Q"
  unfolding seq_def by (rule ensures_bnd)

lemma ensures_seq_keeps: "keeps P m \<Longrightarrow> ensures P n Q \<Longrightarrow> ensures P (seq m n) Q"
  unfolding seq_def by (rule ensures_bnd_keeps)

lemma ensures_if: "(b \<Longrightarrow> ensures P m Q) \<Longrightarrow> (\<not> b \<Longrightarrow> ensures P n Q) \<Longrightarrow> ensures P (if b then m else n) Q"
  by simp

lemma ensures_gets: "(\<And>x. ensures (\<lambda>s. P s \<and> x = f (sess s)) (g x) Q) \<Longrightarrow> ensures P (bnd (gets f) g) Q"
  by (simp add: ensures_def bnd_def gets_def)

lemma ensures_asks: "(\<And>x. ensures (\<lambda>s. P s \<and> x = f s) (g x) Q) \<Longrightarrow> ensures P (bnd (asks f) g) Q"
  by (simp add: ensures_def bnd_def)

lemma ensures_sets: "(\<And>s. P s \<Longrightarrow> Q () (s\<lparr>sess := f (sess s)\<rparr>)) \<Longrightarrow> ensures P (sets f) Q"
  by (simp add: ensures_def sets_def)

lemma ensures_the_remote:
  "(\<And>r. ensures (\<lambda>s. P s \<and> se_remote (sess s) = Some r) (g r) Q) \<Longrightarrow> ensures P (bnd the_remote g) Q"
  by (auto simp: ensures_def bnd_def the_remote_def gets_def split: option.splits)

lemma ensures_the_udp:
  "(\<And>u. ensures (\<lambda>s. P s \<and> se_udp (sess s) = Some u) (g u) Q) \<Longrightarrow> ensures P (bnd the_udp g) Q"
  by (auto simp: ensures_def bnd_def the_udp_def gets_def split: option.splits)

lemma ensures_option:
  "(v = None \<Longrightarrow> ensures P m Q) \<Longrightarrow> (\<And>x. v = Some x \<Longrightarrow> ensures P (f x) Q) \<Longrightarrow>
    ensures P (case v of None \<Rightarrow> m | Some x \<Rightarrow> f x) Q"
  by (cases v) simp_all

lemma ensures_prod: "(\<And>x y. v = (x, y) \<Longrightarrow> ensures P (f x y) Q) \<Longrightarrow> ensures P (case v of (x, y) \<Rightarrow> f x y) Q"
  by (cases v) simp

subsection \<open>The steps of a handler\<close>

text \<open>
  Calls that set no event and parts that only read keep \<open>watched\<close> whatever \<open>A\<close> says; a step that changes the
  session's data has to keep \<open>A\<close> and the descriptors.
\<close>

lemmas watched_calls = plain_calls_keep [OF watched_plain]

lemma watched_hooks:
  "keeps (watched n h q A) (hook_client_recv fd b)" "keeps (watched n h q A) (hook_remote_recv fd b)"
  "keeps (watched n h q A) (hook_client_send fd b)" "keeps (watched n h q A) (hook_remote_send fd b)"
  "keeps (watched n h q A) (hook_udp_recv_from r b)" "keeps (watched n h q A) (hook_udp_send_to r b a)"
  "keeps (watched n h q A) (RemoteSocket_new fd as)"
  unfolding hook_defs RemoteSocket_new_def by (intro keeps_rules watched_calls)+

lemmas watched_rules = keeps_rules keeps_reads watched_calls watched_hooks

lemma watched_sets:
  assumes "\<And>se. A se \<Longrightarrow> A (f se) \<and> se_id (f se) = se_id se \<and> (\<forall>p. ptr_fd p (f se) = ptr_fd p se)"
  shows "keeps (watched n h q A) (sets f)"
proof (rule keeps_sets)
  fix s assume s: "watched n h q A s"
  then have "A (sess s)" by (simp add: watched_def)
  from assms [OF this] show "watched n h q A (s\<lparr>sess := f (sess s)\<rparr>)" by (intro watched_sess [OF s]) auto
qed

lemma watched_set_state:
  assumes "\<And>se. A se \<Longrightarrow> A (se\<lparr>se_state := st\<rparr>)"
  shows "keeps (watched n h q A) (set_state st)"
  unfolding set_state_def
proof (rule watched_sets)
  fix se assume "A se"
  moreover have "ptr_fd p (se\<lparr>se_state := st\<rparr>) = ptr_fd p se" for p by (cases p) simp_all
  ultimately show "A (se\<lparr>se_state := st\<rparr>) \<and> se_id (se\<lparr>se_state := st\<rparr>) = se_id se
      \<and> (\<forall>p. ptr_fd p (se\<lparr>se_state := st\<rparr>) = ptr_fd p se)"
    using assms by simp
qed

text \<open>The relay watches the socket it has just looked up.\<close>

lemma ptr_fd_schedule [simp]: "ptr_fd p (schedule d b se) = ptr_fd p se"
  by (cases p) simp_all

lemma watched_watch: "keeps (watched n h q A) (watch d flags)"
  unfolding keeps_def
proof (intro allI impI)
  fix s assume s: "watched n h q A s"
  show "watched n h q A (snd (watch d flags s))"
  proof (cases "d = RemoteSide \<and> se_remote (sess s) = None")
    case True
    then have "snd (watch d flags s) = s"
      by (simp add: watch_def bnd_def the_remote_def gets_def)
    with s show ?thesis by simp
  next
    case False
    let ?fd = "fd_of d (sess s)" and ?p = "ptr_of d (sess s)"
    have "side_socket d s = (Inr (?fd, ?p), s)"
      using False by (cases d) (auto simp: gets_def the_remote_def bnd_def split: option.splits)
    then have "snd (watch d flags s) = snd (set_event ?fd ?p flags True s)"
      by (simp add: watch_def bnd_def split: prod.splits sum.splits)
    moreover have "ptr_session ?p = Some n" "ptr_fd ?p (sess s) = Some ?fd" "\<not> is_dns ?p"
      using False s by (cases d; auto simp: watched_def)+
    ultimately show ?thesis using watched_set_event [OF s] by simp
  qed
qed

lemma watched_relay:
  assumes "\<And>se d b. A se \<Longrightarrow> A (schedule d b se)"
  shows "keeps (watched n h q A) (session_socket_send d ob)"
proof -
  have socket: "keeps (watched n h q A) (side_socket d)" "keeps (watched n h q A) (side_send d fd b)" for d fd b
    by (cases d; simp; intro watched_rules)+
  have sched: "keeps (watched n h q A) (sets (schedule d b))" for d b
    by (rule watched_sets) (use assms in simp)
  have r: "keeps (watched n h q A) (save_rest d ob k m)" for d ob k m
    unfolding save_rest_def Let_def by (intro watched_rules sched)
  show ?thesis
    unfolding session_socket_send_def Let_def
    by (intro watched_rules socket watched_watch r sched)
qed

text \<open>An update of the destination's socket that keeps its descriptor.\<close>

definition ignores_remote :: "(session \<Rightarrow> bool) \<Rightarrow> bool" where
  "ignores_remote A \<longleftrightarrow> (\<forall>se r r'. A se \<longrightarrow> se_remote se = Some r \<longrightarrow> rs_fd r' = rs_fd r \<longrightarrow> A (se\<lparr>se_remote := Some r'\<rparr>))"

lemma ptr_fd_set_remote:
  "se_remote se = Some r \<Longrightarrow> rs_fd r' = rs_fd r \<Longrightarrow> ptr_fd p (se\<lparr>se_remote := Some r'\<rparr>) = ptr_fd p se"
  by (cases p) simp_all

lemma ensures_set_remote:
  assumes "ignores_remote A" and "rs_fd r' = rs_fd r"
  shows "ensures (\<lambda>s. watched n h q A s \<and> se_remote (sess s) = Some r) (set_remote r')
    (\<lambda>_ s. watched n h q A s \<and> se_remote (sess s) = Some r')"
  unfolding set_remote_def
proof (rule ensures_sets)
  fix s assume s: "watched n h q A s \<and> se_remote (sess s) = Some r"
  have "watched n h q A (s\<lparr>sess := (sess s)\<lparr>se_remote := Some r'\<rparr>\<rparr>)"
    using s assms by (intro watched_sess [where A = A]) (auto simp: ignores_remote_def ptr_fd_set_remote)
  then show "watched n h q A (s\<lparr>sess := (sess s)\<lparr>se_remote := Some r'\<rparr>\<rparr>)
      \<and> se_remote (sess (s\<lparr>sess := (sess s)\<lparr>se_remote := Some r'\<rparr>\<rparr>)) = Some r'"
    by simp
qed

text \<open>Forgetting what is known of the socket.\<close>

lemma ensures_forget: "ensures (watched n h q A) m Q \<Longrightarrow> ensures (\<lambda>s. watched n h q A s \<and> B s) m Q"
  by (erule ensures_pre) simp

lemma watched_refusal:
  "r \<noteq> Rep_Success \<Longrightarrow> keeps (watched n h q A) (reply_remote_connection r t a p)"
  unfolding reply_remote_connection_def when_do_def by (simp, intro watched_rules)

lemma watched_try_connect_next:
  assumes "ignores_remote A"
  shows "ensures (watched n h q A) try_connect_next (\<lambda>_. watched n h q A)"
proof -
  have k: "keeps (watched n h q A) (case rs_addresses r of
        None \<Rightarrow> throw (UndefinedBehaviour ''null addresses'')
      | Some addresses \<Rightarrow>
          if unat idx \<le> length addresses then
            bnd (vector_at addresses (if unat idx = length addresses then idx - 1 else idx)) (\<lambda>addr.
              if unat idx = length addresses then
                bnd (reply_remote_connection Rep_Unreachable (addr_type_of_ip addr)
                       (bytes_mem (ia_storage addr)) (ia_port addr)) (\<lambda>_. ret False)
              else bnd (Socket_connect (rs_fd r) (ia_sockaddr addr) (sa_len (ia_sockaddr addr))) (\<lambda>res.
                bnd (asks errno) (\<lambda>err.
                  if res < 0 \<and> err \<noteq> EWOULDBLOCK \<and> err \<noteq> EAGAIN \<and> err \<noteq> EINPROGRESS then
                    bnd (reply_remote_connection Rep_GeneralFailure (addr_type_of_ip addr)
                           (bytes_mem (ia_storage addr)) (ia_port addr)) (\<lambda>_. ret False)
                  else ret True)))
          else ret False)" for r :: remotesock and idx
    by (intro watched_rules watched_refusal; simp)
  show ?thesis
    unfolding try_connect_next_def Let_def
    by (rule ensures_the_remote, rule ensures_seq, rule ensures_set_remote [OF assms], simp,
      rule ensures_forget [OF ensures_keeps [OF k]])
qed

lemma watched_remote_connected:
  assumes "\<And>se. A se \<Longrightarrow> A (se\<lparr>se_state := Connected\<rparr>)"
  shows "keeps (watched n h q A) remote_connected"
  unfolding keeps_def
proof (intro allI impI)
  fix s assume s: "watched n h q A s"
  show "watched n h q A (snd (remote_connected s))"
  proof (cases "se_remote (sess s)")
    case None
    with s show ?thesis by (simp add: remote_connected_def the_remote_def gets_def bnd_def)
  next
    case (Some r)
    let ?m = "set_event (rs_fd r) (PRemote n) (Ev_Read OR Ev_Closed) True"
    have "se_id (sess s) = n" using s by (simp add: watched_def)
    then have "snd (remote_connected s) = snd (set_state Connected (snd (?m s)))"
      using Some
      by (simp add: remote_connected_def the_remote_def gets_def bnd_def set_event_def epoll_ctl_def sys_int_def syscall_def Let_def)
    moreover have "watched n h q A (snd (?m s))" by (rule watched_set_event [OF s]) (simp_all add: Some)
    ultimately show ?thesis
      using watched_set_state [of A Connected n h q] assms by (simp add: keeps_def)
  qed
qed

lemma watched_could_connect:
  assumes A: "ignores_remote A" and c: "\<And>se. A se \<Longrightarrow> A (se\<lparr>se_state := Connected\<rparr>)"
  shows "ensures (watched n h q A) could_connect (\<lambda>_. watched n h q A)"
proof -
  have r: "keeps (watched n h q A) (reply_remote_connection Rep_Success t a p)" for t a p
    unfolding reply_remote_connection_def by (intro watched_rules watched_remote_connected c)
  have k: "keeps (\<lambda>s. watched n h q A s \<and> se_remote (sess s) = Some r) (vector_at xs i)"
    "keeps (\<lambda>s. watched n h q A s \<and> se_remote (sess s) = Some r) (get_peer_address fd)" for r :: remotesock and xs i fd
  proof -
    have "plain_closed (\<lambda>s. watched n h q A s \<and> se_remote (sess s) = Some r)"
      using watched_plain [of n h q A] by (simp add: plain_closed_def syscall_def Let_def)
    then show "keeps (\<lambda>s. watched n h q A s \<and> se_remote (sess s) = Some r) (get_peer_address fd)"
      by (rule keeps_socket)
  qed (intro keeps_reads)
  show ?thesis
    unfolding could_connect_def
    by (rule ensures_the_remote, rule ensures_seq, rule ensures_set_remote [OF A], simp,
      rule ensures_option, rule ensures_throw, rule ensures_bnd_keeps, rule k,
      rule ensures_seq, rule ensures_set_remote [OF A], simp, rule ensures_bnd_keeps, rule k,
      rule ensures_seq, rule ensures_set_remote [OF A], simp, rule ensures_forget [OF ensures_keeps [OF r]])
qed

subsection \<open>Events of the destination and commands\<close>

definition moving :: "(session \<Rightarrow> bool) \<Rightarrow> bool" where
  "moving A \<longleftrightarrow> ignores_remote A \<and> (\<forall>se. A se \<longrightarrow> A (se\<lparr>se_state := Connected\<rparr>))
     \<and> (\<forall>se d b. A se \<longrightarrow> A (schedule d b se))"

lemma watched_remote_event:
  assumes "moving A"
  shows "ensures (watched n h q A) (process_remote_event flags) (\<lambda>_. watched n h q A)"
proof -
  have A: "ignores_remote A" "\<And>se. A se \<Longrightarrow> A (se\<lparr>se_state := Connected\<rparr>)" "\<And>se d b. A se \<Longrightarrow> A (schedule d b se)"
    using assms by (simp_all add: moving_def)
  have relay: "keeps (watched n h q A) (session_socket_send d ob)" for d ob
    by (rule watched_relay) (rule A(3))
  then have remote: "keeps (watched n h q A) (process_remote b addr)" for b addr
    unfolding process_remote_def by (intro watched_rules)
  show ?thesis
    unfolding process_remote_event_def
    by (intro ensures_if ensures_bnd_keeps [OF keeps_reads(2)] ensures_ret watched_try_connect_next
        watched_could_connect A; (assumption | (rule ensures_keeps, intro watched_rules relay remote)))
qed

lemma ensures_id:
  "ensures (watched n h q A) (g n) Q \<Longrightarrow> ensures (watched n h q A) (bnd (gets se_id) g) Q"
  by (rule ensures_gets) (auto simp: ensures_def watched_def)

lemma ensures_set_event:
  assumes "ptr_session p = Some n" and "\<And>se. A se \<Longrightarrow> ptr_fd p se = Some fd" and "q \<Longrightarrow> \<not> is_dns p"
  shows "ensures (watched n h q A) (set_event fd p flags m) (\<lambda>_. watched n h q A)"
proof (rule ensures_keeps)
  show "keeps (watched n h q A) (set_event fd p flags m)"
    unfolding keeps_def using watched_set_event assms by (metis watched_def)
qed

lemma ensures_new_remote:
  "ensures (watched n h q A) (RemoteSocket_new fd as) (\<lambda>r s. watched n h q A s \<and> rs_fd r = fd)"
proof -
  have "keeps (watched n h q A) (RemoteSocket_new fd as)" by (intro watched_hooks)
  moreover have "raises (\<lambda>_. True) (RemoteSocket_new fd as)" by (simp add: raises_def)
  moreover have "rs_fd r = fd" if "RemoteSocket_new fd as s = (Inr r, t)" for r s t
    using that by (auto simp: RemoteSocket_new_def elim!: bnd_InrE)
  ultimately show ?thesis unfolding ensures_def by (blast intro: keepsD)
qed

abbreviation has_remote :: "int \<Rightarrow> session \<Rightarrow> bool" where
  "has_remote fd se \<equiv> \<exists>r. se_remote se = Some r \<and> rs_fd r = fd"

lemma ensures_first_remote:
  assumes "\<And>se. A se \<Longrightarrow> se_remote se = None" and "\<And>se. A se \<Longrightarrow> A' (se\<lparr>se_remote := Some r\<rparr>)"
  shows "ensures (\<lambda>s. watched n h q A s \<and> rs_fd r = fd) (set_remote r)
    (\<lambda>_. watched n h q (\<lambda>se. A' se \<and> has_remote fd se))"
  unfolding set_remote_def
proof (rule ensures_sets)
  fix s assume s: "watched n h q A s \<and> rs_fd r = fd"
  then have w: "watched n h q A s" and none: "se_remote (sess s) = None" and fd: "rs_fd r = fd"
    using assms(1) by (auto simp: watched_def)
  have "ptr_fd p ((sess s)\<lparr>se_remote := Some r\<rparr>) = Some k" if "ptr_fd p (sess s) = Some k" for p k
    using that none by (cases p) (simp_all split: if_splits)
  with w fd assms(2) show "watched n h q (\<lambda>se. A' se \<and> has_remote fd se) (s\<lparr>sess := (sess s)\<lparr>se_remote := Some r\<rparr>\<rparr>)"
    by (intro watched_sess [where A = A]) auto
qed

lemma ensures_set_state:
  assumes "\<And>se. A se \<Longrightarrow> A' (se\<lparr>se_state := st\<rparr>)"
  shows "ensures (watched n h q A) (set_state st) (\<lambda>_. watched n h q A')"
  unfolding set_state_def
proof (rule ensures_sets)
  fix s assume s: "watched n h q A s"
  have "ptr_fd p ((sess s)\<lparr>se_state := st\<rparr>) = ptr_fd p (sess s)" for p by (cases p) simp_all
  with assms show "watched n h q A' (s\<lparr>sess := (sess s)\<lparr>se_state := st\<rparr>\<rparr>)"
    by (intro watched_sess [OF s]) auto
qed

definition late :: "session \<Rightarrow> bool" where
  "late se \<longleftrightarrow> se_state se \<in> {ConnectingRemote, Connected, Associated}
     \<and> se_remote se \<noteq> None \<and> (se_state se = Associated \<longrightarrow> se_udp se \<noteq> None)"

lemma moving_late: "moving late"
  by (simp add: moving_def late_def ignores_remote_def)

lemma moving_connecting: "moving (\<lambda>se. late se \<and> has_remote fd se)"
  by (auto simp: moving_def late_def ignores_remote_def)

lemma watched_connect_remote:
  assumes "\<And>se. A se \<Longrightarrow> se_remote se = None"
  shows "ensures (watched n h True A) (connect_remote fd as) (\<lambda>_. watched n h True late)"
proof -
  have fin: "ensures (watched n h True (\<lambda>se. late se \<and> has_remote fd se)) (ret b) (\<lambda>_. watched n h True late)" for b :: bool
    by (rule ensures_ret) (auto elim: watched_weaken)
  show ?thesis
    unfolding connect_remote_def
    by (rule ensures_bnd_keeps, rule keeps_asks, rule ensures_id, rule ensures_bnd, rule ensures_new_remote,
      rule ensures_seq, rule ensures_first_remote [where A' = "\<lambda>_. True"], erule assms, simp,
      rule ensures_bnd_keeps, rule watched_calls, rule ensures_bnd_keeps, rule watched_calls,
      rule ensures_seq, rule ensures_set_state [where A' = "\<lambda>se. late se \<and> has_remote fd se"], force simp: late_def,
      rule ensures_bnd, rule watched_remote_event [OF moving_connecting],
      rule ensures_if, rule fin, rule ensures_bnd, rule ensures_set_event, simp, auto intro: fin)
qed

lemma ensures_new_udp:
  "ensures (watched n h q A) (UDPSocket_new fd i) (\<lambda>u s. watched n h q A s \<and> us_fd u = fd)"
proof -
  have "keeps (watched n h q A) (UDPSocket_new fd i)" by (intro watched_calls)
  moreover have "us_fd u = fd" if "UDPSocket_new fd i s = (Inr u, t)" for u and s t :: sstate
    using that by (auto simp: UDPSocket_new_def elim!: bnd_InrE)
  ultimately show ?thesis unfolding ensures_def by (blast intro: keepsD)
qed

abbreviation has_udp :: "int \<Rightarrow> session \<Rightarrow> bool" where
  "has_udp fd se \<equiv> \<exists>u. se_udp se = Some u \<and> us_fd u = fd"

lemma ensures_first_udp:
  assumes "\<And>se. A se \<Longrightarrow> se_udp se = None" and "\<And>se. A se \<Longrightarrow> A' (se\<lparr>se_udp := Some u\<rparr>)"
  shows "ensures (\<lambda>s. watched n h q A s \<and> us_fd u = fd) (sets (\<lambda>se. se\<lparr>se_udp := Some u\<rparr>))
    (\<lambda>_. watched n h q (\<lambda>se. A' se \<and> has_udp fd se))"
proof (rule ensures_sets)
  fix s assume s: "watched n h q A s \<and> us_fd u = fd"
  then have w: "watched n h q A s" and none: "se_udp (sess s) = None" and fd: "us_fd u = fd"
    using assms(1) by (auto simp: watched_def)
  have "ptr_fd p ((sess s)\<lparr>se_udp := Some u\<rparr>) = Some k" if "ptr_fd p (sess s) = Some k" for p k
    using that none by (cases p) (simp_all split: if_splits)
  with w fd assms(2) show "watched n h q (\<lambda>se. A' se \<and> has_udp fd se) (s\<lparr>sess := (sess s)\<lparr>se_udp := Some u\<rparr>\<rparr>)"
    by (intro watched_sess [where A = A and f = "\<lambda>se. se\<lparr>se_udp := Some u\<rparr>"]) auto
qed

text \<open>A step that says whether the session goes on promises \<open>A\<close> only then.\<close>

abbreviation goes_on :: "nat \<Rightarrow> history \<Rightarrow> bool \<Rightarrow> (session \<Rightarrow> bool) \<Rightarrow> bool \<Rightarrow> sstate \<Rightarrow> bool" where
  "goes_on n h q A ok \<equiv> watched n h q (\<lambda>se. ok \<longrightarrow> A se)"

lemma ensures_stop: "ensures (watched n h q A) (ret False) (goes_on n h q B)"
  by (rule ensures_ret) (erule watched_weaken; simp)

lemma ensures_go: "(\<And>se. A se \<Longrightarrow> B se) \<Longrightarrow> ensures (watched n h q A) (ret ok) (goes_on n h q B)"
  by (rule ensures_ret) (erule watched_weaken; simp)

lemma watched_associate:
  assumes A: "\<And>se. A se \<Longrightarrow> se_remote se = None \<and> se_udp se = None"
  shows "ensures (watched n h True A) (associate c m) (goes_on n h True late)"
proof -
  let ?B = "\<lambda>se. se_remote se = None \<and> has_udp c se" and ?C = "\<lambda>se. has_udp c se \<and> has_remote m se"
  have k: "keeps (watched n h True A) (catch_all (bnd (get_bound_address c) (\<lambda>i. ret (Some i))) (ret None))"
    by (intro watched_rules)
  have tail: "ensures (watched n h True A) (bnd (UDPSocket_new c peer) (\<lambda>u.
               seq (sets (\<lambda>se. se\<lparr>se_udp := Some u\<rparr>))
               (bnd (set_event c (PUdp n) (Ev_Read OR Ev_Closed) False) (\<lambda>_.
                bnd (RemoteSocket_new m None) (\<lambda>rem.
                seq (set_remote rem)
                (bnd (set_event m (PRemote n) (Ev_Read OR Ev_Closed) False) (\<lambda>_.
                 seq (set_state Associated) (ret True)))))))) (goes_on n h True late)" for peer
    by (rule ensures_bnd, rule ensures_new_udp,
      rule ensures_seq, rule ensures_first_udp [where A' = "\<lambda>se. se_remote se = None"], simp add: A, simp add: A,
      rule ensures_bnd, rule ensures_set_event, simp, force, simp,
      rule ensures_bnd, rule ensures_new_remote,
      rule ensures_seq, rule ensures_first_remote [where A' = "has_udp c"], simp, simp,
      rule ensures_bnd, rule ensures_set_event, simp, force, simp,
      rule ensures_seq, rule ensures_set_state [where A' = late], force simp: late_def, rule ensures_go)
  show ?thesis
    unfolding associate_def Let_def
    by (rule ensures_bnd_keeps, rule keeps_reads, rule ensures_id, rule ensures_bnd_keeps, rule watched_calls,
      rule ensures_prod, rule ensures_bnd_keeps, rule watched_calls,
      rule ensures_if, rule ensures_stop, rule ensures_bnd_keeps, rule k,
      rule ensures_option, rule ensures_stop, rule ensures_bnd_keeps, rule watched_calls,
      rule ensures_if, rule ensures_stop, rule ensures_bnd_keeps, rule keeps_reads, rule tail)
qed

lemma ensures_command:
  assumes "ensures P a Q" and "ensures P b Q" and "\<And>c. ensures P (ret c) Q"
  shows "ensures P (case cmd of Cmd_Connect \<Rightarrow> a | Cmd_Bind \<Rightarrow> ret x | Cmd_UdpAssociate \<Rightarrow> b
     | Cmd_Invalid \<Rightarrow> ret y | Cmd_Other z \<Rightarrow> ret w) Q"
  using assms by (cases cmd) simp_all

lemma watched_do_command:
  assumes A: "\<And>se. A se \<Longrightarrow> se_remote se = None \<and> se_udp se = None"
  shows "ensures (watched n h True A) (do_command as) (goes_on n h True (\<lambda>se. late se \<or> A se))"
proof (cases as)
  case Nil
  then show ?thesis by (simp add: do_command_def ensures_stop del: ret_exec)
next
  case (Cons a as')
  have A1: "\<And>se. A se \<Longrightarrow> se_remote se = None" using A by simp
  have c: "ensures (watched n h True A) (bnd (connect_remote sock as) (\<lambda>_. ret True)) (goes_on n h True (\<lambda>se. late se \<or> A se))" for sock
    by (rule ensures_bnd, rule watched_connect_remote [OF A1], assumption, rule ensures_go, simp)
  have close: "keeps (goes_on n h True late ok) (Socket_close fd)" for ok fd
    by (intro watched_calls)
  have u: "ensures (watched n h True A) (bnd (associate cl_sock rm_sock) (\<lambda>ok.
           if ok then ret True
           else bnd (Socket_close rm_sock) (\<lambda>_. bnd (Socket_close cl_sock) (\<lambda>_. ret False))))
        (goes_on n h True (\<lambda>se. late se \<or> A se))" for cl_sock rm_sock
    by (rule ensures_bnd, rule watched_associate [OF A], assumption, rule ensures_if, rule ensures_go, simp,
      rule ensures_bnd_keeps, rule close, rule ensures_bnd_keeps, rule close, rule ensures_stop)
  have o: "keeps (watched n h True A) (if ia_version a = IPv4 then open_udp else open_udp6)"
    "keeps (watched n h True A) (if ia_version a = IPv4 then open_tcp else open_tcp6)"
    by (intro watched_rules)+
  show ?thesis
    unfolding do_command_def Cons list.case
    by (rule ensures_bnd_keeps, rule keeps_reads, rule ensures_command,
      rule ensures_bnd_keeps, rule o, rule c [unfolded Cons],
      rule ensures_bnd_keeps, rule o, rule ensures_bnd_keeps, rule o, rule u, rule ensures_go, simp)
qed

subsection \<open>Messages of the client\<close>

text \<open>The three kinds of states between two events, and what a session owns in each.\<close>

definition early :: "session \<Rightarrow> bool" where
  "early se \<longleftrightarrow> se_state se \<in> {Accepted, AuthRequested, Authenticated}
     \<and> se_remote se = None \<and> se_udp se = None \<and> se_dns se = [] \<and> mb_size (se_client_buffer se) = 0"

definition resolving_name :: "session \<Rightarrow> bool" where
  "resolving_name se \<longleftrightarrow> se_state se = ResolvingDomainName
     \<and> se_remote se = None \<and> se_udp se = None \<and> length (se_dns se) = 1 \<and> mb_size (se_client_buffer se) = 0"

definition settled :: "nat \<Rightarrow> history \<Rightarrow> sstate \<Rightarrow> bool" where
  "settled n h s \<longleftrightarrow> watched n h True (\<lambda>se. early se \<or> late se) s \<or> watched n h False resolving_name s"

text \<open>A session that ends need not be in order, but its registrations are still its own.\<close>

definition handled :: "nat \<Rightarrow> history \<Rightarrow> bool \<Rightarrow> sstate \<Rightarrow> bool" where
  "handled n h ok s \<longleftrightarrow> (if ok then settled n h s else watched n h False (\<lambda>_. True) s)"

lemma settledI:
  "watched n h True early s \<Longrightarrow> settled n h s" "watched n h True late s \<Longrightarrow> settled n h s"
  "watched n h False resolving_name s \<Longrightarrow> settled n h s"
  unfolding settled_def by (auto elim: watched_weaken)

lemma handledI:
  "watched n h True early s \<Longrightarrow> handled n h ok s" "watched n h True late s \<Longrightarrow> handled n h ok s"
  "watched n h False resolving_name s \<Longrightarrow> handled n h ok s"
  "watched n h q A s \<Longrightarrow> handled n h False s"
  unfolding handled_def by (auto intro: settledI elim: watched_weaken)

lemma watched_early:
  "keeps (watched n h True early) (check_version b)" "keeps (watched n h True early) (request_auth b)"
  "keeps (watched n h True early) (handle_auth b)" "keeps (watched n h True early) (check_command b)"
proof -
  have st: "keeps (watched n h True early) (set_state st)" if "st \<in> {AuthRequested, Authenticated}" for st
    by (rule watched_set_state) (use that in \<open>auto simp: early_def\<close>)
  have cmd: "keeps (watched n h True early) (sets (\<lambda>se. se\<lparr>se_command := c\<rparr>))" for c
  proof (rule watched_sets)
    fix se assume "early se"
    moreover have "ptr_fd p (se\<lparr>se_command := c\<rparr>) = ptr_fd p se" for p by (cases p) simp_all
    ultimately show "early (se\<lparr>se_command := c\<rparr>) \<and> se_id (se\<lparr>se_command := c\<rparr>) = se_id se
        \<and> (\<forall>p. ptr_fd p (se\<lparr>se_command := c\<rparr>) = ptr_fd p se)"
      by (simp add: early_def)
  qed
  show "keeps (watched n h True early) (check_version b)"
    unfolding check_version_def by (intro watched_rules)
  show "keeps (watched n h True early) (request_auth b)"
    unfolding request_auth_def Let_def by (intro watched_rules st; simp)
  show "keeps (watched n h True early) (handle_auth b)"
    unfolding handle_auth_def Let_def by (intro watched_rules st; simp)
  show "keeps (watched n h True early) (check_command b)"
    unfolding check_command_def refuse_command_def Let_def by (intro watched_rules cmd)
qed

lemma ensures_gets_const:
  assumes "\<And>se. A se \<Longrightarrow> f se = c" and "ensures (watched n h q A) (g c) Q"
  shows "ensures (watched n h q A) (bnd (gets f) g) Q"
  using assms by (intro ensures_gets) (auto simp: ensures_def watched_def)

lemma ensures_first_lookup:
  assumes "ds_fd d = fd"
  shows "ensures (watched n h True early) (sets (\<lambda>se. se\<lparr>se_dns := se_dns se @ [d]\<rparr>))
    (\<lambda>_. watched n h False (\<lambda>se. se_remote se = None \<and> se_udp se = None \<and> se_dns se = [d]
      \<and> mb_size (se_client_buffer se) = 0))"
proof (rule ensures_sets)
  fix s assume s: "watched n h True early s"
  let ?f = "\<lambda>se :: session. se\<lparr>se_dns := se_dns se @ [d]\<rparr>"
  have e: "early (sess s)" using s by (simp add: watched_def)
  have "watched n h True (\<lambda>se. se_remote se = None \<and> se_udp se = None \<and> se_dns se = [d]
      \<and> mb_size (se_client_buffer se) = 0) (s\<lparr>sess := ?f (sess s)\<rparr>)"
  proof (rule watched_sess [OF s])
    fix p fd assume "ptr_fd p (sess s) = Some fd"
    with e show "ptr_fd p (?f (sess s)) = Some fd" by (cases p) (simp_all add: early_def)
  qed (simp_all add: early_def)
  then show "watched n h False (\<lambda>se. se_remote se = None \<and> se_udp se = None \<and> se_dns se = [d]
      \<and> mb_size (se_client_buffer se) = 0) (s\<lparr>sess := ?f (sess s)\<rparr>)"
    by (rule watched_weaken) simp_all
qed

lemma ensures_sum:
  "(\<And>e. v = Inl e \<Longrightarrow> ensures P (f e) Q) \<Longrightarrow> (\<And>x. v = Inr x \<Longrightarrow> ensures P (g x) Q) \<Longrightarrow>
    ensures P (case v of Inl e \<Rightarrow> f e | Inr x \<Rightarrow> g x) Q"
  by (cases v) simp_all

lemma watched_resolve_domain_name:
  "ensures (watched n h True early) (resolve_domain_name b) (goes_on n h False resolving_name)"
proof -
  have dom: "keeps (watched n h True early) (sets (\<lambda>se. se\<lparr>se_domain := d\<rparr>))" for d
  proof (rule watched_sets)
    fix se assume "early se"
    moreover have "ptr_fd p (se\<lparr>se_domain := d\<rparr>) = ptr_fd p se" for p by (cases p) simp_all
    ultimately show "early (se\<lparr>se_domain := d\<rparr>) \<and> se_id (se\<lparr>se_domain := d\<rparr>) = se_id se
        \<and> (\<forall>p. ptr_fd p (se\<lparr>se_domain := d\<rparr>) = ptr_fd p se)"
      by (simp add: early_def)
  qed
  have q: "keeps (watched n h False resolving_name) (DnsSocket_query ds a)" for ds a
    by (intro watched_calls)
  have stop: "ensures (watched n h True early) (ret False) (goes_on n h False resolving_name)"
    by (rule ensures_ret) (erule watched_weaken; simp)
  have o: "keeps (watched n h True early) (if ia_version a = IPv4 then open_udp else open_udp6)" for a
    by (intro watched_rules)
  show ?thesis
    unfolding resolve_domain_name_def Let_def DnsSocket_new_plain sum.case
    by (rule ensures_gets_const [where c = "[]"], simp add: early_def, rule ensures_bnd_keeps, rule keeps_asks,
      rule ensures_if, rule stop, rule ensures_if, rule stop,
      rule ensures_bnd_keeps, rule keeps_uninit, rule ensures_bnd_keeps, rule keeps_asks,
      rule ensures_sum, rule ensures_throw, rule ensures_bnd_keeps, rule o, rule ensures_bnd_keeps, rule keeps_reads,
      rule ensures_id, rule ensures_seq_keeps, rule dom,
      rule ensures_seq, rule ensures_first_lookup, simp,
      rule ensures_bnd, rule ensures_set_event, simp, simp, simp,
      rule ensures_seq, rule ensures_set_state [where A' = resolving_name], simp add: resolving_name_def,
      rule ensures_bnd_keeps, rule q, intro ensures_if ensures_stop ensures_go, assumption)
qed

lemma watched_resolve_address:
  "ensures (watched n h True early) (resolve_address b) (\<lambda>v s. case v of (as, is_domain) \<Rightarrow>
     if is_domain then watched n h False resolving_name s
     else if as = None then watched n h False (\<lambda>_. True) s else watched n h True early s)" (is "ensures _ _ ?Q")
proof -
  have k: "keeps (watched n h q A) (refuse_command r m)" for q A r m
    unfolding refuse_command_def Let_def by (intro watched_rules)
  have d: "ensures (watched n h True early) (bnd (resolve_domain_name b) (\<lambda>ok.
      seq (when_do (\<not> ok) (bnd (refuse_command r m) (\<lambda>_. ret ()))) (ret (None, ok)))) ?Q" for r m
    by (rule ensures_bnd, rule watched_resolve_domain_name, rule ensures_seq_keeps, intro keeps_rules k,
      rule ensures_ret) (auto elim: watched_weaken)
  have r: "ensures (watched n h True early) (bnd (refuse_command rep m) (\<lambda>_. ret (None, False))) ?Q" for rep m
    by (rule ensures_bnd_keeps, rule k, rule ensures_ret) (auto elim: watched_weaken)
  have a: "ensures (watched n h True early) (bnd uninit (\<lambda>junk. ret (Some (f junk), False))) ?Q" for f
    by (rule ensures_bnd_keeps, rule keeps_uninit, rule ensures_ret) simp
  have split: "ensures P (case t of AT_DomainName \<Rightarrow> m | _ \<Rightarrow> m') Q"
    if "ensures P m Q" "ensures P m' Q" for P m m' Q and t :: addr_type
    using that by (cases t) simp_all
  show ?thesis
    unfolding resolve_address_def Let_def
    by (rule ensures_bnd_keeps, rule keeps_reads, rule split, rule d, rule ensures_if, rule a, rule r)
qed

subsection \<open>Every handler leaves its session settled\<close>

lemma ensures_False: "(\<And>s. P s \<Longrightarrow> False) \<Longrightarrow> ensures P m Q"
  unfolding ensures_def by blast

lemma ensures_handled:
  "keeps (watched n h q A) m \<Longrightarrow> (\<And>ok s. watched n h q A s \<Longrightarrow> handled n h ok s) \<Longrightarrow> ensures (watched n h q A) m (handled n h)"
  by (rule ensures_mono [OF ensures_keeps [of "watched n h q A"]]) simp_all

lemma ensures_goes_on: "ensures P m (goes_on n h q A) \<Longrightarrow> (\<And>s. watched n h q A s \<Longrightarrow> settled n h s) \<Longrightarrow> ensures P m (handled n h)"
  by (erule ensures_mono) (auto simp: handled_def elim: watched_weaken)

lemma early_client: "ensures (watched n h True early) (process_client b addr) (handled n h)"
  unfolding process_client_def
proof (rule ensures_gets)
  fix st
  let ?P = "\<lambda>s. watched n h True early s \<and> st = se_state (sess s)"
  have stop: "ensures (watched n h True early) (ret False) (handled n h)"
    by (rule ensures_ret) (rule handledI)
  have run: "ensures (watched n h True early) (do_command as) (handled n h)" for as
    by (rule ensures_goes_on, rule watched_do_command) (auto simp: early_def settled_def elim: watched_weaken)
  have tail: "ensures (\<lambda>s. case v of (as, is_domain) \<Rightarrow>
     if is_domain then watched n h False resolving_name s
     else if as = None then watched n h False (\<lambda>_. True) s else watched n h True early s)
    (case v of (addresses, is_domain_name) \<Rightarrow>
         if is_domain_name then ret True
         else case addresses of None \<Rightarrow> ret False | Some as \<Rightarrow> do_command as) (handled n h)" for v
  proof (cases v)
    case (Pair as is_domain)
    show ?thesis
      by (cases is_domain; cases as; simp add: Pair run del: ret_exec; rule ensures_ret; auto intro: handledI)
  qed
  have k: "ensures (watched n h True early) (request_auth b) (handled n h)"
    "ensures (watched n h True early) (handle_auth b) (handled n h)"
    by (rule ensures_handled, rule watched_early, erule handledI)+
  show "ensures ?P (case st of
     Accepted \<Rightarrow> bnd (check_version b) (\<lambda>ok. if ok then request_auth b else ret False)
   | AuthRequested \<Rightarrow> handle_auth b
   | Authenticated \<Rightarrow> bnd (check_command b) (\<lambda>ok.
       if \<not> ok then ret False
       else bnd (resolve_address b) (\<lambda>(addresses, is_domain_name).
         if is_domain_name then ret True
         else case addresses of None \<Rightarrow> ret False | Some as \<Rightarrow> do_command as))
   | ResolvingDomainName \<Rightarrow> ret False
   | Connected \<Rightarrow> bnd the_remote (\<lambda>_. session_socket_send RemoteSide (Some b))
   | Associated \<Rightarrow> bnd the_remote (\<lambda>r. bnd (hook_udp_send_to r b addr) (\<lambda>n. ret (n \<noteq> 0)))
   | _ \<Rightarrow> ret False) (handled n h)"
  proof (cases "st \<in> {Accepted, AuthRequested, Authenticated}")
    case False
    then show ?thesis by (intro ensures_False) (auto simp: watched_def early_def)
  next
    case True
    then consider "st = Accepted" | "st = AuthRequested" | "st = Authenticated" by blast
    then show ?thesis
    proof cases
      case 1
      show ?thesis unfolding 1 sess_state.case
        by (rule ensures_forget, rule ensures_bnd_keeps, rule watched_early, rule ensures_if, rule k, rule stop)
    next
      case 2
      show ?thesis unfolding 2 sess_state.case by (rule ensures_forget, rule k)
    next
      case 3
      show ?thesis unfolding 3 sess_state.case
        by (rule ensures_forget, rule ensures_bnd_keeps, rule watched_early, rule ensures_if, rule stop,
          rule ensures_bnd, rule watched_resolve_address, rule tail)
    qed
  qed
qed

lemma moving_relay: "moving A \<Longrightarrow> keeps (watched n h q A) (session_socket_send d b)"
  by (rule watched_relay) (simp add: moving_def)

lemma late_client: "ensures (watched n h True late) (process_client b addr) (handled n h)"
  unfolding process_client_def
proof (rule ensures_gets)
  fix st
  let ?P = "\<lambda>s. watched n h True late s \<and> st = se_state (sess s)"
  have k: "ensures (watched n h True late) (bnd the_remote (\<lambda>_. session_socket_send RemoteSide (Some b))) (handled n h)"
    "ensures (watched n h True late) (bnd the_remote (\<lambda>r. bnd (hook_udp_send_to r b addr) (\<lambda>n. ret (n \<noteq> 0)))) (handled n h)"
    "ensures (watched n h True late) (ret False) (handled n h)"
    by (rule ensures_handled, intro watched_rules moving_relay moving_late, erule handledI)+
  have other: "ensures ?P m Q" if "st \<notin> {ConnectingRemote, Connected, Associated}" for m :: "bool ses" and Q
    using that by (intro ensures_False) (auto simp: watched_def late_def)
  show "ensures ?P (case st of
     Accepted \<Rightarrow> bnd (check_version b) (\<lambda>ok. if ok then request_auth b else ret False)
   | AuthRequested \<Rightarrow> handle_auth b
   | Authenticated \<Rightarrow> bnd (check_command b) (\<lambda>ok.
       if \<not> ok then ret False
       else bnd (resolve_address b) (\<lambda>(addresses, is_domain_name).
         if is_domain_name then ret True
         else case addresses of None \<Rightarrow> ret False | Some as \<Rightarrow> do_command as))
   | ResolvingDomainName \<Rightarrow> ret False
   | Connected \<Rightarrow> bnd the_remote (\<lambda>_. session_socket_send RemoteSide (Some b))
   | Associated \<Rightarrow> bnd the_remote (\<lambda>r. bnd (hook_udp_send_to r b addr) (\<lambda>n. ret (n \<noteq> 0)))
   | _ \<Rightarrow> ret False) (handled n h)"
    using other k by (cases st) (simp_all add: ensures_forget del: ret_exec)
qed

lemma resolving_client: "ensures (watched n h False resolving_name) (process_client b addr) (handled n h)"
  unfolding process_client_def
  by (rule ensures_gets_const [where c = ResolvingDomainName], simp add: resolving_name_def,
    unfold sess_state.case, rule ensures_ret, erule handledI)

text \<open>Before a destination is connected nothing waits to be sent, and a write event of the client does not return.\<close>

lemma flush_handled:
  "ensures (watched n h True early) (session_socket_send ClientSide None) Q"
  "ensures (watched n h False resolving_name) (session_socket_send ClientSide None) Q"
  by (auto simp: ensures_def watched_def early_def resolving_name_def session_socket_send_def gets_def bnd_def)

lemma flush_handled_late: "ensures (watched n h True late) (session_socket_send ClientSide None) (handled n h)"
  by (rule ensures_handled [OF moving_relay [OF moving_late]]) (rule handledI)

lemma watched_client_event:
  assumes "\<And>b. ensures (watched n h q A) (process_client b None) (handled n h)"
    and relay: "ensures (watched n h q A) (session_socket_send ClientSide None) (handled n h)" and go: "\<And>ok s. watched n h q A s \<Longrightarrow> handled n h ok s"
  shows "ensures (watched n h q A) (process_client_event flags) (handled n h)"
proof -
  have stop: "ensures (watched n h q A) (ret False) (handled n h)" by (rule ensures_ret) (rule go)
  show ?thesis
    unfolding process_client_event_def
    by (rule ensures_if, rule stop, rule ensures_if, rule relay, rule ensures_bnd_keeps, rule keeps_reads,
      rule ensures_bnd_keeps, rule keeps_reads, rule ensures_bnd_keeps, rule watched_hooks,
      rule ensures_prod, rule ensures_if, rule stop, rule ensures_if, rule stop, rule assms(1))
qed

lemma UDPSocket_recv_from_fd: "UDPSocket_recv_from u b s = (Inr (n, b', a, u'), t) \<Longrightarrow> us_fd u' = us_fd u"
  by (auto simp: UDPSocket_recv_from_def Let_def elim!: bnd_InrE split: option.splits if_splits prod.splits)

lemma ensures_recv_from:
  "ensures (\<lambda>s. watched n h q A s \<and> se_udp (sess s) = Some u) (UDPSocket_recv_from u b)
    (\<lambda>v s. watched n h q A s \<and> se_udp (sess s) = Some u \<and> us_fd (snd (snd (snd v))) = us_fd u)"
proof -
  have "plain_closed (\<lambda>s. watched n h q A s \<and> se_udp (sess s) = Some u)"
    using watched_plain [of n h q A] by (simp add: plain_closed_def syscall_def Let_def)
  then have "keeps (\<lambda>s. watched n h q A s \<and> se_udp (sess s) = Some u) (UDPSocket_recv_from u b)"
    by (rule keeps_udp_socket)
  then show ?thesis
    unfolding ensures_def using UDPSocket_recv_from_fd by (fastforce dest: keepsD)
qed

lemma late_udp_event: "ensures (watched n h True late) (process_udp_event flags) (handled n h)"
proof -
  have go: "ensures (watched n h True late) (ret ok) (handled n h)" for ok
    by (rule ensures_ret) (rule handledI)
  have upd: "ensures (\<lambda>s. watched n h True late s \<and> se_udp (sess s) = Some u \<and> us_fd u' = us_fd u)
      (sets (\<lambda>se. se\<lparr>se_udp := Some u'\<rparr>)) (\<lambda>_. watched n h True late)" for u u'
  proof (rule ensures_sets)
    fix s assume s: "watched n h True late s \<and> se_udp (sess s) = Some u \<and> us_fd u' = us_fd u"
    have "ptr_fd p ((sess s)\<lparr>se_udp := Some u'\<rparr>) = ptr_fd p (sess s)" for p using s by (cases p) auto
    with s show "watched n h True late (s\<lparr>sess := (sess s)\<lparr>se_udp := Some u'\<rparr>\<rparr>)"
      by (intro watched_sess [where A = late and f = "\<lambda>se. se\<lparr>se_udp := Some u'\<rparr>"]) (auto simp: late_def)
  qed
  show ?thesis
    unfolding process_udp_event_def
    by (rule ensures_if, rule go, rule ensures_bnd_keeps, rule keeps_reads, rule ensures_the_udp,
      rule ensures_bnd, rule ensures_recv_from, intro ensures_prod, rule ensures_seq,
      rule ensures_pre [OF upd], simp, intro ensures_if go late_client)
qed

text \<open>Sockets the session does not have: the handler does not return.\<close>

lemma no_udp_event:
  assumes A: "\<And>se. A se \<Longrightarrow> se_udp se = None"
  shows "ensures (watched n h q A) (process_udp_event flags) (handled n h)"
proof -
  have "ensures (\<lambda>s. watched n h q A s \<and> se_udp (sess s) = Some u) m Q" for u m and Q :: "bool \<Rightarrow> sstate \<Rightarrow> bool"
    using A by (intro ensures_False) (auto simp: watched_def)
  then show ?thesis
    unfolding process_udp_event_def
    by (intro ensures_if ensures_the_udp ensures_bnd_keeps [OF keeps_reads(4)]) (rule ensures_ret, erule handledI)
qed

lemma no_remote_event:
  assumes A: "\<And>se. A se \<Longrightarrow> se_remote se = None"
  shows "ensures (watched n h q A) (process_remote_event flags) (handled n h)"
proof -
  have "ensures (\<lambda>s. watched n h q A s \<and> se_remote (sess s) = Some r) m Q" for r m and Q :: "bool \<Rightarrow> sstate \<Rightarrow> bool"
    using A by (intro ensures_False) (auto simp: watched_def)
  then show ?thesis
    unfolding process_remote_event_def by (intro ensures_if ensures_the_remote)
qed

text \<open>The answer to a lookup: its socket is the only one registered as a lookup, until now.\<close>

lemma ensures_remove_lookup:
  assumes A: "\<And>se. A se \<Longrightarrow> length (se_dns se) = 1 \<and> ds_fd (se_dns se ! 0) = fd"
  shows "ensures (watched n h False A) (remove_event fd) (\<lambda>_. watched n h True A)"
  unfolding ensures_def
proof (intro allI impI)
  fix s x t
  assume s: "watched n h False A s" and run: "remove_event fd s = (Inr x, t)"
  have k: "keeps (watched n h False A) (remove_event fd)" by (intro watched_calls)
  have t: "watched n h False A t" by (rule keepsD [OF k s run])
  have gone: "registered (trace t) fd = None"
    using run by (auto simp: remove_event_def epoll_ctl_def sys_int_def bnd_def syscall_def Let_def)
  have "\<not> is_dns p" if "registered (trace t) fd' = Some p" "ptr_session p = Some n" for fd' p
  proof
    assume "is_dns p"
    then obtain m i where p: "p = PDns m i" by (cases p) auto
    have "ptr_fd p (sess t) = Some fd'" "A (sess t)" using t that by (auto simp: watched_def)
    then have "fd' = fd" using A [of "sess t"] p by (auto split: if_splits)
    with that gone show False by simp
  qed
  with t show "watched n h True A t" unfolding watched_def by metis
qed

lemma resolving_dns_event: "ensures (watched n h False resolving_name) (process_dns_event flags i) (handled n h)"
proof -
  have stop: "ensures (watched n h q A) (ret False) (handled n h)" for q A
    by (rule ensures_ret) (erule handledI)
  have event: "ensures (\<lambda>s. watched n h False resolving_name s \<and> dns = se_dns (sess s))
      (bnd (DnsSocket_get_response (dns ! i)) (\<lambda>(status, addresses).
          bnd (remove_event (ds_fd (dns ! i))) (\<lambda>_.
            if status = 0 then ret False
            else if status = -1 then ret False
            else do_command addresses))) (handled n h)" if "i < length dns" for dns
  proof (cases "length dns = 1")
    case False
    then show ?thesis by (intro ensures_False) (auto simp: watched_def resolving_name_def)
  next
    case True
    let ?A = "\<lambda>se. resolving_name se \<and> se_dns se = dns"
    have weaker: "watched n h True ?A s \<Longrightarrow> watched n h False resolving_name s" for s
      by (erule watched_weaken) simp_all
    have i: "dns ! i = dns ! 0" using that True by (cases i) auto
    have "ensures (watched n h False ?A) (bnd (DnsSocket_get_response (dns ! 0)) (\<lambda>(status, addresses).
          bnd (remove_event (ds_fd (dns ! 0))) (\<lambda>_.
            if status = 0 then ret False
            else if status = -1 then ret False
            else do_command addresses))) (handled n h)"
      by (rule ensures_bnd_keeps, rule watched_calls, rule ensures_prod,
        rule ensures_bnd, rule ensures_remove_lookup, simp add: True, intro ensures_if stop,
        rule ensures_mono [OF watched_do_command [where A = ?A]], simp add: resolving_name_def, assumption,
        auto simp: handled_def settled_def watched_disj dest: weaker elim: watched_weaken)
    then show ?thesis unfolding i by (rule ensures_pre) (simp add: watched_def)
  qed
  show ?thesis
    unfolding process_dns_event_def
    by (rule ensures_if, rule stop, rule ensures_gets, rule ensures_if, rule ensures_throw, rule event, simp)
qed

lemma handler_settles:
  assumes "settled n h s" and "ptr_session p = Some n" and "is_dns p \<Longrightarrow> se_state (sess s) = ResolvingDomainName"
    and "ptr_handler p flags s = (Inr ok, t)"
  shows "handled n h ok t"
proof -
  note settled_cases = assms(1) [unfolded settled_def watched_disj]
  show ?thesis
  proof (cases p)
    case (PClient m)
    have "ensures (watched n h True early) (process_client_event flags) (handled n h)"
      "ensures (watched n h True late) (process_client_event flags) (handled n h)"
      "ensures (watched n h False resolving_name) (process_client_event flags) (handled n h)"
      by (rule watched_client_event; (rule early_client late_client resolving_client flush_handled flush_handled_late | erule handledI))+
    with settled_cases assms(4) PClient show ?thesis by (auto simp: ensures_def)
  next
    case (PRemote m)
    have "ensures (watched n h True early) (process_remote_event flags) (handled n h)"
      "ensures (watched n h False resolving_name) (process_remote_event flags) (handled n h)"
      by (rule no_remote_event; simp add: early_def resolving_name_def)+
    moreover have "ensures (watched n h True late) (process_remote_event flags) (handled n h)"
      by (rule ensures_mono [OF watched_remote_event [OF moving_late]]) (auto intro: handledI)
    ultimately show ?thesis using settled_cases assms(4) PRemote by (auto simp: ensures_def)
  next
    case (PUdp m)
    have "ensures (watched n h True early) (process_udp_event flags) (handled n h)"
      "ensures (watched n h False resolving_name) (process_udp_event flags) (handled n h)"
      by (rule no_udp_event; simp add: early_def resolving_name_def)+
    with settled_cases assms(4) PUdp late_udp_event show ?thesis by (auto simp: ensures_def)
  next
    case (PDns m i)
    then have "watched n h False resolving_name s"
      using settled_cases assms(3) by (auto simp: watched_def early_def late_def)
    with resolving_dns_event assms(4) PDns show ?thesis by (auto simp: ensures_def)
  qed (use assms(2) in simp_all)
qed

end
