(* ===== verification/Polling.thy ===== *)
theory Polling
  imports Registration
begin

section \<open>The server and an honest poller\<close>

text \<open>
  The composition of the server's loop, the sessions' handlers and the poller: with a kernel
  that reports only registered descriptors, each at most once per call, the loop never follows a
  pointer to a deleted session, and no handler a null pointer to a socket of its session, from \<open>serve\<close> on and
  for any number of rounds.
\<close>

subsection \<open>The invariant\<close>

definition in_order :: "nat \<Rightarrow> session \<Rightarrow> bool" where
  "in_order n se \<longleftrightarrow> se_id se = n \<and> (early se \<or> late se \<or> resolving_name se)"

definition owned :: "nat \<Rightarrow> history \<Rightarrow> session \<Rightarrow> bool" where
  "owned n h se \<longleftrightarrow> (\<forall>fd p. registered h fd = Some p \<longrightarrow> ptr_session p = Some n \<longrightarrow>
     ptr_fd p se = Some fd \<and> (is_dns p \<longrightarrow> se_state se = ResolvingDomainName))"

definition polled :: "server \<Rightarrow> bool" where
  "polled s \<longleftrightarrow> server_inv s \<and> (\<forall>n se. sv_heap s n = Some se \<longrightarrow> in_order n se \<and> owned n (trace s) se)
     \<and> (\<forall>fd p n. registered (trace s) fd = Some p \<longrightarrow> ptr_session p = Some n \<longrightarrow> n \<in> dom (sv_heap s))"

text \<open>The events of a batch that are still to come: the session of each exists, and so does the socket.\<close>

definition sockets_ok :: "event list \<Rightarrow> server \<Rightarrow> bool" where
  "sockets_ok es s \<longleftrightarrow> (\<forall>p n se. p \<in> ev_ptr ` set es \<longrightarrow> ptr_session p = Some n \<longrightarrow> sv_heap s n = Some se \<longrightarrow> ptr_fd p se \<noteq> None)"

definition pending :: "event list \<Rightarrow> server \<Rightarrow> bool" where
  "pending es s \<longleftrightarrow> events_ok es s \<and> sockets_ok es s \<and> distinct (filter is_dns (map ev_ptr es))
     \<and> (\<forall>n i. PDns n i \<in> ev_ptr ` set es \<longrightarrow>
          i = 0 \<and> (\<exists>se. sv_heap s n = Some se \<and> se_state se = ResolvingDomainName))"

text \<open>As \<open>epoll_wait\<close> documents.\<close>

definition epoll_honest :: "(history \<Rightarrow> syscall \<Rightarrow> sysret) \<Rightarrow> bool" where
  "epoll_honest f \<longleftrightarrow> (\<forall>h timeout. let r = f h (Sys_epoll_wait timeout) in sr_ok r \<longrightarrow>
     (\<exists>fds. distinct fds \<and> map (registered h) fds = map (\<lambda>e. Some (snd e)) (sr_events r)))"

lemma settled_start:
  assumes "in_order n (sess s)" and "owned n (trace s) (sess s)"
  shows "settled n (trace s) s"
proof -
  let ?q = "se_state (sess s) \<noteq> ResolvingDomainName"
  have w: "watched n (trace s) ?q (\<lambda>se. se = sess s) s"
    using assms unfolding watched_def in_order_def owned_def by auto
  consider "early (sess s)" ?q | "late (sess s)" ?q | "resolving_name (sess s)"
    using assms(1) by (auto simp: in_order_def early_def late_def)
  then show ?thesis
  proof cases
    case 1
    show ?thesis by (rule settledI(1), rule watched_weaken [OF w]) (use 1 in simp_all)
  next
    case 2
    show ?thesis by (rule settledI(2), rule watched_weaken [OF w]) (use 2 in simp_all)
  next
    case 3
    show ?thesis by (rule settledI(3), rule watched_weaken [OF w]) (use 3 in simp_all)
  qed
qed

lemma settled_end:
  assumes "settled n h s"
  shows "in_order n (sess s)" "owned n (trace s) (sess s)"
    "\<And>fd p. registered (trace s) fd = Some p \<Longrightarrow> ptr_session p = Some n \<or> registered h fd = Some p"
proof -
  from assms consider "watched n h True (\<lambda>se. early se \<or> late se) s" | "watched n h False resolving_name s"
    by (auto simp: settled_def)
  then show "in_order n (sess s)" "owned n (trace s) (sess s)"
    "\<And>fd p. registered (trace s) fd = Some p \<Longrightarrow> ptr_session p = Some n \<or> registered h fd = Some p"
    by (cases; auto simp: watched_def in_order_def owned_def resolving_name_def split: if_splits)+
qed

text \<open>
  Another history with fewer registrations of other sessions keeps their part of the invariant.
\<close>

lemma owned_mono:
  "owned n h se \<Longrightarrow> (\<And>fd p. registered h' fd = Some p \<Longrightarrow> ptr_session p = Some n \<Longrightarrow> registered h fd = Some p) \<Longrightarrow> owned n h' se"
  by (auto simp: owned_def)

text \<open>What the poller reports are pending events.\<close>

lemma distinct_filter_fds:
  assumes "distinct fds" and "map g fds = map Some ps"
    and "\<And>a b p. P p \<Longrightarrow> g a = Some p \<Longrightarrow> g b = Some p \<Longrightarrow> a = b"
  shows "distinct (filter P ps)"
  using assms
proof (induction fds arbitrary: ps)
  case (Cons a fds)
  then obtain p ps' where ps: "ps = p # ps'" "g a = Some p" "map g fds = map Some ps'" by auto
  have "p \<notin> set ps'" if "P p"
  proof
    assume "p \<in> set ps'"
    then have "Some p \<in> set (map g fds)" using ps(3) by simp
    then obtain b where "b \<in> set fds" "g b = Some p" by auto
    with Cons.prems(1,3) ps(2) that show False by auto
  qed
  with Cons ps show ?case by auto
qed simp

lemma reported_pending:
  assumes s: "polled s" and fds: "distinct fds" "map (registered (trace s)) fds = map Some (map ev_ptr es)"
  shows "pending es s"
proof -
  have reg: "\<exists>fd. registered (trace s) fd = Some p" if "p \<in> ev_ptr ` set es" for p
  proof -
    have "Some p \<in> set (map (registered (trace s)) fds)" unfolding fds(2) using that by auto
    then show ?thesis by auto
  qed
  have dns: "i = 0 \<and> (\<exists>se. sv_heap s n = Some se \<and> se_state se = ResolvingDomainName \<and> ptr_fd (PDns n i) se = Some fd)"
    if lookup: "registered (trace s) fd = Some (PDns n i)" for fd n i
  proof -
    have "ptr_session (PDns n i) = Some n" by simp
    then have "n \<in> dom (sv_heap s)" using lookup s unfolding polled_def by blast
    then obtain se where se: "sv_heap s n = Some se" by auto
    then have o: "owned n (trace s) se" "in_order n se" using s by (auto simp: polled_def)
    have "ptr_session (PDns n i) = Some n \<longrightarrow> ptr_fd (PDns n i) se = Some fd
        \<and> (is_dns (PDns n i) \<longrightarrow> se_state se = ResolvingDomainName)"
      using lookup o(1) unfolding owned_def by blast
    then have r: "ptr_fd (PDns n i) se = Some fd" "se_state se = ResolvingDomainName" by simp_all
    then have "length (se_dns se) = 1" using o(2) by (auto simp: in_order_def early_def late_def resolving_name_def)
    with r se show ?thesis by (auto split: if_splits)
  qed
  have "distinct (filter is_dns (map ev_ptr es))"
  proof (rule distinct_filter_fds [OF fds])
    fix a b p assume p: "is_dns p" "registered (trace s) a = Some p" "registered (trace s) b = Some p"
    then obtain n i where "p = PDns n i" by (cases p) auto
    with dns [of a n i] dns [of b n i] p(2,3) show "a = b" by auto
  qed
  moreover have "events_ok es s"
    unfolding events_ok_def
  proof (intro ballI allI impI)
    fix e n assume e: "e \<in> set es" "ptr_session (ev_ptr e) = Some n"
    then obtain fd where "registered (trace s) fd = Some (ev_ptr e)" using reg by blast
    with e(2) s show "n \<in> dom (sv_heap s)" unfolding polled_def by blast
  qed
  moreover have "sockets_ok es s"
    unfolding sockets_ok_def
  proof (intro allI impI)
    fix p n se assume p: "p \<in> ev_ptr ` set es" "ptr_session p = Some n" and se: "sv_heap s n = Some se"
    from reg [OF p(1)] obtain fd where "registered (trace s) fd = Some p" by blast
    moreover have "owned n (trace s) se" using s se by (simp add: polled_def)
    ultimately show "ptr_fd p se \<noteq> None" using p(2) by (auto simp: owned_def)
  qed
  moreover have "i = 0 \<and> (\<exists>se. sv_heap s n = Some se \<and> se_state se = ResolvingDomainName)"
    if "PDns n i \<in> ev_ptr ` set es" for n i
  proof -
    from reg [OF that] obtain fd where "registered (trace s) fd = Some (PDns n i)" by blast
    from dns [OF this] show ?thesis by blast
  qed
  ultimately show ?thesis unfolding pending_def by blast
qed

subsection \<open>Calls of the server itself\<close>

lemma polled_calls: "plain_closed (\<lambda>s. polled s \<and> os s = f)"
  unfolding plain_closed_def
proof (intro allI impI)
  fix s :: server and c
  assume c: "\<not> sets_event c" and s: "polled s \<and> os s = f"
  let ?t = "snd (syscall c s)"
  have t: "sv_heap ?t = sv_heap s" "server_inv ?t = server_inv s" "os ?t = os s"
    by (simp_all add: syscall_def Let_def server_inv_def)
  have "registered (trace s) fd = Some p" if "registered (trace ?t) fd = Some p" for fd p
    using that c note_call_plain by (auto simp: syscall_def Let_def)
  then show "polled ?t \<and> os ?t = f"
    using s unfolding polled_def t by (meson owned_mono)
qed

text \<open>Faults that are not uses of a deleted session or of a null pointer to a socket.\<close>

definition benign :: "fault \<Rightarrow> bool" where
  "benign e \<longleftrightarrow> e \<notin> UndefinedBehaviour ` (heap_faults \<union> socket_faults)"

interpretation benign: io_faults benign
proof
  show "io_fault e \<Longrightarrow> benign e" for e
    by (cases e) (auto simp: io_fault_def benign_def)
qed

abbreviation safe :: "'a srv \<Rightarrow> ('a \<Rightarrow> server \<Rightarrow> bool) \<Rightarrow> server \<Rightarrow> bool" where
  "safe m Q s \<equiv> wpre m Q (\<lambda>e _. benign e) s"

lemma safe_keeps:
  assumes "keeps P m" and "raises benign m" and "P s" and "\<And>x t. P t \<Longrightarrow> Q x t"
  shows "safe m Q s"
  by (rule wpre_keeps [OF assms(1,3,2,4)])

subsection \<open>An event of a session\<close>

definition session_view :: "server \<Rightarrow> session \<Rightarrow> sstate" where
  "session_view s se = \<lparr>os = os s, stack = stack s, inet_pton = inet_pton s, trace = trace s,
     errno = errno s, params = params s, sess = se\<rparr>"

definition put_session :: "nat \<Rightarrow> sstate \<Rightarrow> server \<Rightarrow> server" where
  "put_session n t s = s\<lparr>trace := trace t, errno := errno t, sv_heap := (sv_heap s)(n := Some (sess t))\<rparr>"

lemma session_view_sel [simp]:
  "trace (session_view s se) = trace s" "sess (session_view s se) = se" "os (session_view s se) = os s"
  by (simp_all add: session_view_def)

lemma put_session_sel [simp]:
  "trace (put_session n t s) = trace t" "sv_heap (put_session n t s) = (sv_heap s)(n := Some (sess t))"
  "os (put_session n t s) = os s" "sv_sessions (put_session n t s) = sv_sessions s"
  "sv_next (put_session n t s) = sv_next s" "sv_fd (put_session n t s) = sv_fd s"
  by (simp_all add: put_session_def)

lemma on_session_exec:
  "sv_heap s n = Some se \<Longrightarrow> on_session n m s = (case m (session_view s se) of (r, t) \<Rightarrow> (r, put_session n t s))"
  by (simp add: on_session_def session_view_def put_session_def)

lemma server_inv_put: "n \<in> dom (sv_heap s) \<Longrightarrow> server_inv (put_session n t s) = server_inv s"
  by (simp add: server_inv_def insert_absorb)

text \<open>A session that is settled, new or not, joins the invariant of the others.\<close>

lemma polled_with:
  assumes s: "polled s" and t: "settled n (trace s) t" and u: "server_inv u" "trace u = trace t"
    "sv_heap u = (sv_heap s)(n := Some (sess t))"
  shows "polled u"
proof -
  note e = settled_end [OF t]
  have "in_order m se' \<and> owned m (trace t) se'" if "sv_heap u m = Some se'" for m se'
  proof (cases "m = n")
    case False
    then have "in_order m se'" "owned m (trace s) se'" using that s u(3) by (auto simp: polled_def)
    moreover have "registered (trace s) fd = Some p" if "registered (trace t) fd = Some p" "ptr_session p = Some m" for fd p
      using e(3) [OF that(1)] that(2) False by simp
    ultimately show ?thesis using owned_mono by blast
  qed (use that e(1,2) u(3) in auto)
  moreover have "m \<in> dom (sv_heap u)" if "registered (trace t) fd = Some p" "ptr_session p = Some m" for fd p m
  proof (cases "m = n")
    case False
    then have "registered (trace s) fd = Some p" using e(3) [OF that(1)] that(2) by auto
    with that(2) s have "m \<in> dom (sv_heap s)" unfolding polled_def by blast
    then show ?thesis by (simp add: u(3))
  qed (simp add: u(3))
  ultimately show ?thesis using u(1,2) unfolding polled_def by simp
qed

lemma polled_put:
  assumes "polled s" and n: "sv_heap s n = Some se" and "settled n (trace s) t"
  shows "polled (put_session n t s)"
proof (rule polled_with [OF assms(1,3)])
  show "server_inv (put_session n t s)"
    using assms(1) n server_inv_put [of n s t] by (auto simp: polled_def)
qed simp_all

text \<open>The other pending events are still pending: a lookup that still waits does so.\<close>

lemma still_resolving:
  assumes "ptr_handler p flags s = (r, t)" and "se_state (sess s) = ResolvingDomainName"
    and "ptr_session p = Some n" and "\<not> is_dns p"
  shows "se_state (sess t) = ResolvingDomainName"
proof (cases p)
  case (PRemote m)
  have "phase_step (PRemote m) (se_state (sess s)) (se_state (sess (snd (process_remote_event flags s))))"
    by (rule process_remote_event_step)
  then show ?thesis using assms PRemote by simp
next
  case (PClient m)
  have "phase_step (PClient m) (se_state (sess s)) (se_state (sess (snd (process_client_event flags s))))"
    using client_side_steps(1) [of "PClient m" "se_state (sess s)" flags] by (simp add: leads_def)
  then show ?thesis using assms PClient by simp
next
  case (PUdp m)
  have "phase_step (PUdp m) (se_state (sess s)) (se_state (sess (snd (process_udp_event flags s))))"
    using client_side_steps(2) [of "PUdp m" "se_state (sess s)" flags] by (simp add: leads_def)
  then show ?thesis using assms PUdp by simp
qed (use assms in simp_all)

text \<open>A session keeps the sockets it has.\<close>

definition has_socket :: "ptr \<Rightarrow> sstate \<Rightarrow> bool" where
  "has_socket p s \<longleftrightarrow> ptr_fd p (sess s) \<noteq> None"

interpretation keeping: session_invariant "has_socket p" UNIV for p
proof
  show "sys_closed (has_socket p)" by (rule sys_closedI) (simp add: has_socket_def)
qed (cases p; simp add: has_socket_def nth_append split: if_splits)+

lemma handler_keeps_socket: "keeps (has_socket p) (ptr_handler q flags)"
proof -
  have "keeps (has_socket p) (process_client_event flags)" "keeps (has_socket p) (process_udp_event flags)"
    by (intro keeping.process_client_event_keeps keeping.process_udp_event_keeps keeping.process_client_keeps; simp)+
  moreover have "keeps (has_socket p) (process_remote_event flags)"
    by (intro keeping.process_remote_event_keeps keeping.reply_keeps) simp
  moreover have "keeps (has_socket p) (process_dns_event flags i)" for i
    by (intro keeping.process_dns_event_keeps) simp_all
  ultimately show ?thesis by (cases q) simp_all
qed

lemma pending_put:
  assumes ev: "pending (e # es) s" and n: "sv_heap s n = Some se" "ptr_session (ev_ptr e) = Some n"
    and run: "ptr_handler (ev_ptr e) flags (session_view s se) = (r, t)"
  shows "pending es (put_session n t s)"
proof -
  have "events_ok es (put_session n t s)"
    using ev n by (auto simp: pending_def events_ok_def)
  moreover have "sockets_ok es (put_session n t s)"
    unfolding sockets_ok_def
  proof (intro allI impI)
    fix p m se' assume p: "p \<in> ev_ptr ` set es" "ptr_session p = Some m" and se': "sv_heap (put_session n t s) m = Some se'"
    show "ptr_fd p se' \<noteq> None"
    proof (cases "m = n")
      case True
      then have "has_socket p (session_view s se)" using ev p n(1) by (auto simp: has_socket_def pending_def sockets_ok_def)
      then have "has_socket p t" by (rule keepsD [OF handler_keeps_socket _ run])
      with True se' show ?thesis by (simp add: has_socket_def)
    next
      case False
      with ev p se' show ?thesis by (auto simp: pending_def sockets_ok_def)
    qed
  qed
  moreover have "i = 0 \<and> (\<exists>se'. sv_heap (put_session n t s) m = Some se' \<and> se_state se' = ResolvingDomainName)"
    if m: "PDns m i \<in> ev_ptr ` set es" for m i
  proof -
    from ev m obtain se' where i: "i = 0" and se': "sv_heap s m = Some se'" "se_state se' = ResolvingDomainName"
      unfolding pending_def by auto
    show ?thesis
    proof (cases "m = n")
      case True
      have "\<not> is_dns (ev_ptr e)"
      proof
        assume "is_dns (ev_ptr e)"
        then obtain k j where p: "ev_ptr e = PDns k j" by (cases "ev_ptr e") auto
        with ev n(2) have "j = 0" "k = n" by (auto simp: pending_def)
        with m True i p ev show False by (auto simp: pending_def image_iff)
      qed
      moreover have "se_state (sess (session_view s se)) = ResolvingDomainName" using n se' True by simp
      ultimately have "se_state (sess t) = ResolvingDomainName"
        using still_resolving [OF run _ n(2)] by blast
      then show ?thesis using True i by simp
    qed (use se' i in simp)
  qed
  moreover have "distinct (filter is_dns (map ev_ptr es))" using ev by (simp add: pending_def split: if_splits)
  ultimately show ?thesis unfolding pending_def by blast
qed

subsection \<open>A session that ends\<close>

lemma registered_append:
  assumes "\<forall>c \<in> fst ` set tr. \<not> sets_event c" and "registered (tr @ h) fd = Some p"
  shows "registered h fd = Some p \<and> Sys_epoll_ctl EPOLL_CTL_DEL fd PNull 0 \<notin> fst ` set tr"
  using assms
proof (induction tr)
  case (Cons cr tr)
  have c: "\<not> sets_event (fst cr)" using Cons.prems(1) by simp
  have "registered (tr @ h) fd = Some p"
    using Cons.prems(2) note_call_plain [OF c] by simp
  moreover have "fst cr \<noteq> Sys_epoll_ctl EPOLL_CTL_DEL fd PNull 0"
    using Cons.prems(2) by auto
  ultimately show ?case using Cons by auto
qed simp

lemma drop_calls_plain:
  "c \<in> set (drop_calls fd) \<Longrightarrow> \<not> sets_event c" "Sys_epoll_ctl EPOLL_CTL_DEL fd PNull 0 \<in> set (drop_calls fd)"
  by (auto simp: drop_calls_def close_calls_def split: if_splits)

lemma delete_session_extends:
  fixes s :: server
  shows "keeps (\<lambda>t. os t = os s \<and> (\<exists>h. trace t = h @ trace s)) (delete_session n)"
proof -
  let ?P = "\<lambda>t. os t = os s \<and> (\<exists>h. trace t = h @ trace s)"
  have c: "sys_closed ?P" for s :: server by (auto simp: sys_closed_def syscall_def Let_def)
  have d: "sys_closed (\<lambda>t :: sstate. \<exists>h. trace t = h @ T)" for T
    by (auto simp: sys_closed_def syscall_def Let_def)
  have r: "keeps (\<lambda>t :: sstate. \<exists>h. trace t = h @ T) (drop_socket fd)" for T fd
    unfolding drop_socket_def by (intro keeps_bnd plain_calls_keep sys_closed_plain d)
  have ds: "keeps (\<lambda>t :: sstate. \<exists>h. trace t = h @ T) (drop_dns ds)" for T ds
    by (induction ds) (auto intro!: keeps_bnd r)
  have sh: "keeps (\<lambda>t :: sstate. \<exists>h. trace t = h @ T) Session_shutdown" for T
    unfolding Session_shutdown_def by (intro keeps_rules keeps_reads r ds keeps_sets; simp)
  have "keeps ?P (on_session n Session_shutdown)"
    unfolding keeps_def
  proof (intro allI impI)
    fix t :: server assume t: "?P t"
    show "?P (snd (on_session n Session_shutdown t))"
    proof (cases "sv_heap t n")
      case None
      with t show ?thesis by (simp add: on_session_def)
    next
      case (Some se)
      obtain h where h: "trace t = h @ trace s" using t by auto
      obtain r u where u: "Session_shutdown (session_view t se) = (r, u)" by (cases "Session_shutdown (session_view t se)")
      have "\<exists>h'. trace u = h' @ trace t" by (rule keepsD [OF sh _ u]) simp
      with h t u Some show ?thesis by (auto simp: on_session_exec)
    qed
  qed
  moreover have "keeps ?P (Session_delete se)" for se
    unfolding Session_delete_def
    by (intro keeps_rules plain_calls_keep sys_closed_plain c)
  then have "keeps ?P (free_session n)"
    unfolding free_session_def by (intro keeps_rules keeps_upd) auto
  ultimately show ?thesis
    unfolding delete_session_def by (intro keeps_rules keeps_upd) auto
qed

lemma invalidate_pending:
  assumes "pending es s" and heap: "sv_heap t = (sv_heap s)(n := None)" "dom (sv_heap t) = dom (sv_heap s) - {n}"
  shows "pending (invalidate_events n es) t"
proof -
  have ptr: "p = PNull \<or> (p \<in> ev_ptr ` set es \<and> ptr_session p \<noteq> Some n)"
    if "p \<in> ev_ptr ` set (invalidate_events n es)" for p
    using that by (auto simp: invalidate_events_def Event_def split: if_splits)
  have "filter is_dns (map ev_ptr (invalidate_events n es)) = filter (\<lambda>p. ptr_session p \<noteq> Some n) (filter is_dns (map ev_ptr es))"
    by (induction es) (auto simp: invalidate_events_def Event_def)
  moreover have "distinct (filter is_dns (map ev_ptr es))" using assms(1) by (simp add: pending_def)
  ultimately have "distinct (filter is_dns (map ev_ptr (invalidate_events n es)))"
    by (simp only: distinct_filter)
  moreover have "events_ok (invalidate_events n es) t"
    unfolding events_ok_def heap(2)
  proof (intro ballI allI impI)
    fix e m assume e: "e \<in> set (invalidate_events n es)" "ptr_session (ev_ptr e) = Some m"
    then have "ev_ptr e \<in> ev_ptr ` set es" "m \<noteq> n" using ptr [of "ev_ptr e"] by auto
    with e(2) assms(1) show "m \<in> dom (sv_heap s) - {n}" by (fastforce simp: pending_def events_ok_def)
  qed
  moreover have "sockets_ok (invalidate_events n es) t"
    unfolding sockets_ok_def
  proof (intro allI impI)
    fix p m se assume p: "p \<in> ev_ptr ` set (invalidate_events n es)" "ptr_session p = Some m" "sv_heap t m = Some se"
    then have "p \<in> ev_ptr ` set es" "m \<noteq> n" using ptr [OF p(1)] by auto
    with p assms(1) heap(1) show "ptr_fd p se \<noteq> None" by (auto simp: pending_def sockets_ok_def)
  qed
  moreover have "i = 0 \<and> (\<exists>se. sv_heap t m = Some se \<and> se_state se = ResolvingDomainName)"
    if "PDns m i \<in> ev_ptr ` set (invalidate_events n es)" for m i
    using ptr [OF that] assms(1) heap(1) by (auto simp: pending_def)
  ultimately show ?thesis unfolding pending_def by blast
qed

text \<open>After a handler that ends its session, deleting it leaves the others as they were.\<close>

lemma delete_after_handler:
  assumes s: "polled s" and n: "sv_heap s n = Some se" and t: "watched n (trace s) False (\<lambda>_. True) t"
    and ev: "pending es (put_session n t s)"
  shows "safe (delete_session n) (\<lambda>_ u. polled u \<and> pending (invalidate_events n es) u \<and> os u = os s) (put_session n t s)"
proof -
  let ?s = "put_session n t s"
  have dom: "n \<in> dom (sv_heap s)" using n by auto
  have inv: "server_inv ?s" using s by (simp add: server_inv_put [OF dom] polled_def)
  then have mem: "n \<in> set (sv_sessions ?s)" by (simp add: server_inv_def)
  obtain r u where run: "delete_session n ?s = (r, u)" by (cases "delete_session n ?s")
  have rel: "r = Inr ()" "calls u = calls ?s @ concat (map drop_calls (session_fds (sess t)))"
    "sv_heap u = (sv_heap ?s)(n := None)"
    using delete_session_releases [of ?s n, OF _ mem] run by (auto simp: wpre_def split: sum.splits)
  have inv_u: "server_inv u"
    using delete_session_wp [OF inv, of n "[]"] run rel(1) by (auto simp: wpre_def events_ok_def)
  have "os u = os ?s \<and> (\<exists>h. trace u = h @ trace ?s)"
    by (rule keepsD [OF delete_session_extends _ run]) simp
  then obtain tr where tr: "trace u = tr @ trace t" and os: "os u = os s" by auto
  have "map fst (rev tr) = concat (map drop_calls (session_fds (sess t)))"
    using rel(2) by (simp add: calls_def tr)
  from arg_cong [OF this, of set]
  have calls: "fst ` set tr = (\<Union>fd \<in> set (session_fds (sess t)). set (drop_calls fd))" by simp
  then have plain: "\<forall>c \<in> fst ` set tr. \<not> sets_event c" using drop_calls_plain(1) by auto
  have reg: "registered (trace s) fd = Some p \<and> ptr_session p \<noteq> Some n" if "registered (trace u) fd = Some p" for fd p
  proof -
    from that have r: "registered (trace t) fd = Some p" "Sys_epoll_ctl EPOLL_CTL_DEL fd PNull 0 \<notin> fst ` set tr"
      using registered_append [OF plain] unfolding tr by blast+
    have "ptr_session p \<noteq> Some n"
    proof
      assume "ptr_session p = Some n"
      then have "ptr_fd p (sess t) = Some fd" using t r(1) by (auto simp: watched_def)
      then have "fd \<in> set (session_fds (sess t))" by (rule ptr_fd_session_fds)
      with r(2) drop_calls_plain(2) calls show False by auto
    qed
    with t r(1) show ?thesis by (auto simp: watched_def)
  qed
  have heap: "sv_heap u = (sv_heap s)(n := None)" using rel(3) by simp
  have "in_order m se' \<and> owned m (trace u) se'" if "sv_heap u m = Some se'" for m se'
  proof -
    have "sv_heap s m = Some se'" using that heap by (auto split: if_splits)
    then have "in_order m se'" "owned m (trace s) se'" using s by (auto simp: polled_def)
    then show ?thesis using owned_mono reg by blast
  qed
  moreover have "m \<in> dom (sv_heap u)" if "registered (trace u) fd = Some p" "ptr_session p = Some m" for fd p m
  proof -
    have m: "registered (trace s) fd = Some p" "m \<noteq> n" using reg [OF that(1)] that(2) by auto
    with that(2) s have "m \<in> dom (sv_heap s)" unfolding polled_def by blast
    with m(2) show ?thesis by (simp add: heap)
  qed
  ultimately have "polled u" using inv_u unfolding polled_def by blast
  moreover have "pending (invalidate_events n es) u"
    by (rule invalidate_pending [OF ev]) (auto simp: rel(3))
  ultimately show ?thesis using run rel(1) os by (simp add: wpre_def)
qed

subsection \<open>A new session\<close>

lemma ensures_initialize:
  "ensures (watched n h True (\<lambda>se. se_remote se = None \<and> se_udp se = None \<and> se_dns se = [] \<and> mb_size (se_client_buffer se) = 0))
    initialize (\<lambda>_. watched n h True early)"
proof -
  let ?A = "\<lambda>se. se_remote se = None \<and> se_udp se = None \<and> se_dns se = [] \<and> mb_size (se_client_buffer se) = 0"
  have peer: "keeps (watched n h True ?A) (sets (\<lambda>se. se\<lparr>se_peer := i\<rparr>))" for i
  proof (rule watched_sets)
    fix se :: session assume "?A se"
    moreover have "ptr_fd p (se\<lparr>se_peer := i\<rparr>) = ptr_fd p se" for p by (cases p) simp_all
    ultimately show "?A (se\<lparr>se_peer := i\<rparr>) \<and> se_id (se\<lparr>se_peer := i\<rparr>) = se_id se
        \<and> (\<forall>p. ptr_fd p (se\<lparr>se_peer := i\<rparr>) = ptr_fd p se)" by simp
  qed
  have event: "ensures (\<lambda>s. watched n h True ?A s \<and> se = sess s)
      (set_event (se_client se) (PClient (se_id se)) (Ev_Read OR Ev_Closed) False) (\<lambda>_. watched n h True ?A)" for se
  proof (cases "se_id se = n")
    case True
    have "ensures (watched n h True (\<lambda>se'. ?A se' \<and> se' = se))
        (set_event (se_client se) (PClient n) (Ev_Read OR Ev_Closed) False) (\<lambda>_. watched n h True (\<lambda>se'. ?A se' \<and> se' = se))"
      by (rule ensures_set_event) auto
    then show ?thesis unfolding True by (rule ensures_mono) (auto simp: watched_def)
  qed (auto simp: ensures_def watched_def)
  have k: "keeps (\<lambda>s. watched n h True ?A s \<and> se = sess s) (asks params)"
    "keeps (\<lambda>s. watched n h True ?A s \<and> se = sess s) (set_nodelay fd b)"
    "keeps (\<lambda>s. watched n h True ?A s \<and> se = sess s) (set_keepalive fd b)" for se fd b
  proof -
    have p: "plain_closed (\<lambda>s. watched n h True ?A s \<and> se = sess s)"
      using watched_plain [of n h True ?A] by (simp add: plain_closed_def syscall_def Let_def)
    show "keeps (\<lambda>s. watched n h True ?A s \<and> se = sess s) (set_nodelay fd b)"
      "keeps (\<lambda>s. watched n h True ?A s \<and> se = sess s) (set_keepalive fd b)"
      by (rule keeps_socket [OF p])+
  qed (rule keeps_asks)
  show ?thesis
    unfolding initialize_def
    by (rule ensures_gets, rule ensures_bnd_keeps, rule k, rule ensures_bnd_keeps, rule k, rule ensures_bnd_keeps, rule k,
      rule ensures_bnd, rule event, rule ensures_bnd_keeps, rule watched_calls, rule ensures_seq_keeps, rule peer,
      rule ensures_set_state, simp add: early_def)
qed

lemma Session_new_fields:
  "Session_new n fd s = (Inr se, t) \<Longrightarrow>
    se_id se = n \<and> se_remote se = None \<and> se_udp se = None \<and> se_dns se = [] \<and> mb_size (se_client_buffer se) = 0"
  by (auto simp: Session_new_def MemoryBuffer_null_def elim!: bnd_InrE)

lemma pending_calls: "plain_closed (\<lambda>s. polled s \<and> pending es s \<and> sv_next s = n \<and> os s = f)"
  using polled_calls [of f]
  by (auto simp: plain_closed_def pending_def events_ok_def sockets_ok_def syscall_def Let_def)

lemma create_session_safe:
  assumes s: "polled s" "pending es s"
  shows "safe (create_new_session fd) (\<lambda>_ t. polled t \<and> pending es t \<and> os t = os s) s"
proof -
  let ?n = "sv_next s"
  obtain r t where run: "create_new_session fd s = (r, t)" by (cases "create_new_session fd s")
  have inv: "server_inv s" and ev: "events_ok es s" using s by (auto simp: polled_def pending_def)
  have wp: "case r of Inl e \<Rightarrow> benign e | Inr x \<Rightarrow> server_inv t \<and> events_ok es t"
    using benign.create_new_session_wp [OF inv ev, of fd] run by (simp add: wpre_def)
  show ?thesis
  proof (cases r)
    case (Inl e)
    with wp run show ?thesis by (simp add: wpre_def)
  next
    case (Inr x)
    obtain se s1 where se: "Session_new ?n fd s = (Inr se, s1)"
      and tail: "seq (upd (\<lambda>s. s\<lparr>sv_heap := (sv_heap s)(?n := Some se), sv_next := ?n + 1\<rparr>))
        (seq (on_session ?n initialize) (seq (upd (\<lambda>s. s\<lparr>sv_sessions := sv_sessions s @ [?n]\<rparr>)) (ret ?n))) s1 = (Inr x, t)"
      using run Inr unfolding create_new_session_def by (auto elim!: bnd_InrE)
    have k: "keeps (\<lambda>u. polled u \<and> pending es u \<and> sv_next u = ?n \<and> os u = os s) (Session_new ?n fd)"
      unfolding Session_new_def by (intro keeps_rules plain_calls_keep pending_calls)
    have s1: "polled s1" "pending es s1" "sv_next s1 = ?n" "os s1 = os s"
      using keepsD [OF k _ se] s by simp_all
    let ?s2 = "s1\<lparr>sv_heap := (sv_heap s1)(?n := Some se), sv_next := ?n + 1\<rparr>"
    obtain u where u: "initialize (session_view ?s2 se) = (Inr (), u)"
      and t: "t = (put_session ?n u ?s2)\<lparr>sv_sessions := sv_sessions s1 @ [?n]\<rparr>"
      using tail by (auto simp: on_session_exec seq_def elim!: bnd_InrE split: prod.splits)
    have new: "?n \<notin> dom (sv_heap s1)" using s1(1,3) unfolding polled_def server_inv_def by fastforce
    have none: "ptr_session p \<noteq> Some ?n" if "registered (trace s1) k = Some p" for k p
    proof
      assume "ptr_session p = Some ?n"
      with that s1(1) have "?n \<in> dom (sv_heap s1)" unfolding polled_def by blast
      with new show False by simp
    qed
    have "watched ?n (trace s1) True (\<lambda>se. se_remote se = None \<and> se_udp se = None \<and> se_dns se = [] \<and> mb_size (se_client_buffer se) = 0) (session_view ?s2 se)"
      using Session_new_fields [OF se] none by (auto simp: watched_def)
    from ensuresD [OF ensures_initialize this u] have "settled ?n (trace s1) u" by (rule settledI)
    moreover have "server_inv t" using wp Inr by simp
    ultimately have "polled t" by (rule polled_with [OF s1(1)]) (simp_all add: t)
    moreover have "pending es t"
    proof -
      have "\<exists>se. sv_heap t m = Some se \<and> se_state se = ResolvingDomainName" if "PDns m i \<in> ev_ptr ` set es" for m i
      proof -
        from that s1(2) obtain se where "sv_heap s1 m = Some se" "se_state se = ResolvingDomainName"
          unfolding pending_def by blast
        with new show ?thesis by (auto simp: t)
      qed
      moreover have "events_ok es t" using s1(2) by (auto simp: t pending_def events_ok_def)
      moreover have "sockets_ok es t"
        unfolding sockets_ok_def
      proof (intro allI impI)
        fix p m se' assume p: "p \<in> ev_ptr ` set es" "ptr_session p = Some m" and se': "sv_heap t m = Some se'"
        then have "m \<in> dom (sv_heap s1)" using s1(2) by (auto simp: pending_def events_ok_def)
        then have "sv_heap s1 m = Some se'" using se' new by (auto simp: t split: if_splits)
        with p s1(2) show "ptr_fd p se' \<noteq> None" by (auto simp: pending_def sockets_ok_def)
      qed
      ultimately show ?thesis using s1(2) unfolding pending_def by blast
    qed
    ultimately show ?thesis using run Inr s1(4) by (simp add: wpre_def t)
  qed
qed

subsection \<open>A batch and the loop\<close>

lemma accept_client_safe:
  assumes "polled s" "pending es s" "\<And>x t. polled t \<Longrightarrow> pending es t \<Longrightarrow> os t = os s \<Longrightarrow> Q x t"
  shows "safe accept_client Q s"
proof (rule safe_keeps)
  show "keeps (\<lambda>t. polled t \<and> pending es t \<and> sv_next t = sv_next s \<and> os t = os s) accept_client"
    unfolding accept_client_def by (intro keeps_bnd keeps_asks plain_calls_keep pending_calls)
  show "raises benign accept_client"
    unfolding accept_client_def Socket_accept_def by (intro raising; auto simp: benign_def)
qed (use assms in auto)

lemma stop_safe: "polled s \<Longrightarrow> safe stop (\<lambda>_ t. polled t \<and> os t = os s) s"
proof (rule safe_keeps)
  show "keeps (\<lambda>t. polled t \<and> os t = os s) stop"
    unfolding stop_def
    by (intro keeps_bnd keeps_asks plain_calls_keep polled_calls keeps_upd) (simp add: polled_def server_inv_def)
  show "raises benign stop"
    unfolding stop_def Socket_shutdown_def Socket_close_def by (intro raising)
qed simp_all

text \<open>The handler of an event finds the sockets that the state of its session asks for.\<close>

lemma in_order_usable: "in_order n (sess s) \<Longrightarrow> usable owns_sockets s"
  by (auto simp: in_order_def usable_def owns_sockets_def early_def late_def resolving_name_def)

lemma in_order_owns: "in_order n (sess s) \<Longrightarrow> se_remote (sess s) \<noteq> None \<Longrightarrow> owns_sockets s"
  by (auto simp: in_order_def owns_sockets_def early_def late_def resolving_name_def)

lemma handler_finds_sockets:
  assumes "in_order n (sess s)" and "ptr_fd p (sess s) \<noteq> None" and "ptr_session p = Some n"
    and "ptr_handler p flags s = (Inl e, t)"
  shows "io_fault e"
proof (cases p)
  case (PClient m)
  then show ?thesis
    using assms raises_fromD [OF own_sockets.process_client_event_from in_order_usable] by simp
next
  case (PRemote m)
  then show ?thesis
    using assms raises_fromD [OF own_sockets.process_remote_event_from in_order_owns] by simp
next
  case (PUdp m)
  have "usable owns_sockets s \<and> (se_udp (sess s) = None \<longrightarrow> io_fault (UndefinedBehaviour ''null udp socket''))"
    using assms(1,2) PUdp in_order_usable by auto
  with assms(4) PUdp show ?thesis
    using raises_fromD [OF own_sockets.process_udp_event_from] by simp
next
  case (PDns m i)
  then have "i < length (se_dns (sess s)) \<or> io_fault (UndefinedBehaviour ''no such dns socket'')"
    using assms(2) by (simp split: if_splits)
  with assms(4) PDns show ?thesis
    using raises_fromD [OF own_sockets.process_dns_event_from] by simp
qed (use assms(3) in simp_all)

lemma handler_safe:
  assumes s: "polled s" "pending (e # es) s" and n: "sv_heap s n = Some se" "ptr_session (ev_ptr e) = Some n"
    and go: "\<And>t. polled t \<Longrightarrow> pending es t \<Longrightarrow> os t = os s \<Longrightarrow> safe m Q t"
    and fin: "\<And>t. polled t \<Longrightarrow> pending (invalidate_events n es) t \<Longrightarrow> os t = os s \<Longrightarrow> safe m' Q t"
  shows "safe (bnd (on_session n (ptr_handler (ev_ptr e) (ev_flags e))) (\<lambda>ok.
      if ok then m else seq (check_events es) (seq (delete_session n) m'))) Q s"
proof -
  let ?h = "ptr_handler (ev_ptr e) (ev_flags e)"
  obtain r t where run: "?h (session_view s se) = (r, t)" by (cases "?h (session_view s se)")
  then have on: "on_session n ?h s = (r, put_session n t s)" using n by (simp add: on_session_exec)
  note ev = pending_put [OF s(2) n run]
  show ?thesis
  proof (cases r)
    case (Inl f)
    have "ptr_fd (ev_ptr e) se \<noteq> None" using s(2) n by (auto simp: pending_def sockets_ok_def)
    moreover have "in_order n se" using s(1) n(1) by (simp add: polled_def)
    ultimately have "io_fault f"
      using handler_finds_sockets [OF _ _ n(2), of "session_view s se"] run Inl by simp
    then show ?thesis using on Inl by (simp add: wpre_def bnd_def benign.io)
  next
    case (Inr ok)
    have settled: "settled n (trace s) (session_view s se)"
      using settled_start [of n "session_view s se"] s(1) n(1) by (simp add: polled_def)
    have dns: "se_state (sess (session_view s se)) = ResolvingDomainName" if "is_dns (ev_ptr e)"
    proof -
      from that obtain k i where p: "ev_ptr e = PDns k i" by (cases "ev_ptr e") auto
      moreover from p n(2) have "k = n" by simp
      ultimately have "PDns n i \<in> ev_ptr ` set (e # es)" by simp
      with s(2) n(1) show ?thesis unfolding pending_def by fastforce
    qed
    have t: "handled n (trace s) ok t" by (rule handler_settles [OF settled n(2) dns run [unfolded Inr]])
    show ?thesis
    proof (cases ok)
      case True
      have "safe m Q (put_session n t s)"
        by (rule go) (use t True polled_put [OF s(1) n(1)] ev in \<open>simp_all add: handled_def\<close>)
      then show ?thesis using on Inr True by (simp add: wpre_def bnd_def)
    next
      case False
      then have w: "watched n (trace s) False (\<lambda>_. True) t" using t by (simp add: handled_def)
      have "safe (seq (delete_session n) m') Q (put_session n t s)"
        unfolding wpre_seq
        by (rule wpre_mono [OF delete_after_handler [OF s(1) n(1) w ev]]) (use fin in auto)
      then have "safe (seq (check_events es) (seq (delete_session n) m')) Q (put_session n t s)"
        unfolding wpre_seq [of "check_events es"] using ev by (intro check_events_wp) (simp add: pending_def)
      then show ?thesis using on Inr False by (simp add: wpre_def bnd_def)
    qed
  qed
qed

lemma pending_tail: "pending (e # es) s \<Longrightarrow> pending es s"
  by (auto simp: pending_def events_ok_def sockets_ok_def split: if_splits)

lemma run_batch_safe:
  "polled s \<Longrightarrow> pending es s \<Longrightarrow> safe (run_batch es) (\<lambda>_ t. polled t \<and> os t = os s) s"
proof (induction es arbitrary: s rule: run_batch.induct)
  case 1
  then show ?case by (simp add: wp)
next
  case (2 e es)
  note ev = pending_tail [OF 2(6)]
  let ?Q = "\<lambda>_ t. polled t \<and> os t = os s"
  consider "ev_ptr e = PServer" "ev_flags e AND Ev_Read \<noteq> 0" | "ev_ptr e = PServer" "ev_flags e AND Ev_Read = 0"
    | "ev_ptr e \<noteq> PServer" "ptr_session (ev_ptr e) = None"
    | n where "ev_ptr e \<noteq> PServer" "ptr_session (ev_ptr e) = Some n" by blast
  then show ?case
  proof cases
    case 1
    have batch: "safe (run_batch es) ?Q u" if "polled u \<and> pending es u \<and> os u = os s" for u
      using 2(1) [OF 1, of u] that by simp
    have "safe (create_new_session fd) (\<lambda>_. safe (run_batch es) ?Q) t" if "polled t" "pending es t" "os t = os s" for fd t
      by (rule wpre_mono [OF create_session_safe [OF that(1,2)]]) (rule batch, simp add: that(3), assumption)
    then have "safe (bnd accept_client (\<lambda>fd. bnd (create_new_session fd) (\<lambda>_. run_batch es))) ?Q s"
      unfolding wpre_bnd by (intro accept_client_safe [OF 2(5) ev]) auto
    then show ?thesis using 1 by simp
  next
    case stop: 2
    have "safe stop ?Q s" by (rule stop_safe [OF 2(5)])
    then show ?thesis using stop by simp
  next
    case 3
    then show ?thesis using 2(2) [OF 3 2(5) ev] by simp
  next
    case (4 n)
    obtain se where se: "sv_heap s n = Some se" using 2(6) 4(2) by (auto simp: pending_def events_ok_def)
    have "safe (bnd (on_session n (ptr_handler (ev_ptr e) (ev_flags e))) (\<lambda>ok.
        if ok then run_batch es
        else seq (check_events es) (seq (delete_session n) (run_batch (invalidate_events n es))))) ?Q s"
    proof (rule handler_safe [OF 2(5,6) se 4(2)])
      fix t assume "polled t" "pending es t" "os t = os s"
      then show "safe (run_batch es) ?Q t" using 2(3) [OF 4, of True t] by simp
    next
      fix t assume "polled t" "pending (invalidate_events n es) t" "os t = os s"
      then show "safe (run_batch (invalidate_events n es)) ?Q t" using 2(4) [OF 4, of False t] by simp
    qed
    then show ?thesis using 4 by simp
  qed
qed

lemma poll_safe:
  assumes s: "polled s" "epoll_honest (os s)"
    and Q: "\<And>res es t. polled t \<Longrightarrow> pending es t \<Longrightarrow> os t = os s \<Longrightarrow> Q (res, es) t"
  shows "safe (poll timeout) Q s"
proof -
  let ?c = "Sys_epoll_wait timeout"
  let ?r = "os s (trace s) ?c" and ?t = "snd (syscall (Sys_epoll_wait timeout) s)"
  have t: "polled ?t" "os ?t = os s" "registered (trace ?t) = registered (trace s)"
    using polled_calls [of "os s"] s(1) by (auto simp: plain_closed_def) (simp_all add: syscall_def Let_def)
  show ?thesis
  proof (cases "sr_ok ?r")
    case True
    let ?es = "map (\<lambda>(flags, p). Event 0 flags p) (take POLL_BATCH (sr_events ?r))"
    obtain fds where fds: "distinct fds" "map (registered (trace s)) fds = map (\<lambda>e. Some (snd e)) (sr_events ?r)"
      using s(2) True unfolding epoll_honest_def Let_def by blast
    have "map (registered (trace ?t)) (take POLL_BATCH fds) = map Some (map ev_ptr ?es)"
      using fds(2) unfolding t(3) by (simp add: Event_def split_beta comp_def flip: take_map)
    with fds(1) have "pending ?es ?t"
      by (intro reported_pending [OF t(1), of "take POLL_BATCH fds"]) simp_all
    with t(1,2) have "Q (int (length ?es), ?es) ?t" by (intro Q)
    then show ?thesis using True by (simp add: poll_def wpre_def bnd_def syscall_def Let_def)
  next
    case False
    have "pending [] ?t" by (simp add: pending_def events_ok_def sockets_ok_def)
    with t(1,2) have "Q (-1, []) ?t" by (intro Q)
    then show ?thesis using False by (simp add: poll_def wpre_def bnd_def syscall_def Let_def)
  qed
qed

lemma serve_loop_safe:
  "polled s \<Longrightarrow> epoll_honest (os s) \<Longrightarrow> safe (serve_loop k) (\<lambda>_ t. polled t \<and> os t = os s) s"
proof (induction k arbitrary: s)
  case (Suc k)
  let ?Q = "\<lambda>_ t. polled t \<and> os t = os s"
  have loop: "safe (serve_loop k) ?Q t" if "polled t \<and> os t = os s" for t
    using Suc.IH [of t] Suc.prems(2) that by simp
  have batch: "safe (seq (run_batch es) (serve_loop k)) ?Q t" if "polled t" "pending es t" "os t = os s" for es t
    unfolding wpre_seq by (rule wpre_mono [OF run_batch_safe [OF that(1,2)]]) (rule loop, simp add: that(3), assumption)
  have halt: "safe (seq (when_do b stop) (ret True)) ?Q t" if "polled t" "os t = os s" for b t
  proof (cases b)
    case True
    show ?thesis
      unfolding wpre_seq wpre_when_do
      by (simp add: True, rule wpre_mono [OF stop_safe [OF that(1)]]) (simp_all add: wp that(2))
  qed (use that in \<open>simp add: wp when_do_def\<close>)
  have "safe (poll POLL_TIMEOUT) (\<lambda>v. safe (case v of (res, events) \<Rightarrow> bnd (asks errno) (\<lambda>err.
       if res = -1 then seq (when_do (err \<noteq> EINTR) stop) (ret True)
       else if res = 0 then serve_loop k
       else seq (run_batch events) (serve_loop k))) ?Q) s"
  proof (rule poll_safe [OF Suc.prems])
    fix res es t assume t: "polled t" "pending es t" "os t = os s"
    show "safe (case (res, es) of (res, events) \<Rightarrow> bnd (asks errno) (\<lambda>err.
       if res = -1 then seq (when_do (err \<noteq> EINTR) stop) (ret True)
       else if res = 0 then serve_loop k
       else seq (run_batch events) (serve_loop k))) ?Q t"
      unfolding prod.case wpre_bnd wpre_asks
      using halt [OF t(1,3)] loop t batch [OF t] by (simp del: wpre_seq)
  qed
  then show ?case using Suc.prems by (simp add: wp del: wpre_seq)
qed (simp add: wp)

subsection \<open>Serving\<close>

lemma start_serving_safe:
  assumes "polled s"
  shows "safe start_serving (\<lambda>_ t. polled t \<and> os t = os s) s"
proof (rule safe_keeps)
  have u: "keeps (\<lambda>t. polled t \<and> os t = os s) (upd (\<lambda>t. t\<lparr>sv_fd := fd\<rparr>))"
    "keeps (\<lambda>t. polled t \<and> os t = os s) (upd (\<lambda>t. t\<lparr>sv_poller := fd\<rparr>))" for fd
    by (intro keeps_upd; simp add: polled_def server_inv_def)+
  show "keeps (\<lambda>t. polled t \<and> os t = os s) start_serving"
    unfolding start_serving_def by (intro keeps_rules plain_calls_keep [OF polled_calls] u)
  show "raises benign start_serving"
    unfolding start_serving_def socket_defs EpollPoller_new_def Let_def by (intro raising; auto simp: benign_def)
qed (use assms in simp_all)

lemma register_server_polled:
  "keeps (\<lambda>t. polled t \<and> os t = f) (register_event (Event fd flags PServer))"
proof -
  have step: "polled (after (Sys_epoll_ctl EPOLL_CTL_ADD fd PServer flags) s)" if s: "polled s" for s :: server
  proof -
    let ?t = "after (Sys_epoll_ctl EPOLL_CTL_ADD fd PServer flags) s"
    have reg: "registered (trace s) k = Some p" if "registered (trace ?t) k = Some p" "ptr_session p = Some m" for k p m
      using that by (auto split: if_splits)
    have "server_inv ?t" using s by (simp add: polled_def server_inv_def)
    moreover have "in_order m se \<and> owned m (trace ?t) se" if "sv_heap ?t m = Some se" for m se
      using s that owned_mono [OF _ reg] by (auto simp: polled_def simp del: registered.simps)
    moreover have "m \<in> dom (sv_heap ?t)" if "registered (trace ?t) k = Some p" "ptr_session p = Some m" for k p m
    proof -
      have "m \<in> dom (sv_heap s)" using reg [OF that] that(2) s unfolding polled_def by blast
      then show ?thesis by simp
    qed
    ultimately show ?thesis unfolding polled_def by blast
  qed
  have run: "snd (register_event (Event fd flags PServer) s) = after (Sys_epoll_ctl EPOLL_CTL_ADD fd PServer flags) s" for s :: server
    by (simp add: register_event_def epoll_ctl_def sys_int_def bnd_def syscall_def Let_def Event_def)
  show ?thesis
    unfolding keeps_def run
  proof (intro allI impI conjI)
    fix s :: server assume "polled s \<and> os s = f"
    then show "polled (after (Sys_epoll_ctl EPOLL_CTL_ADD fd PServer flags) s)" by (intro step) simp
  qed simp
qed

lemma raises_register: "raises benign (register_event e)"
  unfolding register_event_def epoll_ctl_def by (intro raising)

lemma EpollPoller_delete_safe: "polled s \<Longrightarrow> safe (EpollPoller_delete fd) (\<lambda>_ t. polled t) s"
proof (rule safe_keeps)
  show "keeps (\<lambda>t. polled t \<and> os t = os s) (EpollPoller_delete fd)"
    by (intro plain_calls_keep polled_calls)
  show "raises benign (EpollPoller_delete fd)"
    unfolding EpollPoller_delete_def by (intro raising)
qed simp_all

lemma serve_safe:
  assumes s: "polled s" "epoll_honest (os s)"
  shows "safe (serve k) (\<lambda>_ t. server_inv t) s"
proof -
  have del: "safe (seq (EpollPoller_delete ep) (ret True)) (\<lambda>_ t. server_inv t) t" if "server_inv t" for ep t
  proof -
    have k: "keeps server_inv (EpollPoller_delete ep)"
      by (intro plain_calls_keep sys_closed_plain sys_closedI) (simp add: server_inv_def)
    have r: "raises benign (EpollPoller_delete ep)" unfolding EpollPoller_delete_def by (intro raising)
    show ?thesis unfolding wpre_seq by (rule safe_keeps [OF k r that]) (simp add: wp)
  qed
  have fin: "safe (seq (end_serving fd) (seq (EpollPoller_delete ep) (ret True))) (\<lambda>_ t. server_inv t) t"
    if "polled t" for fd ep t
  proof -
    have inv: "server_inv t" using that by (simp add: polled_def)
    show ?thesis
      unfolding wpre_seq [of "end_serving fd"]
      by (rule wpre_mono [OF end_serving_wp [OF inv]]) (auto intro!: del simp: server_inv_def)
  qed
  have loop: "safe (bnd (serve_loop k) (\<lambda>over. if \<not> over then ret False
         else seq (end_serving fd) (seq (EpollPoller_delete ep) (ret True)))) (\<lambda>_ t. server_inv t) t"
    if "polled t" "os t = os s" for fd ep t
  proof -
    have h: "epoll_honest (os t)" using s(2) that(2) by simp
    show ?thesis
      unfolding wpre_bnd [of "serve_loop k"]
      by (rule wpre_mono [OF serve_loop_safe [OF that(1) h]]) (auto intro: fin simp: wp polled_def simp del: wpre_seq)
  qed
  have refused: "safe (seq stop (seq (EpollPoller_delete ep) (ret True))) (\<lambda>_ t. server_inv t) t" if "polled t" for ep t
    unfolding wpre_seq [of stop]
    by (rule wpre_mono [OF stop_safe [OF that]]) (auto intro!: del simp: polled_def)
  have reg: "safe (bnd (register_event (Event fd Ev_Read PServer)) (\<lambda>ok.
       if \<not> ok then seq stop (seq (EpollPoller_delete ep) (ret True))
       else bnd (serve_loop k) (\<lambda>over.
         if \<not> over then ret False
         else seq (end_serving fd) (seq (EpollPoller_delete ep) (ret True))))) (\<lambda>_ t. server_inv t) t"
    if t: "polled t" "os t = os s" for fd ep t
    unfolding wpre_bnd [of "register_event _"]
    by (rule safe_keeps [OF register_server_polled raises_register conjI [OF t]])
      (simp add: refused loop del: wpre_seq wpre_bnd)
  show ?thesis
    unfolding serve_def wpre_seq [of start_serving] wpre_bnd [of "asks _"] wpre_asks
    by (rule wpre_mono [OF start_serving_safe [OF s(1)]]) (auto intro: reg)
qed

end
