(* ===== verification/Argparse.thy ===== *)
theory Argparse
  imports Decimal "HOL-Library.List_Lexorder" "HOL-Library.Product_Lexorder"
begin

section \<open>The argument parser\<close>

text \<open>
  \<open>server_cli/include/argparse/argparse.hpp\<close>, as far as the program reaches it: \<open>Argument\<close> with the
  functions that declare one and \<open>consume\<close>, \<open>validate\<close>, \<open>get\<close>; \<open>ArgumentParser\<close> with \<open>add_argument\<close>,
  \<open>preprocess_arguments\<close>, \<open>parse_args\<close> and \<open>get\<close>. The program declares no subparser and no
  group of exclusive arguments and never changes the prefix and assignment characters, so these
  are the constants of the class; help texts are only printed and left out.

  The arguments of a parser are one list in the order of declaration; the list nodes that the maps point to are
  positions in it. The results of the functions that may end the program are sums.
\<close>

subsection \<open>Values and failures\<close>

text \<open>
  \<open>std::any\<close> with the types that occur; \<open>std::exit\<close> ends the program, it is no exception; \<open>Undefined\<close> is undefined behaviour.
\<close>

datatype any = No_value | Any_string bytes | Any_chars bytes | Any_u16 u16 | Any_bool bool

datatype failure = Thrown bytes | Exits int | Undefined

type_synonym 'a result = "failure + 'a"

definition and_then :: "'a result \<Rightarrow> ('a \<Rightarrow> 'b result) \<Rightarrow> 'b result" where
  "and_then m f = (case m of Inl e \<Rightarrow> Inl e | Inr x \<Rightarrow> f x)"

lemma and_then_simps [simp]: "and_then (Inl e) f = Inl e" "and_then (Inr x) f = f x"
  by (simp_all add: and_then_def)

lemma and_then_cong [fundef_cong]:
  "m = m' \<Longrightarrow> (\<And>x. m' = Inr x \<Longrightarrow> f x = f' x) \<Longrightarrow> and_then m f = and_then m' f'"
  by (auto simp: and_then_def split: sum.splits)

primrec each_result :: "('a \<Rightarrow> 'b result) \<Rightarrow> 'a list \<Rightarrow> 'b list result" where
  "each_result f [] = Inr []"
| "each_result f (x # xs) = and_then (f x) (\<lambda>y. and_then (each_result f xs) (\<lambda>ys. Inr (y # ys)))"

text \<open>An action is called with each string of its argument; a valued one gives the value to keep.\<close>

datatype action = Valued "bytes \<Rightarrow> any result" | Voided "bytes \<Rightarrow> unit result"

definition quoted :: "byte \<Rightarrow> bytes \<Rightarrow> bytes" where
  "quoted q s = q # s @ [q]"

fun repr :: "any \<Rightarrow> bytes" where
  "repr (Any_bool b) = (if b then str ''true'' else str ''false'')"
| "repr (Any_string s) = quoted 34 s"
| "repr (Any_chars s) = quoted 34 s"
| "repr (Any_u16 n) = dec (unat n)"
| "repr No_value = str ''<not representable>''"

subsection \<open>Numbers\<close>

text \<open>
  \<open>std::from_chars\<close> for \<open>uint16_t\<close> and base 10: the digits at the start, as many as there are; it takes no sign.
\<close>

datatype 'a from_chars = Parsed 'a bytes | Invalid_argument | Result_out_of_range

definition from_chars :: "bytes \<Rightarrow> u16 from_chars" where
  "from_chars s = (let ds = takeWhile is_digit s; n = read_dec ds in
     if ds = [] then Invalid_argument
     else if n > 65535 then Result_out_of_range
     else Parsed (of_nat n) (dropWhile is_digit s))"

definition do_from_chars :: "bytes \<Rightarrow> u16 result" where
  "do_from_chars s = (case from_chars s of
     Parsed x rest \<Rightarrow> if rest = [] then Inr x
       else Inl (Thrown (str ''pattern '' @ quoted 39 s @ str '' does not match to the end''))
   | Invalid_argument \<Rightarrow> Inl (Thrown (str ''pattern '' @ quoted 39 s @ str '' not found''))
   | Result_out_of_range \<Rightarrow> Inl (Thrown (quoted 39 s @ str '' not representable'')))"

definition parse_number :: "bytes \<Rightarrow> any result" where
  "parse_number s = and_then (do_from_chars s) (\<lambda>x. Inr (Any_u16 x))"

subsection \<open>Positional and optional arguments\<close>

text \<open>\<open>is_decimal_literal\<close>; its labels are functions of the rest of the string.\<close>

definition consume_digits :: "bytes \<Rightarrow> bytes" where
  "consume_digits s = dropWhile is_digit s"

definition at_digit :: "bytes \<Rightarrow> bool" where
  "at_digit s \<longleftrightarrow> s \<noteq> [] \<and> is_digit (hd s)"

definition post_e :: "bytes \<Rightarrow> bool" where
  "post_e s = (let s = (case s of [] \<Rightarrow> [] | c # r \<Rightarrow> if c = 45 \<or> c = 43 then r else s) in
     at_digit s \<and> consume_digits s = [])"

definition exponent_part_opt :: "bytes \<Rightarrow> bool" where
  "exponent_part_opt s = (case s of [] \<Rightarrow> True | c # r \<Rightarrow> (c = 101 \<or> c = 69) \<and> post_e r)"

definition post_decimal_point :: "bytes \<Rightarrow> bool" where
  "post_decimal_point s \<longleftrightarrow> at_digit s \<and> exponent_part_opt (consume_digits s)"

definition integer_part_consumed :: "bytes \<Rightarrow> bool" where
  "integer_part_consumed s = (case s of [] \<Rightarrow> False
   | c # r \<Rightarrow> if c = 46 then (if at_digit r then post_decimal_point r else exponent_part_opt r)
       else (c = 101 \<or> c = 69) \<and> post_e r)"

definition is_decimal_literal :: "bytes \<Rightarrow> bool" where
  "is_decimal_literal s = (case s of [] \<Rightarrow> False
   | c # r \<Rightarrow> if c = 48 then r = [] \<or> integer_part_consumed (consume_digits r)
       else if is_digit c then consume_digits s = [] \<or> integer_part_consumed (consume_digits s)
       else c = 46 \<and> post_decimal_point r)"

definition prefix_chars :: "byte set" where "prefix_chars = {45}"
definition assign_chars :: "byte set" where "assign_chars = {61}"

definition is_positional :: "bytes \<Rightarrow> bool" where
  "is_positional name = (case name of [] \<Rightarrow> True
   | c # r \<Rightarrow> if c \<in> prefix_chars then r = [] \<or> is_decimal_literal r else True)"

definition is_optional :: "bytes \<Rightarrow> bool" where
  "is_optional name \<longleftrightarrow> \<not> is_positional name"

subsection \<open>Declaring an argument\<close>

text \<open>The range of the number of values; \<open>size_max\<close>, the largest \<open>size_t\<close>, means that there is no bound.\<close>

definition size_max :: nat where "size_max = 2 ^ 64 - 1"

record argument =
  m_names :: "bytes list"
  m_default_value :: any
  m_default_value_repr :: bytes
  m_default_value_str :: "bytes option"
  m_implicit_value :: any
  m_choices :: "bytes list option"
  m_actions :: "action list"
  m_num_args_range :: "nat \<times> nat"
  m_accepts_optional_like_value :: bool
  m_is_optional :: bool
  m_is_required :: bool
  m_is_repeatable :: bool
  m_used_name :: bytes
  m_values :: "any list"
  m_is_used :: bool

definition Argument :: "bytes list \<Rightarrow> argument" where
  "Argument names = \<lparr>m_names = sort_key (\<lambda>n. (length n, n)) names, m_default_value = No_value,
     m_default_value_repr = [], m_default_value_str = None, m_implicit_value = No_value,
     m_choices = None, m_actions = [], m_num_args_range = (1, 1), m_accepts_optional_like_value = False,
     m_is_optional = list_ex is_optional names, m_is_required = False, m_is_repeatable = False,
     m_used_name = [], m_values = [], m_is_used = False\<rparr>"

fun default_value_str :: "any \<Rightarrow> bytes option" where
  "default_value_str (Any_string s) = Some s"
| "default_value_str (Any_chars s) = Some s"
| "default_value_str (Any_u16 n) = Some (dec (unat n))"
| "default_value_str (Any_bool b) = Some (if b then [49] else [48])"
| "default_value_str No_value = None"

definition default_value :: "any \<Rightarrow> argument \<Rightarrow> argument" where
  "default_value v a = a\<lparr>m_num_args_range := (0, snd (m_num_args_range a)),
     m_default_value_repr := repr v, m_default_value_str := default_value_str v, m_default_value := v\<rparr>"

definition implicit_value :: "any \<Rightarrow> argument \<Rightarrow> argument" where
  "implicit_value v a = a\<lparr>m_implicit_value := v, m_num_args_range := (0, 0)\<rparr>"

definition flag :: "argument \<Rightarrow> argument" where
  "flag a = implicit_value (Any_bool True) (default_value (Any_bool False) a)"

definition action :: "action \<Rightarrow> argument \<Rightarrow> argument" where
  "action f a = a\<lparr>m_actions := m_actions a @ [f]\<rparr>"

text \<open>\<open>scan<'d', uint16_t>\<close>\<close>

definition scan :: "argument \<Rightarrow> argument" where
  "scan a = action (Valued parse_number) a"

definition nargs :: "nat \<Rightarrow> argument \<Rightarrow> argument" where
  "nargs n a = a\<lparr>m_num_args_range := (n, n)\<rparr>"

definition add_choice :: "bytes \<Rightarrow> argument \<Rightarrow> argument" where
  "add_choice c a = a\<lparr>m_choices := Some ((case m_choices a of None \<Rightarrow> [] | Some cs \<Rightarrow> cs) @ [c])\<rparr>"

definition choices :: "bytes list \<Rightarrow> argument \<Rightarrow> argument" where
  "choices cs a = fold add_choice cs a"

subsection \<open>Consuming values\<close>

definition choices_as_csv :: "bytes list \<Rightarrow> bytes" where
  "choices_as_csv cs = foldl (\<lambda>a b. a @ (if a = [] then [] else str '', '') @ b) [] cs"

definition invalid_argument :: "bytes list \<Rightarrow> bytes \<Rightarrow> bytes" where
  "invalid_argument cs v = str ''Invalid argument '' @ repr (Any_string v)
     @ str '' - allowed options: {'' @ choices_as_csv cs @ str ''}''"

text \<open>
  With choices, the values are counted that are choices; the check runs to the end of the command line unless it
  meets another string when the count is in the range.
\<close>

fun count_choices :: "bytes list \<Rightarrow> nat \<times> nat \<Rightarrow> bytes list \<Rightarrow> nat \<Rightarrow> nat result" where
  "count_choices cs r [] passed = Inr passed"
| "count_choices cs r (v # vs) passed =
     (if v \<in> set cs then count_choices cs r vs (passed + 1)
      else if passed \<ge> fst r \<and> passed \<le> snd r then Inr passed
      else Inl (Thrown (invalid_argument cs v)))"

definition too_few :: "bytes \<Rightarrow> 'a result" where
  "too_few name = Inl (Thrown (str ''Too few arguments for '' @ quoted 39 name @ str ''.''))"

text \<open>\<open>m_default_action\<close> keeps the string itself.\<close>

definition actions_of :: "argument \<Rightarrow> action list" where
  "actions_of a = (if m_actions a = [] then [Valued (\<lambda>s. Inr (Any_string s))] else m_actions a)"

text \<open>The actions of an argument without values are called with an empty string, for their effects only.\<close>

fun call_action :: "action \<Rightarrow> unit result" where
  "call_action (Valued f) = and_then (f []) (\<lambda>_. Inr ())"
| "call_action (Voided f) = f []"

definition resize :: "nat \<Rightarrow> any list \<Rightarrow> any list" where
  "resize n xs = take n xs @ replicate (n - length xs) No_value"

fun apply_action :: "bytes list \<Rightarrow> action \<Rightarrow> argument \<Rightarrow> argument result" where
  "apply_action vs (Valued f) a = and_then (each_result f vs) (\<lambda>ws. Inr (a\<lparr>m_values := m_values a @ ws\<rparr>))"
| "apply_action vs (Voided f) a = and_then (each_result f vs) (\<lambda>_.
     Inr (if m_default_value a = No_value \<and> \<not> m_accepts_optional_like_value a
          then a\<lparr>m_values := resize (length vs) (m_values a)\<rparr> else a))"

primrec apply_actions :: "bytes list \<Rightarrow> action list \<Rightarrow> argument \<Rightarrow> argument result" where
  "apply_actions vs [] a = Inr a"
| "apply_actions vs (f # fs) a = and_then (apply_action vs f a) (apply_actions vs fs)"

text \<open>
  \<open>consume\<close> on the strings from \<open>start\<close> to \<open>end\<close>; the result has those from the returned iterator on.
\<close>

definition consume :: "bytes list \<Rightarrow> bytes \<Rightarrow> argument \<Rightarrow> (argument \<times> bytes list) result" where
  "consume strings used_name a =
     (if \<not> m_is_repeatable a \<and> m_is_used a then Inl (Thrown (str ''Duplicate argument '' @ used_name)) else
      let a = a\<lparr>m_used_name := used_name\<rparr>; num_args_min = fst (m_num_args_range a) in
      and_then (case m_choices a of None \<Rightarrow> Inr (snd (m_num_args_range a))
          | Some cs \<Rightarrow> count_choices cs (m_num_args_range a) strings 0) (\<lambda>num_args_max.
      if num_args_max = 0 then
        and_then (each_result call_action (actions_of a)) (\<lambda>_.
        Inr (a\<lparr>m_values := m_values a @ [m_implicit_value a], m_is_used := True\<rparr>, strings))
      else if length strings \<ge> num_args_min then
        (let upto = take num_args_max strings;
             values = (if m_accepts_optional_like_value a then upto else takeWhile is_positional upto) in
         if \<not> m_accepts_optional_like_value a \<and> length values < num_args_min then too_few used_name
         else and_then (apply_actions values (actions_of a) a) (\<lambda>a.
           Inr (a\<lparr>m_is_used := True\<rparr>, drop (length values) strings)))
      else if m_default_value a \<noteq> No_value then Inr (a\<lparr>m_is_used := True\<rparr>, strings)
      else too_few used_name))"

lemma consume_length: "consume ss n a = Inr (a', rest) \<Longrightarrow> length rest \<le> length ss"
  by (auto simp: consume_def and_then_def Let_def too_few_def split: if_splits sum.splits)

subsection \<open>Validation and results\<close>

text \<open>The argument is used by its longest name in messages of the parser; \<open>m_names\<close> is sorted by length.\<close>

definition find_default_value_in_choices_or_throw :: "argument \<Rightarrow> unit result" where
  "find_default_value_in_choices_or_throw a = (case m_choices a of
     None \<Rightarrow> Inl (Thrown (str ''bad optional access''))
   | Some cs \<Rightarrow>
       if m_default_value a \<noteq> No_value \<and> \<not> (\<exists>c \<in> set cs. m_default_value_str a = Some c) then
         Inl (Thrown (str ''Invalid default value '' @ m_default_value_repr a
           @ str '' - allowed options: {'' @ choices_as_csv cs @ str ''}''))
       else Inr ())"

definition nargs_range_error :: "argument \<Rightarrow> bytes" where
  "nargs_range_error a = (let (low, high) = m_num_args_range a in
     (if m_used_name a \<noteq> [] then m_used_name a else hd (m_names a)) @ str '': ''
     @ (if low = high then dec low
        else if high < size_max then dec low @ str '' to '' @ dec high
        else dec low @ str '' or more'')
     @ str '' argument(s) expected. '' @ dec (length (m_values a)) @ str '' provided.'')"

definition validate :: "argument \<Rightarrow> unit result" where
  "validate a =
     and_then (if m_is_optional a then
         if \<not> m_is_used a \<and> m_default_value a = No_value \<and> m_is_required a
         then Inl (Thrown (hd (m_names a) @ str '': required.''))
         else if m_is_used a \<and> m_is_required a \<and> m_values a = []
         then Inl (Thrown (m_used_name a @ str '': no value provided.''))
         else Inr ()
       else if \<not> (fst (m_num_args_range a) \<le> length (m_values a) \<and> length (m_values a) \<le> snd (m_num_args_range a))
           \<and> m_default_value a = No_value
         then Inl (Thrown (nargs_range_error a))
         else Inr ()) (\<lambda>_.
     if m_choices a \<noteq> None then find_default_value_in_choices_or_throw a else Inr ())"

text \<open>\<open>std::any_cast\<close> for the types the program asks for, and \<open>get\<close>.\<close>

definition bad_any_cast :: failure where
  "bad_any_cast = Thrown (str ''bad any_cast'')"

fun any_string :: "any \<Rightarrow> bytes result" where
  "any_string (Any_string s) = Inr s" | "any_string _ = Inl bad_any_cast"

fun any_u16 :: "any \<Rightarrow> u16 result" where
  "any_u16 (Any_u16 n) = Inr n" | "any_u16 _ = Inl bad_any_cast"

fun any_bool :: "any \<Rightarrow> bool result" where
  "any_bool (Any_bool b) = Inr b" | "any_bool _ = Inl bad_any_cast"

definition Argument_get :: "(any \<Rightarrow> 'a result) \<Rightarrow> argument \<Rightarrow> 'a result" where
  "Argument_get cast a =
     (if m_values a \<noteq> [] then cast (hd (m_values a))
      else if m_default_value a \<noteq> No_value then cast (m_default_value a)
      else Inl (Thrown (str ''No value provided for '' @ quoted 39 (last (m_names a)) @ str ''.'')))"

definition names_csv :: "bytes \<Rightarrow> argument \<Rightarrow> bytes" where
  "names_csv sep a = foldl (\<lambda>r n. if r = [] then n else r @ sep @ n) [] (m_names a)"

definition usage_full :: "argument \<Rightarrow> bytes" where
  "usage_full a = names_csv (str ''/'') a
     @ (if snd (m_num_args_range a) > 0 then str '' VAR'' @ (if snd (m_num_args_range a) > 1 then str ''...'' else []) else [])"

subsection \<open>The parser\<close>

record parser =
  m_arguments :: "argument list"
  m_is_parsed :: bool

text \<open>\<open>m_argument_map\<close>: the argument declared last with a name.\<close>

definition find_argument :: "parser \<Rightarrow> bytes \<Rightarrow> nat option" where
  "find_argument p name =
     (case filter (\<lambda>i. name \<in> set (m_names (m_arguments p ! i))) [0..<length (m_arguments p)] of
        [] \<Rightarrow> None | is \<Rightarrow> Some (last is))"

definition positional_arguments :: "parser \<Rightarrow> nat list" where
  "positional_arguments p = filter (\<lambda>i. \<not> m_is_optional (m_arguments p ! i)) [0..<length (m_arguments p)]"

definition optional_arguments :: "parser \<Rightarrow> argument list" where
  "optional_arguments p = filter m_is_optional (m_arguments p)"

definition add_argument :: "argument \<Rightarrow> parser \<Rightarrow> parser" where
  "add_argument a p = p\<lparr>m_arguments := m_arguments p @ [a]\<rparr>"

text \<open>The constructor adds the two arguments that print a text and exit.\<close>

definition ArgumentParser :: parser where
  "ArgumentParser =
     add_argument (nargs 0 (implicit_value (Any_bool True) (default_value (Any_bool False)
       (action (Voided (\<lambda>_. Inl (Exits 0))) (Argument [str ''-v'', str ''--version''])))))
     (add_argument (nargs 0 (implicit_value (Any_bool True) (default_value (Any_bool False)
       (action (Voided (\<lambda>_. Inl (Exits 0))) (Argument [str ''-h'', str ''--help''])))))
     \<lparr>m_arguments = [], m_is_parsed = False\<rparr>)"

subsection \<open>Parsing\<close>

text \<open>
  \<open>preprocess_arguments\<close> splits \<open>--name=value\<close> for the name of an argument. (The slash is no prefix
  character, so only names with two prefix characters are looked at.)
\<close>

definition argument_starts_with_prefix_chars :: "bytes \<Rightarrow> bool" where
  "argument_starts_with_prefix_chars a = (case a of
     c # d # _ \<Rightarrow> c \<in> prefix_chars \<and> d \<in> prefix_chars | _ \<Rightarrow> False)"

definition preprocess_argument :: "parser \<Rightarrow> bytes \<Rightarrow> bytes list" where
  "preprocess_argument p arg =
     (let opt_name = takeWhile (\<lambda>c. c \<notin> assign_chars) arg; found = opt_name \<noteq> arg in
      if find_argument p arg = None \<and> argument_starts_with_prefix_chars arg \<and> found
         \<and> find_argument p opt_name \<noteq> None
      then [opt_name, drop (length opt_name + 1) arg]
      else [arg])"

definition preprocess_arguments :: "parser \<Rightarrow> bytes list \<Rightarrow> bytes list" where
  "preprocess_arguments p raw_arguments = concat (map (preprocess_argument p) raw_arguments)"

text \<open>An argument consumes strings and is updated in place.\<close>

definition consume_at :: "parser \<Rightarrow> nat \<Rightarrow> bytes list \<Rightarrow> bytes \<Rightarrow> (parser \<times> bytes list) result" where
  "consume_at p i strings used_name = and_then (consume strings used_name (m_arguments p ! i)) (\<lambda>(a, rest).
     Inr (p\<lparr>m_arguments := (m_arguments p)[i := a]\<rparr>, rest))"

text \<open>The letters of a compound argument, each an argument of its own.\<close>

fun parse_compound :: "bytes \<Rightarrow> bytes \<Rightarrow> parser \<Rightarrow> bytes list \<Rightarrow> (parser \<times> bytes list) result" where
  "parse_compound current [] p strings = Inr (p, strings)"
| "parse_compound current (c # cs) p strings = (case find_argument p [45, c] of
     Some i \<Rightarrow> and_then (consume_at p i strings [45, c]) (\<lambda>(p, strings). parse_compound current cs p strings)
   | None \<Rightarrow> Inl (Thrown (str ''Unknown argument: '' @ current)))"

definition unexpected_positional :: "parser \<Rightarrow> bytes \<Rightarrow> 'a result" where
  "unexpected_positional p current = Inl (Thrown
     (if positional_arguments p = [] then
        (case filter (\<lambda>a. m_implicit_value a = No_value \<and> \<not> m_is_used a) (optional_arguments p) of
           [] \<Rightarrow> str ''Zero positional arguments expected''
         | a # _ \<Rightarrow> str ''Zero positional arguments expected, did you mean '' @ usage_full a)
      else str ''Maximum number of positional arguments exceeded, failed to parse '' @ quoted 39 current))"

text \<open>Before a positional argument without bound the one that follows it takes the last string.\<close>

definition greedy :: "parser \<Rightarrow> nat \<Rightarrow> nat list \<Rightarrow> nat option" where
  "greedy p i next_ones = (case next_ones of
     [j] \<Rightarrow> if m_num_args_range (m_arguments p ! i) = (1, size_max) \<and> m_num_args_range (m_arguments p ! j) = (1, 1)
       then Some j else None
   | _ \<Rightarrow> None)"

definition give_last :: "parser \<Rightarrow> nat \<Rightarrow> nat list \<Rightarrow> bytes list \<Rightarrow> (parser \<times> bytes list) result" where
  "give_last p i next_ones strings = (case greedy p i next_ones of
     None \<Rightarrow> Inr (p, strings)
   | Some j \<Rightarrow> if length strings > 1
       then and_then (consume_at p j [last strings] []) (\<lambda>(p, _). Inr (p, butlast strings))
       else Inl (Thrown (str ''Missing '' @ hd (m_names (m_arguments p ! j)))))"

lemma consume_at_length: "consume_at p i ss n = Inr (q, rest) \<Longrightarrow> length rest \<le> length ss"
  by (auto simp: consume_at_def and_then_def split: sum.splits dest: consume_length)

lemma parse_compound_length: "parse_compound c cs p ss = Inr (q, rest) \<Longrightarrow> length rest \<le> length ss"
proof (induction c cs p ss arbitrary: q rest rule: parse_compound.induct)
  case (2 current c cs p strings)
  then obtain i p' s where "consume_at p i strings [45, c] = Inr (p', s)"
      "find_argument p [45, c] = Some i" "parse_compound current cs p' s = Inr (q, rest)"
    by (auto simp: and_then_def split: sum.splits option.splits)
  with 2 show ?case by (fastforce dest: consume_at_length)
qed simp

lemma give_last_length: "give_last p i js ss = Inr (q, rest) \<Longrightarrow> length rest \<le> length ss"
  by (auto simp: give_last_def and_then_def split: sum.splits option.splits if_splits)

text \<open>\<open>parse_args_internal\<close>: the loop, with the positional arguments that are left.\<close>

function parse_loop :: "nat list \<Rightarrow> bytes list \<Rightarrow> parser \<Rightarrow> parser result" where
  "parse_loop positionals [] p = Inr (p\<lparr>m_is_parsed := True\<rparr>)"
| "parse_loop positionals (current # strings) p =
     (if is_positional current then
        (case positionals of
           [] \<Rightarrow> unexpected_positional p current
         | i # positionals \<Rightarrow> and_then (give_last p i positionals (current # strings)) (\<lambda>(p, strings).
             and_then (consume_at p i strings []) (\<lambda>(p, strings). parse_loop positionals strings p)))
      else case find_argument p current of
        Some i \<Rightarrow> and_then (consume_at p i strings current) (\<lambda>(p, strings). parse_loop positionals strings p)
      | None \<Rightarrow> (case current of
          c # d # ds \<Rightarrow> if c \<in> prefix_chars \<and> d \<notin> prefix_chars
            then and_then (parse_compound current (d # ds) p strings) (\<lambda>(p, strings). parse_loop positionals strings p)
            else Inl (Thrown (str ''Unknown argument: '' @ current))
        | _ \<Rightarrow> Inl (Thrown (str ''Unknown argument: '' @ current))))"
  by pat_completeness auto
termination
  by (relation "measure (\<lambda>(positionals, strings, _). length positionals + length strings)")
    (auto simp del: parse_compound.simps dest!: consume_at_length parse_compound_length give_last_length)

text \<open>The first string is the name of the program; without it the loop starts behind the end.\<close>

definition parse_args_internal :: "bytes list \<Rightarrow> parser \<Rightarrow> parser result" where
  "parse_args_internal raw_arguments p = (case preprocess_arguments p raw_arguments of
     [] \<Rightarrow> Inl Undefined
   | _ # strings \<Rightarrow> parse_loop (positional_arguments p) strings p)"

definition map_order :: "parser \<Rightarrow> argument list" where
  "map_order p = map (\<lambda>n. m_arguments p ! the (find_argument p n)) (sort (remdups (concat (map m_names (m_arguments p)))))"

definition parse_args :: "bytes list \<Rightarrow> parser \<Rightarrow> parser result" where
  "parse_args arguments p = and_then (parse_args_internal arguments p) (\<lambda>p.
     and_then (each_result validate (map_order p)) (\<lambda>_. Inr p))"

text \<open>\<open>operator[]\<close>, which looks at the first character of an unknown name, and \<open>get\<close>.\<close>

definition at_name :: "parser \<Rightarrow> bytes \<Rightarrow> argument result" where
  "at_name p arg_name = (case find_argument p arg_name of
     Some i \<Rightarrow> Inr (m_arguments p ! i)
   | None \<Rightarrow>
       (if arg_name = [] then Inl Undefined
        else if hd arg_name \<in> prefix_chars then Inl (Thrown (str ''No such argument: '' @ arg_name))
        else (case find_argument p (45 # arg_name) of
          Some i \<Rightarrow> Inr (m_arguments p ! i)
        | None \<Rightarrow> (case find_argument p (45 # 45 # arg_name) of
            Some i \<Rightarrow> Inr (m_arguments p ! i)
          | None \<Rightarrow> Inl (Thrown (str ''No such argument: '' @ arg_name))))))"

definition parser_get :: "(any \<Rightarrow> 'a result) \<Rightarrow> parser \<Rightarrow> bytes \<Rightarrow> 'a result" where
  "parser_get cast p arg_name =
     (if \<not> m_is_parsed p then Inl (Thrown (str ''Nothing parsed, no arguments are available.''))
      else and_then (at_name p arg_name) (Argument_get cast))"

end
