(* ===== verification/CommandLine.thy ===== *)
theory CommandLine
  imports Argparse
begin

section \<open>The command line\<close>

text \<open>
  \<open>parse_params\<close> of \<open>server_cli/src/cli.cxx\<close>: the options the program declares, in order, and what it makes of
  them. Logging is compiled in, as by default. The names of the options are those of the
  source; help texts are left out.
\<close>

definition option_string :: "string \<Rightarrow> string \<Rightarrow> argument" where
  "option_string name v = nargs 1 (default_value (Any_string (str v)) (Argument [str name]))"

definition option_port :: "string \<Rightarrow> u16 \<Rightarrow> argument" where
  "option_port name v = nargs 1 (scan (default_value (Any_u16 v) (Argument [str name])))"

definition option_flag :: "string \<Rightarrow> argument" where
  "option_flag name = flag (Argument [str name])"

definition log_levels :: "bytes list" where
  "log_levels = map str [''off'', ''error'', ''warning'', ''info'', ''debug'']"

definition cli_parser :: parser where
  "cli_parser = fold add_argument
     [option_string ''--listen-ip'' ''0.0.0.0'',
      option_port ''--listen-port'' 1080,
      option_string ''--username'' '''',
      option_string ''--password'' '''',
      nargs 1 (implicit_value (Any_chars (str ''none''))
        (default_value (Any_string (str ''auto'')) (Argument [str ''--dns-ip'']))),
      option_port ''--dns-port'' 53,
      option_flag ''--client-tcp-nodelay'',
      option_flag ''--client-tcp-keepalive'',
      option_flag ''--remote-tcp-nodelay'',
      option_flag ''--remote-tcp-keepalive'',
      nargs 1 (choices log_levels (default_value (Any_string (str ''off'')) (Argument [str ''--log-level''])))]
     ArgumentParser"

text \<open>An exception of \<open>parse_args\<close> is caught and ends the program; one of \<open>get\<close> is not caught.\<close>

definition exit_on_exception :: "'a result \<Rightarrow> 'a result" where
  "exit_on_exception m = (case m of Inl (Thrown _) \<Rightarrow> Inl (Exits (- 1)) | _ \<Rightarrow> m)"

definition read_params :: "parser \<Rightarrow> (server_params \<times> log_level) result" where
  "read_params p =
     and_then (parser_get any_string p (str ''--listen-ip'')) (\<lambda>ip.
     and_then (parser_get any_u16 p (str ''--listen-port'')) (\<lambda>port.
     and_then (parser_get any_string p (str ''--username'')) (\<lambda>user.
     and_then (parser_get any_string p (str ''--password'')) (\<lambda>pass.
     and_then (parser_get any_string p (str ''--dns-ip'')) (\<lambda>dip.
     and_then (parser_get any_u16 p (str ''--dns-port'')) (\<lambda>dport.
     and_then (parser_get any_bool p (str ''--client-tcp-nodelay'')) (\<lambda>cn.
     and_then (parser_get any_bool p (str ''--client-tcp-keepalive'')) (\<lambda>ck.
     and_then (parser_get any_bool p (str ''--remote-tcp-nodelay'')) (\<lambda>rn.
     and_then (parser_get any_bool p (str ''--remote-tcp-keepalive'')) (\<lambda>rk.
     and_then (parser_get any_string p (str ''--log-level'')) (\<lambda>level.
     Inr (\<lparr>listen_ip = ip, listen_port = port, username = user, password = pass, dns_ip = dip, dns_port = dport,
         client_tcp_nodelay = cn, client_tcp_keepalive = ck, remote_tcp_nodelay = rn, remote_tcp_keepalive = rk\<rparr>,
       log_level_of level))))))))))))"

definition parse_params :: "bytes list \<Rightarrow> (server_params \<times> log_level) result" where
  "parse_params argv = and_then (exit_on_exception (parse_args argv cli_parser)) read_params"

subsection \<open>Settings\<close>

text \<open>An option with its value, as it is written on the command line, apart or joined with an equals sign.\<close>

datatype setting =
    Listen_ip bytes | Listen_port u16 | Username bytes | Password bytes | Dns_ip bytes | Dns_port u16
  | Client_nodelay | Client_keepalive | Remote_nodelay | Remote_keepalive | Level log_level

fun option_name :: "setting \<Rightarrow> string" where
  "option_name (Listen_ip _) = ''--listen-ip''"
| "option_name (Listen_port _) = ''--listen-port''"
| "option_name (Username _) = ''--username''"
| "option_name (Password _) = ''--password''"
| "option_name (Dns_ip _) = ''--dns-ip''"
| "option_name (Dns_port _) = ''--dns-port''"
| "option_name Client_nodelay = ''--client-tcp-nodelay''"
| "option_name Client_keepalive = ''--client-tcp-keepalive''"
| "option_name Remote_nodelay = ''--remote-tcp-nodelay''"
| "option_name Remote_keepalive = ''--remote-tcp-keepalive''"
| "option_name (Level _) = ''--log-level''"

fun level_name :: "log_level \<Rightarrow> bytes" where
  "level_name Off = str ''off''"
| "level_name Error = str ''error''"
| "level_name Warning = str ''warning''"
| "level_name Info = str ''info''"
| "level_name Debug = str ''debug''"

fun setting_value :: "setting \<Rightarrow> bytes option" where
  "setting_value (Listen_ip v) = Some v"
| "setting_value (Listen_port n) = Some (dec (unat n))"
| "setting_value (Username v) = Some v"
| "setting_value (Password v) = Some v"
| "setting_value (Dns_ip v) = Some v"
| "setting_value (Dns_port n) = Some (dec (unat n))"
| "setting_value (Level l) = Some (level_name l)"
| "setting_value _ = None"

definition spell :: "bool \<Rightarrow> setting \<Rightarrow> bytes list" where
  "spell eq s = (case setting_value s of
     None \<Rightarrow> [str (option_name s)]
   | Some v \<Rightarrow> if eq then [str (option_name s) @ 61 # v] else [str (option_name s), v])"

text \<open>What a setting is meant to do.\<close>

fun apply_setting :: "setting \<Rightarrow> server_params \<times> log_level \<Rightarrow> server_params \<times> log_level" where
  "apply_setting (Listen_ip v) (p, l) = (p\<lparr>listen_ip := v\<rparr>, l)"
| "apply_setting (Listen_port n) (p, l) = (p\<lparr>listen_port := n\<rparr>, l)"
| "apply_setting (Username v) (p, l) = (p\<lparr>username := v\<rparr>, l)"
| "apply_setting (Password v) (p, l) = (p\<lparr>password := v\<rparr>, l)"
| "apply_setting (Dns_ip v) (p, l) = (p\<lparr>dns_ip := v\<rparr>, l)"
| "apply_setting (Dns_port n) (p, l) = (p\<lparr>dns_port := n\<rparr>, l)"
| "apply_setting Client_nodelay (p, l) = (p\<lparr>client_tcp_nodelay := True\<rparr>, l)"
| "apply_setting Client_keepalive (p, l) = (p\<lparr>client_tcp_keepalive := True\<rparr>, l)"
| "apply_setting Remote_nodelay (p, l) = (p\<lparr>remote_tcp_nodelay := True\<rparr>, l)"
| "apply_setting Remote_keepalive (p, l) = (p\<lparr>remote_tcp_keepalive := True\<rparr>, l)"
| "apply_setting (Level l') (p, l) = (p, l')"

definition default_settings :: "server_params \<times> log_level" where
  "default_settings = (\<lparr>listen_ip = str ''0.0.0.0'', listen_port = 1080, username = [], password = [],
     dns_ip = str ''auto'', dns_port = 53, client_tcp_nodelay = False, client_tcp_keepalive = False,
     remote_tcp_nodelay = False, remote_tcp_keepalive = False\<rparr>, Off)"

text \<open>A value that the parser does not take for an option.\<close>

definition sayable :: "setting \<Rightarrow> bool" where
  "sayable s = (case setting_value s of None \<Rightarrow> True | Some v \<Rightarrow> is_positional v)"

subsection \<open>The declared options\<close>

lemma cli_names: "map m_names (m_arguments cli_parser) = map (map str)
    [[''-h'', ''--help''], [''-v'', ''--version''], [''--listen-ip''], [''--listen-port''], [''--username''],
     [''--password''], [''--dns-ip''], [''--dns-port''], [''--client-tcp-nodelay''], [''--client-tcp-keepalive''],
     [''--remote-tcp-nodelay''], [''--remote-tcp-keepalive''], [''--log-level'']]"
  by code_simp

text \<open>What \<open>consume\<close> changes of an argument, set back.\<close>

definition fresh :: "argument \<Rightarrow> argument" where
  "fresh a = a\<lparr>m_used_name := [], m_values := [], m_is_used := False\<rparr>"

text \<open>A parser with the declared options, some of which have been given.\<close>

definition cli :: "parser \<Rightarrow> bool" where
  "cli p \<longleftrightarrow> map fresh (m_arguments p) = m_arguments cli_parser \<and> (\<forall>a \<in> set (m_arguments p). \<not> m_is_used a \<longrightarrow> m_values a = [])"

fun option_index :: "setting \<Rightarrow> nat" where
  "option_index (Listen_ip _) = 2"
| "option_index (Listen_port _) = 3"
| "option_index (Username _) = 4"
| "option_index (Password _) = 5"
| "option_index (Dns_ip _) = 6"
| "option_index (Dns_port _) = 7"
| "option_index Client_nodelay = 8"
| "option_index Client_keepalive = 9"
| "option_index Remote_nodelay = 10"
| "option_index Remote_keepalive = 11"
| "option_index (Level _) = 12"

definition option_at :: "setting \<Rightarrow> argument" where
  "option_at s = m_arguments cli_parser ! option_index s"

lemma length_cli: "length (m_arguments cli_parser) = 13"
  using arg_cong [OF cli_names, of length] by simp

lemma cli_length: "cli p \<Longrightarrow> length (m_arguments p) = 13"
  unfolding cli_def using length_cli by (auto dest!: arg_cong [of _ _ length])

lemma fresh_names: "m_names (fresh a) = m_names a" by (simp add: fresh_def)

lemma find_argument_names: "map m_names (m_arguments p) = map m_names (m_arguments q) \<Longrightarrow> find_argument p n = find_argument q n"
proof -
  assume e: "map m_names (m_arguments p) = map m_names (m_arguments q)"
  then have l: "length (m_arguments p) = length (m_arguments q)" by (rule map_eq_imp_length_eq)
  have "m_names (m_arguments p ! i) = m_names (m_arguments q ! i)" if "i < length (m_arguments q)" for i
    using arg_cong [OF e, of "\<lambda>l. l ! i"] that l by simp
  then have "filter (\<lambda>i. n \<in> set (m_names (m_arguments p ! i))) [0..<length (m_arguments q)]
      = filter (\<lambda>i. n \<in> set (m_names (m_arguments q ! i))) [0..<length (m_arguments q)]"
    by (intro filter_cong) auto
  then show ?thesis by (simp add: find_argument_def l)
qed

lemma cli_find: "cli p \<Longrightarrow> find_argument p n = find_argument cli_parser n"
proof (rule find_argument_names)
  assume "cli p"
  then have "map m_names (map fresh (m_arguments p)) = map m_names (m_arguments cli_parser)" by (simp add: cli_def)
  then show "map m_names (m_arguments p) = map m_names (m_arguments cli_parser)"
    by (simp add: comp_def fresh_names)
qed

lemma str_eq [simp]: "str a = str b \<longleftrightarrow> a = b"
proof -
  have "inj (\<lambda>c :: char. of_nat (of_char c) :: byte)"
  proof (rule injI)
    fix c d :: char
    assume "(of_nat (of_char c) :: byte) = of_nat (of_char d)"
    then have "(of_char c :: nat) mod 2 ^ 8 = of_char d mod 2 ^ 8"
      by (simp add: word_of_nat_eq_iff take_bit_eq_mod)
    then show "c = d" by simp
  qed
  then show ?thesis by (simp add: str_def inj_eq inj_map)
qed

lemma find_option: "find_argument cli_parser (str (option_name s)) = Some (option_index s)"
proof -
  have "m_names (m_arguments cli_parser ! i) = map (map str)
      [[''-h'', ''--help''], [''-v'', ''--version''], [''--listen-ip''], [''--listen-port''], [''--username''],
       [''--password''], [''--dns-ip''], [''--dns-port''], [''--client-tcp-nodelay''], [''--client-tcp-keepalive''],
       [''--remote-tcp-nodelay''], [''--remote-tcp-keepalive''], [''--log-level'']] ! i" if "i < 13" for i
    using arg_cong [OF cli_names, of "\<lambda>l. l ! i"] that by (simp add: length_cli)
  then have "filter (\<lambda>i. n \<in> set (m_names (m_arguments cli_parser ! i))) [0..<13] = filter (\<lambda>i. n \<in> set (map (map str)
      [[''-h'', ''--help''], [''-v'', ''--version''], [''--listen-ip''], [''--listen-port''], [''--username''],
       [''--password''], [''--dns-ip''], [''--dns-port''], [''--client-tcp-nodelay''], [''--client-tcp-keepalive''],
       [''--remote-tcp-nodelay''], [''--remote-tcp-keepalive''], [''--log-level'']] ! i)) [0..<13]" for n
    by (intro filter_cong) auto
  then show ?thesis by (cases s) (simp_all add: find_argument_def length_cli upt_rec)
qed

text \<open>The declaration of an option, and that an argument of a parser is declared like it.\<close>

lemma option_at_decl:
  "\<not> m_is_repeatable (option_at s)" "\<not> m_accepts_optional_like_value (option_at s)"
  "m_choices (option_at s) = (case s of Level _ \<Rightarrow> Some log_levels | _ \<Rightarrow> None)"
  "m_num_args_range (option_at s) = (case setting_value s of None \<Rightarrow> (0, 0) | Some _ \<Rightarrow> (1, 1))"
  "m_actions (option_at s) = (case s of Listen_port _ \<Rightarrow> [Valued parse_number] | Dns_port _ \<Rightarrow> [Valued parse_number] | _ \<Rightarrow> [])"
  "setting_value s = None \<Longrightarrow> m_implicit_value (option_at s) = Any_bool True"
  by (cases s; simp add: option_at_def cli_parser_def ArgumentParser_def add_argument_def option_string_def option_port_def
      option_flag_def flag_def nargs_def scan_def action_def implicit_value_def default_value_def Argument_def choices_def
      add_choice_def log_levels_def nth_append)+

lemma cli_at: "cli p \<Longrightarrow> fresh (m_arguments p ! option_index s) = option_at s"
proof -
  assume c: "cli p"
  have "option_index s < 13" by (cases s) simp_all
  with cli_length [OF c] have "fresh (m_arguments p ! option_index s) = map fresh (m_arguments p) ! option_index s" by simp
  with c show ?thesis by (simp add: cli_def option_at_def)
qed

subsection \<open>Parsing settings\<close>

text \<open>What an argument has after it consumed one value.\<close>

definition used_with :: "bytes \<Rightarrow> any \<Rightarrow> argument \<Rightarrow> argument" where
  "used_with n v a = a\<lparr>m_used_name := n, m_values := m_values a @ [v], m_is_used := True\<rparr>"

lemma consume_flag:
  assumes "\<not> m_is_used a" and "m_choices a = None" and "m_num_args_range a = (0, 0)" and "m_actions a = []"
  shows "consume ss n a = Inr (used_with n (m_implicit_value a) a, ss)"
  using assms by (simp add: consume_def used_with_def actions_of_def)

lemma consume_value:
  assumes "\<not> m_is_used a" and "m_num_args_range a = (1, 1)" and "\<not> m_accepts_optional_like_value a"
    and "m_choices a = None \<or> (m_choices a = Some cs \<and> v \<in> set cs \<and> (ss = [] \<or> hd ss \<notin> set cs))"
    and "is_positional v" and "apply_actions [v] (actions_of a) (a\<lparr>m_used_name := n\<rparr>) = Inr (a\<lparr>m_used_name := n, m_values := m_values a @ [w]\<rparr>)"
  shows "consume (v # ss) n a = Inr (used_with n w a, ss)"
proof -
  have "count_choices cs (1, 1) (v # ss) 0 = Inr (Suc 0)" if "v \<in> set cs" "ss = [] \<or> hd ss \<notin> set cs"
    using that by (cases ss) auto
  with assms show ?thesis
    by (auto simp: consume_def used_with_def actions_of_def Let_def)
qed

text \<open>The value kept for a setting.\<close>

fun kept :: "setting \<Rightarrow> any" where
  "kept (Listen_port n) = Any_u16 n"
| "kept (Dns_port n) = Any_u16 n"
| "kept s = (case setting_value s of None \<Rightarrow> Any_bool True | Some v \<Rightarrow> Any_string v)"

definition enter :: "setting \<Rightarrow> parser \<Rightarrow> parser" where
  "enter s p = p\<lparr>m_arguments := (m_arguments p)[option_index s :=
     used_with (str (option_name s)) (kept s) (m_arguments p ! option_index s)]\<rparr>"

definition unused :: "parser \<Rightarrow> setting \<Rightarrow> bool" where
  "unused p s \<longleftrightarrow> \<not> m_is_used (m_arguments p ! option_index s)"

lemma parse_number_dec: "parse_number (dec (unat (n :: u16))) = Inr (Any_u16 n)"
proof -
  have "unat n < 2 ^ LENGTH(16)" by (rule unsigned_less)
  then have n: "\<not> unat n > 65535" by simp
  have d: "takeWhile is_digit (dec (unat n)) = dec (unat n)" "dropWhile is_digit (dec (unat n)) = []"
    using dec_digits [of "unat n"] by (simp_all add: takeWhile_eq_all_conv dropWhile_eq_Nil_conv list_all_iff)
  show ?thesis
    unfolding parse_number_def do_from_chars_def from_chars_def Let_def d read_dec using n by (simp add: dec_not_Nil)
qed

text \<open>Names of options are no positional arguments and no log levels.\<close>

lemma option_name_optional: "\<not> is_positional (str (option_name s))"
  by (cases s) (simp_all add: is_positional_def prefix_chars_def is_decimal_literal_def is_digit_def str_def)

lemma option_name_no_level: "str (option_name s) \<notin> set log_levels"
  by (cases s) (simp_all add: log_levels_def)

lemma level_name_in: "level_name l \<in> set log_levels"
  by (cases l) (simp_all add: log_levels_def)

definition ends_options :: "bytes list \<Rightarrow> bool" where
  "ends_options ss \<longleftrightarrow> ss = [] \<or> hd ss \<notin> set log_levels"

lemma consume_setting:
  assumes "cli p" and "unused p s" and "sayable s" and "ends_options ss"
  shows "consume (case setting_value s of None \<Rightarrow> ss | Some v \<Rightarrow> v # ss) n (m_arguments p ! option_index s)
    = Inr (used_with n (kept s) (m_arguments p ! option_index s), ss)"
proof -
  let ?a = "m_arguments p ! option_index s"
  note f = cli_at [OF assms(1), of s, symmetric]
  have d: "\<not> m_accepts_optional_like_value ?a" "m_choices ?a = (case s of Level _ \<Rightarrow> Some log_levels | _ \<Rightarrow> None)"
    "m_num_args_range ?a = (case setting_value s of None \<Rightarrow> (0, 0) | Some _ \<Rightarrow> (1, 1))"
    "m_actions ?a = (case s of Listen_port _ \<Rightarrow> [Valued parse_number] | Dns_port _ \<Rightarrow> [Valued parse_number] | _ \<Rightarrow> [])"
    "setting_value s = None \<Longrightarrow> m_implicit_value ?a = Any_bool True"
    using option_at_decl [of s] by (simp_all add: f fresh_def)
  show ?thesis
  proof (cases "setting_value s")
    case None
    then have "kept s = m_implicit_value ?a" using d(5) by (cases s) simp_all
    with None show ?thesis
      using consume_flag [of ?a ss n] assms(2) d by (cases s) (simp_all add: unused_def)
  next
    case (Some v)
    have "consume (v # ss) n ?a = Inr (used_with n (kept s) ?a, ss)"
    proof (rule consume_value [where cs = log_levels])
      show "m_choices ?a = None \<or> (m_choices ?a = Some log_levels \<and> v \<in> set log_levels \<and> (ss = [] \<or> hd ss \<notin> set log_levels))"
        using Some d(2) assms(4) by (cases s) (auto simp: ends_options_def level_name_in)
      show "apply_actions [v] (actions_of ?a) (?a\<lparr>m_used_name := n\<rparr>)
          = Inr (?a\<lparr>m_used_name := n, m_values := m_values ?a @ [kept s]\<rparr>)"
        using Some d(4) by (cases s) (auto simp: actions_of_def parse_number_dec)
    qed (use Some d assms in \<open>simp_all add: unused_def sayable_def\<close>)
    with Some show ?thesis by simp
  qed
qed

lemma parse_loop_setting:
  assumes "cli p" and "unused p s" and "sayable s" and "ends_options ss"
  shows "parse_loop [] (spell False s @ ss) p = parse_loop [] ss (enter s p)"
proof -
  let ?ss = "case setting_value s of None \<Rightarrow> ss | Some v \<Rightarrow> v # ss"
  have "spell False s @ ss = str (option_name s) # ?ss" by (simp add: spell_def split: option.split)
  then show ?thesis
    using consume_setting [OF assms] by (simp add: option_name_optional cli_find [OF assms(1)] find_option
        consume_at_def enter_def)
qed

lemma cli_enter: "cli p \<Longrightarrow> cli (enter s p)"
proof -
  assume c: "cli p"
  let ?i = "option_index s"
  have i: "?i < length (m_arguments p)" using cli_length [OF c] by (cases s) simp_all
  have "fresh (used_with n v (m_arguments p ! ?i)) = map fresh (m_arguments p) ! ?i" for n v
    using i by (simp add: fresh_def used_with_def)
  then have "map fresh (m_arguments (enter s p)) = map fresh (m_arguments p)"
    by (simp add: enter_def map_update del: nth_map)
  moreover have "\<forall>a \<in> set (m_arguments (enter s p)). \<not> m_is_used a \<longrightarrow> m_values a = []"
  proof
    fix a assume "a \<in> set (m_arguments (enter s p))"
    then have "a = used_with (str (option_name s)) (kept s) (m_arguments p ! ?i) \<or> a \<in> set (m_arguments p)"
      using set_update_subset_insert [of "m_arguments p" ?i] by (auto simp: enter_def)
    then show "\<not> m_is_used a \<longrightarrow> m_values a = []" using c by (auto simp: cli_def used_with_def)
  qed
  ultimately show ?thesis using c by (simp add: cli_def)
qed

lemma option_index_eq: "option_index s = option_index t \<longleftrightarrow> option_name s = option_name t"
  by (cases s; cases t) simp_all

lemma unused_enter: "cli p \<Longrightarrow> unused (enter t p) s \<longleftrightarrow> unused p s \<and> option_name s \<noteq> option_name t"
proof -
  assume c: "cli p"
  have "option_index t < length (m_arguments p)" using cli_length [OF c] by (cases t) simp_all
  then show ?thesis
    by (auto simp: unused_def enter_def used_with_def nth_list_update option_index_eq)
qed

lemma ends_options_spell: "ends_options (concat (map (spell False) ss) @ rest)" if "ends_options rest"
  using that option_name_no_level
  by (cases ss) (simp_all add: ends_options_def spell_def split: option.split)

lemma parse_loop_settings:
  assumes "cli p" and "\<forall>s \<in> set ss. unused p s \<and> sayable s" and "distinct (map option_name ss)" and "ends_options rest"
  shows "parse_loop [] (concat (map (spell False) ss) @ rest) p = parse_loop [] rest (fold enter ss p)"
  using assms
proof (induction ss arbitrary: p)
  case (Cons s ss)
  have "parse_loop [] (spell False s @ concat (map (spell False) ss) @ rest) p
      = parse_loop [] (concat (map (spell False) ss) @ rest) (enter s p)"
    using Cons.prems by (intro parse_loop_setting ends_options_spell) simp_all
  moreover have "\<forall>t \<in> set ss. unused (enter s p) t \<and> sayable t"
    using Cons.prems(2,3) by (auto simp: unused_enter [OF Cons.prems(1)] image_iff)
  then have "parse_loop [] (concat (map (spell False) ss) @ rest) (enter s p) = parse_loop [] rest (fold enter ss (enter s p))"
    using Cons.prems(3) by (intro Cons.IH cli_enter [OF Cons.prems(1)] Cons.prems(4)) simp_all
  ultimately show ?case by simp
qed simp

text \<open>Names joined to their values are separated first.\<close>

lemma find_argument_None: "find_argument p n = None \<longleftrightarrow> (\<forall>a \<in> set (m_arguments p). n \<notin> set (m_names a))"
proof -
  have "find_argument p n = None \<longleftrightarrow> filter (\<lambda>i. n \<in> set (m_names (m_arguments p ! i))) [0..<length (m_arguments p)] = []"
    by (simp add: find_argument_def split: list.splits)
  then show ?thesis by (auto simp: filter_empty_conv all_set_conv_all_nth)
qed

lemma find_argument_Some: "find_argument p n = Some i \<Longrightarrow> i < length (m_arguments p) \<and> n \<in> set (m_names (m_arguments p ! i))"
proof -
  let ?is = "filter (\<lambda>i. n \<in> set (m_names (m_arguments p ! i))) [0..<length (m_arguments p)]"
  assume "find_argument p n = Some i"
  then have i: "i = last ?is" "?is \<noteq> []" by (auto simp: find_argument_def split: list.splits)
  from i(2) have "last ?is \<in> set ?is" by (rule last_in_set)
  then have "i \<in> set ?is" by (simp only: i(1))
  then show ?thesis by simp
qed

lemma cli_no_equals: "61 \<in> set n \<Longrightarrow> find_argument cli_parser n = None"
proof -
  assume n: "61 \<in> set n"
  have "list_all (list_all (\<lambda>m. 61 \<notin> set m)) (map m_names (m_arguments cli_parser))"
    unfolding cli_names by (simp add: str_def)
  with n show ?thesis by (auto simp: find_argument_None list_all_iff)
qed

lemma option_name_chars: "61 \<notin> set (str (option_name s))" "argument_starts_with_prefix_chars (str (option_name s) @ v)"
  by (cases s; simp add: str_def argument_starts_with_prefix_chars_def prefix_chars_def)+

lemma preprocess_positional: "is_positional v \<Longrightarrow> preprocess_argument p v = [v]"
proof -
  assume "is_positional v"
  then have "\<not> argument_starts_with_prefix_chars v"
    by (auto simp: argument_starts_with_prefix_chars_def is_positional_def prefix_chars_def
        is_decimal_literal_def is_digit_def split: list.splits)
  then show ?thesis by (simp add: preprocess_argument_def)
qed

lemma preprocess_name: "preprocess_argument cli_parser (str (option_name s)) = [str (option_name s)]"
  by (simp add: preprocess_argument_def find_option)

lemma preprocess_joined:
  "preprocess_argument cli_parser (str (option_name s) @ 61 # v) = [str (option_name s), v]"
proof -
  have t: "takeWhile (\<lambda>c. c \<notin> assign_chars) (str (option_name s) @ 61 # v) = str (option_name s)"
    using option_name_chars(1) [of s] by (auto simp: assign_chars_def takeWhile_append)
  show ?thesis
    by (simp add: preprocess_argument_def t cli_no_equals option_name_chars find_option)
qed

lemma preprocess_spell: "sayable s \<Longrightarrow> preprocess_arguments cli_parser (spell eq s) = spell False s"
  by (simp add: preprocess_arguments_def spell_def sayable_def preprocess_name preprocess_joined preprocess_positional
      split: option.splits)

lemma preprocess_append: "preprocess_arguments p (xs @ ys) = preprocess_arguments p xs @ preprocess_arguments p ys"
  by (simp add: preprocess_arguments_def)

text \<open>A command line: the name of the program, settings, and more.\<close>

definition commands :: "(bool \<times> setting) list \<Rightarrow> bytes list" where
  "commands ss = concat (map (\<lambda>(eq, s). spell eq s) ss)"

lemma preprocess_commands:
  "\<forall>s \<in> snd ` set ss. sayable s \<Longrightarrow> preprocess_arguments cli_parser (commands ss) = concat (map (spell False) (map snd ss))"
proof (induction ss)
  case Nil
  then show ?case by (simp add: commands_def preprocess_arguments_def)
next
  case (Cons s ss)
  then show ?case by (cases s) (simp add: commands_def preprocess_append preprocess_spell)
qed

text \<open>A parser before and after the loop.\<close>

lemma fresh_cli: "map fresh (m_arguments cli_parser) = m_arguments cli_parser \<and>
    list_all (\<lambda>a. m_values a = [] \<and> \<not> m_is_used a) (m_arguments cli_parser)"
  by (simp add: fresh_def cli_parser_def ArgumentParser_def add_argument_def option_string_def option_port_def
      option_flag_def flag_def nargs_def scan_def action_def implicit_value_def default_value_def Argument_def choices_def
      add_choice_def log_levels_def)

lemma cli_start: "cli cli_parser" "unused cli_parser s"
proof -
  show "cli cli_parser" using fresh_cli by (auto simp: cli_def list_all_iff)
  have "option_index s < 13" by (cases s) simp_all
  then show "unused cli_parser s" using fresh_cli by (simp add: unused_def list_all_length length_cli)
qed

lemma cli_positionals: "positional_arguments cli_parser = []"
proof -
  have "list_all m_is_optional (m_arguments cli_parser)" by code_simp
  then show ?thesis by (simp add: positional_arguments_def list_all_length filter_empty_conv)
qed

lemma parse_commands:
  assumes "is_positional prog" and "\<forall>s \<in> snd ` set ss. sayable s" and "distinct (map (option_name \<circ> snd) ss)"
    and "ends_options (preprocess_arguments cli_parser rest)"
  shows "parse_args_internal (prog # commands ss @ rest) cli_parser
    = parse_loop [] (preprocess_arguments cli_parser rest) (fold enter (map snd ss) cli_parser)"
proof -
  have "preprocess_arguments cli_parser (prog # commands ss @ rest)
      = prog # concat (map (spell False) (map snd ss)) @ preprocess_arguments cli_parser rest"
  proof -
    have "preprocess_arguments cli_parser [prog] = [prog]"
      using assms(1) by (simp add: preprocess_arguments_def preprocess_positional)
    then show ?thesis
      using preprocess_append [of cli_parser "[prog]" "commands ss @ rest"] preprocess_commands [OF assms(2)]
      by (simp add: preprocess_append)
  qed
  then show ?thesis
    using parse_loop_settings [OF cli_start(1), of "map snd ss", OF _ _ assms(4)] assms(2,3) cli_start(2)
    by (simp add: parse_args_internal_def cli_positionals)
qed

end
