(* ===== verification/Options.thy ===== *)
theory Options
  imports CommandLine
begin

section \<open>What the command line does\<close>

text \<open>
  The properties of the command line: settings given in any order and spelling set the parameters, a port that is no
  number below 65536 ends the program, and what happens when the value of the last option is missing.
\<close>

subsection \<open>Reading the results\<close>

lemma and_then_eq_Inr: "and_then m f = Inr y \<longleftrightarrow> (\<exists>x. m = Inr x \<and> f x = Inr y)"
  by (cases m) simp_all

definition reads :: "parser \<Rightarrow> (server_params \<times> log_level) result" where
  "reads p = read_params (p\<lparr>m_is_parsed := True\<rparr>)"

lemma get_option:
  assumes "cli p"
  shows "parser_get cast (p\<lparr>m_is_parsed := True\<rparr>) (str (option_name s)) = Argument_get cast (m_arguments p ! option_index s)"
proof -
  have "find_argument (p\<lparr>m_is_parsed := True\<rparr>) n = find_argument p n" for n by (simp add: find_argument_def)
  then show ?thesis using find_option [of s] by (simp add: parser_get_def at_name_def cli_find [OF assms])
qed

lemma reads_cli:
  assumes "cli p"
  shows "reads p =
     and_then (Argument_get any_string (m_arguments p ! 2)) (\<lambda>ip.
     and_then (Argument_get any_u16 (m_arguments p ! 3)) (\<lambda>port.
     and_then (Argument_get any_string (m_arguments p ! 4)) (\<lambda>user.
     and_then (Argument_get any_string (m_arguments p ! 5)) (\<lambda>pass.
     and_then (Argument_get any_string (m_arguments p ! 6)) (\<lambda>dip.
     and_then (Argument_get any_u16 (m_arguments p ! 7)) (\<lambda>dport.
     and_then (Argument_get any_bool (m_arguments p ! 8)) (\<lambda>cn.
     and_then (Argument_get any_bool (m_arguments p ! 9)) (\<lambda>ck.
     and_then (Argument_get any_bool (m_arguments p ! 10)) (\<lambda>rn.
     and_then (Argument_get any_bool (m_arguments p ! 11)) (\<lambda>rk.
     and_then (Argument_get any_string (m_arguments p ! 12)) (\<lambda>level.
     Inr (\<lparr>listen_ip = ip, listen_port = port, username = user, password = pass, dns_ip = dip, dns_port = dport,
         client_tcp_nodelay = cn, client_tcp_keepalive = ck, remote_tcp_nodelay = rn, remote_tcp_keepalive = rk\<rparr>,
       log_level_of level))))))))))))"
  using get_option [OF assms, of any_string "Listen_ip []"] get_option [OF assms, of any_u16 "Listen_port 0"]
    get_option [OF assms, of any_string "Username []"] get_option [OF assms, of any_string "Password []"]
    get_option [OF assms, of any_string "Dns_ip []"] get_option [OF assms, of any_u16 "Dns_port 0"]
    get_option [OF assms, of any_bool Client_nodelay] get_option [OF assms, of any_bool Client_keepalive]
    get_option [OF assms, of any_bool Remote_nodelay] get_option [OF assms, of any_bool Remote_keepalive]
    get_option [OF assms, of any_string "Level Off"]
  by (simp add: reads_def read_params_def)

lemma get_used_with: "m_values a = [] \<Longrightarrow> Argument_get cast (used_with n v a) = cast v"
  by (simp add: Argument_get_def used_with_def)

lemma log_level_of_name: "log_level_of (level_name l) = l"
  by (cases l) (simp_all add: log_level_of_def)

lemma unused_values: "cli p \<Longrightarrow> unused p s \<Longrightarrow> m_values (m_arguments p ! option_index s) = []"
proof -
  assume c: "cli p" and u: "unused p s"
  have "option_index s < length (m_arguments p)" using cli_length [OF c] by (cases s) simp_all
  then have "m_arguments p ! option_index s \<in> set (m_arguments p)" by simp
  with c u show ?thesis by (auto simp: cli_def unused_def)
qed

lemma reads_enter:
  assumes "cli p" and "unused p s" and "reads p = Inr c"
  shows "reads (enter s p) = Inr (apply_setting s c)"
proof -
  note v = unused_values [OF assms(1,2)]
  have "length (m_arguments p) = 13" by (rule cli_length [OF assms(1)])
  with assms(3) v show ?thesis
    unfolding reads_cli [OF assms(1)] reads_cli [OF cli_enter [OF assms(1)]]
    by (cases s) (auto simp: and_then_eq_Inr enter_def get_used_with log_level_of_name)
qed

lemma reads_start: "reads cli_parser = Inr default_settings"
  unfolding reads_def default_settings_def by code_simp

lemma reads_settings:
  assumes "cli p" and "\<forall>s \<in> set ss. unused p s" and "distinct (map option_name ss)" and "reads p = Inr c"
  shows "cli (fold enter ss p) \<and> reads (fold enter ss p) = Inr (fold apply_setting ss c)
    \<and> (\<forall>t. unused (fold enter ss p) t \<longleftrightarrow> unused p t \<and> option_name t \<notin> option_name ` set ss)"
  using assms
proof (induction ss arbitrary: p c)
  case (Cons s ss)
  have "\<forall>t \<in> set ss. unused (enter s p) t"
    using Cons.prems(2,3) by (auto simp: unused_enter [OF Cons.prems(1)] image_iff)
  moreover have "reads (enter s p) = Inr (apply_setting s c)"
    using Cons.prems by (intro reads_enter) simp_all
  ultimately show ?case
    using Cons.IH [OF cli_enter [OF Cons.prems(1)]] Cons.prems(3) by (auto simp: unused_enter [OF Cons.prems(1)])
qed simp

subsection \<open>Validation\<close>

lemma cli_valid: "list_all (\<lambda>a. m_is_optional a \<and> \<not> m_is_required a \<and> (case m_choices a of None \<Rightarrow> True
    | Some cs \<Rightarrow> \<exists>c \<in> set cs. m_default_value_str a = Some c)) (m_arguments cli_parser)"
  by code_simp

lemma validate_cli: "cli p \<Longrightarrow> a \<in> set (m_arguments p) \<Longrightarrow> validate a = Inr ()"
proof -
  assume "cli p" "a \<in> set (m_arguments p)"
  then have "fresh a \<in> set (m_arguments cli_parser)" by (metis cli_def image_eqI list.set_map)
  with cli_valid show ?thesis
    by (auto simp: list_all_iff fresh_def validate_def find_default_value_in_choices_or_throw_def split: option.splits)
qed

lemma each_result_Inr: "\<forall>x \<in> set xs. f x = Inr y \<Longrightarrow> each_result f xs = Inr (replicate (length xs) y)"
  by (induction xs) simp_all

lemma map_order_in: "set (map_order p) \<subseteq> set (m_arguments p)"
proof
  fix a assume "a \<in> set (map_order p)"
  then obtain n where n: "\<exists>b \<in> set (m_arguments p). n \<in> set (m_names b)"
      and a: "a = m_arguments p ! the (find_argument p n)"
    by (auto simp: map_order_def)
  then obtain i where "find_argument p n = Some i" using find_argument_None [of p n] by (cases "find_argument p n") auto
  then show "a \<in> set (m_arguments p)" using find_argument_Some a by auto
qed

lemma parse_args_cli:
  assumes "parse_args_internal argv cli_parser = Inr (p\<lparr>m_is_parsed := True\<rparr>)" and "cli p"
  shows "parse_params argv = reads p"
proof -
  let ?q = "p\<lparr>m_is_parsed := True\<rparr>"
  have "cli ?q" using assms(2) by (simp add: cli_def)
  then have "\<forall>a \<in> set (map_order ?q). validate a = Inr ()" using validate_cli map_order_in by blast
  then have "each_result validate (map_order ?q) = Inr (replicate (length (map_order ?q)) ())" by (rule each_result_Inr)
  then have "parse_args argv cli_parser = Inr ?q" by (simp add: parse_args_def assms(1))
  then show ?thesis by (simp add: parse_params_def exit_on_exception_def reads_def)
qed

subsection \<open>Properties\<close>

lemma commands_result:
  assumes "is_positional prog" and "\<forall>s \<in> snd ` set ss. sayable s" and "distinct (map (option_name \<circ> snd) ss)"
    and "ends_options (preprocess_arguments cli_parser rest)"
  obtains p where "cli p" and "reads p = Inr (fold apply_setting (map snd ss) default_settings)"
    and "\<And>t. unused p t \<longleftrightarrow> option_name t \<notin> option_name ` snd ` set ss"
    and "parse_args_internal (prog # commands ss @ rest) cli_parser = parse_loop [] (preprocess_arguments cli_parser rest) p"
proof -
  let ?p = "fold enter (map snd ss) cli_parser"
  have "cli ?p \<and> reads ?p = Inr (fold apply_setting (map snd ss) default_settings)
      \<and> (\<forall>t. unused ?p t \<longleftrightarrow> unused cli_parser t \<and> option_name t \<notin> option_name ` set (map snd ss))"
    using assms(3) by (intro reads_settings) (simp_all add: cli_start reads_start)
  then show ?thesis using that [of ?p] parse_commands [OF assms] cli_start(2) by simp
qed

lemma command_line_exec:
  assumes "is_positional prog" and "\<forall>s \<in> snd ` set ss. sayable s" and "distinct (map (option_name \<circ> snd) ss)"
  shows "parse_params (prog # commands ss) = Inr (fold apply_setting (map snd ss) default_settings)"
proof -
  have "ends_options (preprocess_arguments cli_parser [])" by (simp add: ends_options_def preprocess_arguments_def)
  then obtain p where p: "cli p" "reads p = Inr (fold apply_setting (map snd ss) default_settings)"
      "parse_args_internal (prog # commands ss @ []) cli_parser = parse_loop [] (preprocess_arguments cli_parser []) p"
    by (rule commands_result [OF assms]) blast
  from p(3) have "parse_args_internal (prog # commands ss) cli_parser = Inr (p\<lparr>m_is_parsed := True\<rparr>)"
    by (simp add: preprocess_arguments_def)
  from parse_args_cli [OF this p(1)] p(2) show ?thesis by simp
qed



text \<open>A string that is a number below 65536 in base 10.\<close>

definition port_text :: "bytes \<Rightarrow> bool" where
  "port_text v \<longleftrightarrow> v \<noteq> [] \<and> list_all is_digit v \<and> read_dec v < 65536"

lemma parse_number_fails: "\<not> port_text v \<Longrightarrow> \<exists>m. parse_number v = Inl (Thrown m)"
proof -
  assume v: "\<not> port_text v"
  show ?thesis
  proof (cases "dropWhile is_digit v = []")
    case True
    then have d: "list_all is_digit v" by (simp add: dropWhile_eq_Nil_conv list_all_iff)
    then have t: "takeWhile is_digit v = v" by (simp add: takeWhile_eq_all_conv list_all_iff)
    show ?thesis
      unfolding parse_number_def do_from_chars_def from_chars_def Let_def t using v d by (auto simp: port_text_def)
  qed (auto simp: parse_number_def do_from_chars_def from_chars_def Let_def)
qed

lemma port_option: "option_name s \<in> {''--listen-port'', ''--dns-port''} \<Longrightarrow>
    m_choices (option_at s) = None \<and> m_num_args_range (option_at s) = (1, 1) \<and> m_actions (option_at s) = [Valued parse_number]"
  using option_at_decl [of s] by (cases s) simp_all

lemma consume_bad_port:
  assumes "cli p" and "unused p s" and "option_name s \<in> {''--listen-port'', ''--dns-port''}" and "\<not> port_text v"
  shows "\<exists>m. consume (v # ss) n (m_arguments p ! option_index s) = Inl (Thrown m)"
proof -
  let ?a = "m_arguments p ! option_index s"
  have d: "m_choices ?a = None" "m_num_args_range ?a = (1, 1)" "m_actions ?a = [Valued parse_number]"
    "\<not> m_accepts_optional_like_value ?a"
    using port_option [OF assms(3)] option_at_decl(2) [of s]
    by (simp_all add: cli_at [OF assms(1), of s, symmetric] fresh_def)
  obtain m where "parse_number v = Inl (Thrown m)" using parse_number_fails [OF assms(4)] by blast
  with d assms(2) show ?thesis by (simp add: consume_def unused_def actions_of_def too_few_def)
qed

text \<open>A value is looked at for an equals sign as well; one that is split is no port.\<close>

lemma preprocess_first: "\<exists>w ws. preprocess_argument p v = w # ws \<and> (w = v \<or> (\<exists>r. w = 45 # r))"
proof (cases "argument_starts_with_prefix_chars v")
  case True
  then obtain c where "v = 45 # 45 # c"
    by (auto simp: argument_starts_with_prefix_chars_def prefix_chars_def split: list.splits)
  then show ?thesis by (simp add: preprocess_argument_def assign_chars_def Let_def)
qed (simp add: preprocess_argument_def)

lemma no_port_text: "\<not> port_text (45 # r)"
  by (simp add: port_text_def is_digit_def)

lemma bad_port_exits:
  assumes "is_positional prog" and "\<forall>s \<in> snd ` set ss. sayable s" and "distinct (map (option_name \<circ> snd) ss)"
    and "port \<in> {''--listen-port'', ''--dns-port''}" and "port \<notin> option_name ` snd ` set ss"
    and "\<not> port_text v" and "given \<in> {[str port, v], [str port @ 61 # v]}"
  shows "parse_params (prog # commands ss @ given @ rest) = Inl (Exits (- 1))"
proof -
  obtain s where s: "port = option_name s" using assms(4) option_name.simps(2,6) by (metis empty_iff insert_iff)
  obtain w ws where w: "preprocess_arguments cli_parser (given @ rest) = str port # w # ws" "\<not> port_text w"
  proof -
    obtain u us where u: "preprocess_argument cli_parser v = u # us" "u = v \<or> (\<exists>r. u = 45 # r)"
      using preprocess_first by blast
    then have "\<not> port_text u" using assms(6) no_port_text by auto
    with u(1) assms(6,7) that show ?thesis
      by (auto simp: s preprocess_arguments_def preprocess_name preprocess_joined)
  qed
  have "ends_options (preprocess_arguments cli_parser (given @ rest))"
    by (simp add: w(1) s ends_options_def option_name_no_level)
  then obtain p where p: "cli p" and unused: "\<And>t. unused p t \<longleftrightarrow> option_name t \<notin> option_name ` snd ` set ss"
    and run: "parse_args_internal (prog # commands ss @ given @ rest) cli_parser = parse_loop [] (str port # w # ws) p"
    by (rule commands_result [OF assms(1-3), unfolded w(1)]) (simp add: w(1))
  have u: "unused p s" using assms(5) by (simp add: unused s)
  have "option_name s \<in> {''--listen-port'', ''--dns-port''}" using assms(4) s by simp
  from consume_bad_port [OF p u this w(2)] obtain m
    where "consume (w # ws) (str port) (m_arguments p ! option_index s) = Inl (Thrown m)" by blast
  then have "parse_args (prog # commands ss @ given @ rest) cli_parser = Inl (Thrown m)"
    by (simp add: parse_args_def run s option_name_optional cli_find [OF p] find_option consume_at_def)
  then show ?thesis by (simp add: parse_params_def exit_on_exception_def)
qed

text \<open>An option at the end of the line without its value.\<close>

definition touched :: "setting \<Rightarrow> any list \<Rightarrow> parser \<Rightarrow> parser" where
  "touched s vs p = p\<lparr>m_arguments := (m_arguments p)[option_index s := (m_arguments p ! option_index s)
     \<lparr>m_used_name := str (option_name s), m_values := vs, m_is_used := True\<rparr>]\<rparr>"

lemma cli_touched: "cli p \<Longrightarrow> cli (touched s vs p)"
proof -
  assume c: "cli p"
  let ?i = "option_index s"
  let ?a = "(m_arguments p ! ?i)\<lparr>m_used_name := str (option_name s), m_values := vs, m_is_used := True\<rparr>"
  have i: "?i < length (m_arguments p)" using cli_length [OF c] by (cases s) simp_all
  then have "fresh ?a = map fresh (m_arguments p) ! ?i" by (simp add: fresh_def)
  then have "map fresh (m_arguments (touched s vs p)) = map fresh (m_arguments p)"
    by (simp add: touched_def map_update del: nth_map)
  moreover have "\<not> m_is_used a \<longrightarrow> m_values a = []" if "a \<in> set (m_arguments (touched s vs p))" for a
  proof -
    have "a = ?a \<or> a \<in> set (m_arguments p)"
      using that set_update_subset_insert [of "m_arguments p" ?i] by (auto simp: touched_def)
    then show ?thesis using c by (auto simp: cli_def)
  qed
  ultimately show ?thesis using c by (simp add: cli_def)
qed

lemma defaults_given: "setting_value s \<noteq> None \<Longrightarrow> m_default_value (option_at s) \<noteq> No_value"
  "m_implicit_value (option_at (Level l)) = No_value"
  by (cases s; simp add: option_at_def cli_parser_def ArgumentParser_def add_argument_def option_string_def option_port_def
      option_flag_def flag_def nargs_def scan_def action_def implicit_value_def default_value_def Argument_def choices_def
      add_choice_def log_levels_def nth_append)+

lemma parse_loop_missing:
  assumes "cli p" and "unused p s" and "setting_value s \<noteq> None"
  shows "parse_loop [] [str (option_name s)] p
    = Inr ((touched s (case s of Level _ \<Rightarrow> [No_value] | _ \<Rightarrow> []) p)\<lparr>m_is_parsed := True\<rparr>)"
proof -
  let ?a = "m_arguments p ! option_index s"
  note f = cli_at [OF assms(1), of s, symmetric]
  have d: "m_choices ?a = (case s of Level _ \<Rightarrow> Some log_levels | _ \<Rightarrow> None)" "m_num_args_range ?a = (1, 1)"
    "m_actions ?a = (case s of Listen_port _ \<Rightarrow> [Valued parse_number] | Dns_port _ \<Rightarrow> [Valued parse_number] | _ \<Rightarrow> [])"
    "m_default_value ?a \<noteq> No_value"
    using option_at_decl [of s] defaults_given(1) [of s] assms(3) by (auto simp: f fresh_def)
  have "m_implicit_value ?a = m_implicit_value (option_at s)" by (simp add: f fresh_def)
  then have i: "s = Level l \<Longrightarrow> m_implicit_value ?a = No_value" for l
    using defaults_given(2) by simp
  have v: "m_values ?a = []" by (rule unused_values [OF assms(1,2)])
  have "consume [] (str (option_name s)) ?a = Inr (?a\<lparr>m_used_name := str (option_name s),
      m_values := (case s of Level _ \<Rightarrow> [No_value] | _ \<Rightarrow> []), m_is_used := True\<rparr>, [])"
    using d v i assms(2,3) by (cases s) (simp_all add: consume_def unused_def actions_of_def)
  then show ?thesis
    by (simp add: option_name_optional cli_find [OF assms(1)] find_option consume_at_def touched_def)
qed

lemma get_touched:
  "m_values a = [] \<Longrightarrow> Argument_get cast (a\<lparr>m_used_name := n, m_values := [], m_is_used := True\<rparr>) = Argument_get cast a"
  "Argument_get cast (a\<lparr>m_used_name := n, m_values := [v], m_is_used := True\<rparr>) = cast v"
  by (simp_all add: Argument_get_def)

lemma reads_touched:
  assumes "cli p" and "unused p s" and "setting_value s \<noteq> None" and "reads p = Inr c"
  shows "reads (touched s (case s of Level _ \<Rightarrow> [No_value] | _ \<Rightarrow> []) p)
    = (case s of Level _ \<Rightarrow> Inl bad_any_cast | _ \<Rightarrow> Inr c)"
proof -
  note v = unused_values [OF assms(1,2)]
  have "length (m_arguments p) = 13" by (rule cli_length [OF assms(1)])
  with assms(3,4) v show ?thesis
    unfolding reads_cli [OF assms(1)] reads_cli [OF cli_touched [OF assms(1)]]
    by (cases s) (auto simp: and_then_eq_Inr touched_def get_touched)
qed

text \<open>
  C34: An option that is last on the line and lacks its value is no error: it counts as not given, also
  \<open>--dns-ip\<close>, for which \<open>none\<close> is declared as the implicit value; but \<open>--log-level\<close> without a value raises an exception that nothing catches.
\<close>

theorem missing_last_value:
  assumes "is_positional prog" and "\<forall>s \<in> snd ` set ss. sayable s" and "distinct (map (option_name \<circ> snd) ss)"
    and "setting_value s \<noteq> None" and "option_name s \<notin> option_name ` snd ` set ss"
  shows "parse_params (prog # commands ss @ [str (option_name s)])
    = (if option_name s = ''--log-level'' then Inl bad_any_cast
       else parse_params (prog # commands ss))"
proof -
  have r: "preprocess_arguments cli_parser [str (option_name s)] = [str (option_name s)]"
    by (simp add: preprocess_arguments_def preprocess_name)
  have "ends_options (preprocess_arguments cli_parser [str (option_name s)])"
    by (simp add: r ends_options_def option_name_no_level)
  then obtain p where p: "cli p" "reads p = Inr (fold apply_setting (map snd ss) default_settings)"
    and unused: "\<And>t. unused p t \<longleftrightarrow> option_name t \<notin> option_name ` snd ` set ss"
    and run: "parse_args_internal (prog # commands ss @ [str (option_name s)]) cli_parser = parse_loop [] [str (option_name s)] p"
    by (rule commands_result [OF assms(1-3), unfolded r]) (simp add: r)
  have u: "unused p s" using assms(5) by (simp add: unused)
  let ?q = "touched s (case s of Level _ \<Rightarrow> [No_value] | _ \<Rightarrow> []) p"
  from run have "parse_args_internal (prog # commands ss @ [str (option_name s)]) cli_parser = Inr (?q\<lparr>m_is_parsed := True\<rparr>)"
    by (simp only: parse_loop_missing [OF p(1) u assms(4)])
  from parse_args_cli [OF this cli_touched [OF p(1)]]
  have "parse_params (prog # commands ss @ [str (option_name s)])
      = (case s of Level _ \<Rightarrow> Inl bad_any_cast | _ \<Rightarrow> Inr (fold apply_setting (map snd ss) default_settings))"
    by (simp only: reads_touched [OF p(1) u assms(4) p(2)])
  moreover have "parse_params (prog # commands ss) = Inr (fold apply_setting (map snd ss) default_settings)"
    by (rule command_line_exec [OF assms(1-3)])
  ultimately show ?thesis using assms(4) by (cases s) simp_all
qed

theorem missing_last_value_witness:
  "parse_params (map str [''sockspp'', ''--username'', ''bob'', ''--log-level'']) = Inl bad_any_cast"
proof -
  have "parse_params (str ''sockspp'' # commands [(False, Username (str ''bob''))] @ [str (option_name (Level Off))])
      = (if option_name (Level Off) = ''--log-level'' then Inl bad_any_cast
         else parse_params (str ''sockspp'' # commands [(False, Username (str ''bob''))]))"
    by (rule missing_last_value) (simp_all add: sayable_def is_positional_def prefix_chars_def str_def)
  then show ?thesis by (simp add: commands_def spell_def)
qed

end
