(* ===== verification/Program.thy ===== *)
theory Program
  imports Polling Options
begin

section \<open>The program\<close>

text \<open>
  \<open>server_cli/src/cli.cxx\<close> and \<open>server_cli/src/main.cxx\<close>: the program reads its options, makes a server of them
  and lets it serve; a SIGINT stops the server. The theorem on the program composes everything below it: the
  configuration, the loop, the sessions and the poller.
\<close>

text \<open>
  The result is the exit code, or \<open>None\<close> when the server still serves after \<open>k\<close> rounds. \<open>main\<close> only
  passes its arguments on. An exception of the argument parser that \<open>parse_params\<close> does not catch ends the program
  like any other. The contents of \<open>/etc/resolv.conf\<close> are an argument.
\<close>

definition sockspp_main :: "bytes option \<Rightarrow> bytes list \<Rightarrow> nat \<Rightarrow> int option srv" where
  "sockspp_main resolv_file argv k = (case parse_params argv of
     Inl (Exits c) \<Rightarrow> ret (Some c)
   | Inl (Thrown _) \<Rightarrow> throw (RuntimeError ''uncaught exception'')
   | Inl Undefined \<Rightarrow> throw (UndefinedBehaviour ''argument parser'')
   | Inr (p, level) \<Rightarrow> seq (upd (\<lambda>s. s\<lparr>params := Server_params resolv_file p\<rparr>))
       (bnd (serve k) (\<lambda>over. ret (if over then Some 0 else None))))"

text \<open>The signal handler; the pointer to the server is set before it is installed.\<close>

definition sigint_handler :: "unit srv" where
  "sigint_handler = stop"

lemma sigint_handler_polled: "polled s \<Longrightarrow> safe sigint_handler (\<lambda>_ t. polled t \<and> os t = os s) s"
  unfolding sigint_handler_def by (rule stop_safe)

text \<open>
  The handler is installed before the server has its socket, whose descriptor is not initialised until then: a
  signal in between shuts down and closes whatever descriptor that number is.
\<close>

lemma sigint_closes:
  "sv_fd s \<noteq> -1 \<Longrightarrow> calls (snd (sigint_handler s)) = calls s @ [Sys_shutdown (sv_fd s), Sys_close (sv_fd s)]"
  by (simp add: sigint_handler_def stop_def Socket_shutdown_def Socket_close_def sys_int_def exec_simps calls_def)

text \<open>The argument parser looks at no session.\<close>

lemma serving_safe:
  assumes "epoll_honest (os s)" and "trace s = []" and "sv_sessions s = []" and "sv_heap s = Map.empty"
  shows "safe (seq (upd (\<lambda>s. s\<lparr>params := q\<rparr>)) (bnd (serve k) (\<lambda>over. ret (if over then Some (0 :: int) else None))))
    (\<lambda>_ t. server_inv t) s"
proof -
  have "polled (s\<lparr>params := q\<rparr>)" using assms(2-4) by (simp add: polled_def server_inv_def)
  from serve_safe [OF this, of k] assms(1) have "safe (serve k) (\<lambda>_ t. server_inv t) (s\<lparr>params := q\<rparr>)" by simp
  then show ?thesis
    unfolding wpre_seq wpre_upd wpre_bnd by (rule wpre_mono) (simp_all add: wp)
qed

text \<open>
  C1: The whole program, started with any arguments and run for any number of rounds against any
  kernel that reports only registered descriptors, each once per call, never follows a pointer
  to a session it has deleted, never frees one twice, never erases one that is not on
  its list, and no handler finds the destination, the association or the lookup it needs missing; when it
  returns, the sessions on its list are those allocated.
\<close>

theorem program_never_uses_deleted_session:
  assumes "epoll_honest (os s)" and "trace s = []" and "sv_sessions s = []" and "sv_heap s = Map.empty"
    and "sockspp_main resolv_file argv k s = (r, t)"
  shows "r \<notin> Inl ` UndefinedBehaviour ` {''use after free'', ''double free'', ''erase at end'',
        ''null remote socket'', ''null udp socket'', ''no such dns socket''}
    \<and> (\<forall>c. r = Inr c \<longrightarrow> server_inv t)"
proof (cases "parse_params argv")
  case (Inl e)
  have "server_inv s" using assms(3,4) by (simp add: server_inv_def)
  with Inl assms(5) show ?thesis by (cases e) (auto simp: sockspp_main_def)
next
  case (Inr x)
  then have "safe (sockspp_main resolv_file argv k) (\<lambda>_ t. server_inv t) s"
    using serving_safe [OF assms(1-4)] by (cases x) (simp add: sockspp_main_def)
  then show ?thesis
    using assms(5) by (cases r) (auto simp: wpre_def benign_def heap_faults_def socket_faults_def)
qed

text \<open>A kernel that reports every registered descriptor below 16 as readable.\<close>

definition readable :: "history \<Rightarrow> (u32 \<times> ptr) list" where
  "readable h = map (\<lambda>fd. (Ev_Read, the (registered h (int fd)))) (filter (\<lambda>fd. registered h (int fd) \<noteq> None) [0..<16])"

definition busy_kernel :: "history \<Rightarrow> syscall \<Rightarrow> sysret" where
  "busy_kernel h c = (case c of
     Sys_epoll_wait _ \<Rightarrow> (answer 0)\<lparr>sr_events := readable h\<rparr>
   | Sys_socket _ _ \<Rightarrow> answer 3
   | Sys_accept _ \<Rightarrow> answer (5 + length h mod 10)
   | Sys_recv _ _ \<Rightarrow> deliver [4, 1, 0] (SockIn [127, 0, 0, 1] 0)
   | Sys_getpeername _ \<Rightarrow> deliver [] (SockIn [127, 0, 0, 1] 0)
   | _ \<Rightarrow> answer 0)"

lemma busy_kernel_honest: "epoll_honest busy_kernel"
  unfolding epoll_honest_def Let_def
proof (intro allI impI)
  fix h and timeout :: int
  let ?fds = "map int (filter (\<lambda>fd. registered h (int fd) \<noteq> None) [0..<16])"
  have "distinct ?fds" by (simp add: distinct_map inj_on_def)
  moreover have "map (registered h) ?fds = map (\<lambda>e. Some (snd e)) (sr_events (busy_kernel h (Sys_epoll_wait timeout)))"
    by (auto simp: busy_kernel_def readable_def)
  ultimately show "\<exists>fds. distinct fds \<and> map (registered h) fds
      = map (\<lambda>e. Some (snd e)) (sr_events (busy_kernel h (Sys_epoll_wait timeout)))" by blast
qed

theorem program_never_uses_deleted_session_witness:
  "case sockspp_main None [str ''sockspp''] 1 (server_of busy_kernel ServerParams_default) of (r, t) \<Rightarrow>
     r = Inr None \<and> sv_sessions t = [0] \<and> server_inv t"
proof -
  let ?s = "server_of busy_kernel ServerParams_default"
  let ?m = "sockspp_main None [str ''sockspp''] 1 ?s"
  obtain r t where run: "?m = (r, t)" by (cases ?m)
  have p: "parse_params [str ''sockspp''] = Inr default_settings"
    using command_line_exec [of "str ''sockspp''" "[]"] by (simp add: commands_def is_positional_def prefix_chars_def str_def)
  have "(case seq (upd (\<lambda>s. s\<lparr>params := Server_params None (fst default_settings)\<rparr>))
      (bnd (serve 1) (\<lambda>over. ret (if over then Some (0 :: int) else None))) ?s of (r, t) \<Rightarrow> (r, sv_sessions t)) = (Inr None, [0])"
    by code_simp
  then have r: "r = Inr None" "sv_sessions t = [0]"
    using run by (simp_all add: sockspp_main_def p case_prod_beta)
  have "r \<notin> Inl ` UndefinedBehaviour ` {''use after free'', ''double free'', ''erase at end'',
        ''null remote socket'', ''null udp socket'', ''no such dns socket''}
      \<and> (\<forall>c. r = Inr c \<longrightarrow> server_inv t)"
    by (rule program_never_uses_deleted_session [OF _ _ _ _ run])
      (simp_all add: server_of_def busy_kernel_honest)
  then have "server_inv t" using r(1) by blast
  with r show ?thesis unfolding run by simp
qed



end
