(* ===== verification/Interrupts.thy ===== *)
theory Interrupts
  imports Program
begin

section \<open>The server's loop in single steps, with signals\<close>

text \<open>
  The loop of \<open>server/server.cxx\<close> as a step relation: a poll, one event of the batch, or a run of the signal
  handler of \<open>cli.cxx\<close>, which calls \<open>stop\<close>, between any two of them. The relation refines the loop as a
  function; the invariant of the loop holds with signals too. It does not hold that the loop survives its
  clients: no exception is caught between an event and \<open>main\<close>.
\<close>

subsection \<open>One event\<close>

text \<open>The body of the loop over a batch; the result is what is left of the batch.\<close>

definition run_event :: "event \<Rightarrow> event list \<Rightarrow> event list srv" where
  "run_event e es =
     (if ev_ptr e = PServer then
        if ev_flags e AND Ev_Read \<noteq> 0 then bnd accept_client (\<lambda>fd. bnd (create_new_session fd) (\<lambda>_. ret es))
        else bnd stop (\<lambda>_. ret [])
      else case ptr_session (ev_ptr e) of
        None \<Rightarrow> ret es
      | Some n \<Rightarrow> bnd (on_session n (ptr_handler (ev_ptr e) (ev_flags e))) (\<lambda>ok.
          if ok then ret es
          else seq (check_events es) (seq (delete_session n) (ret (invalidate_events n es)))))"

lemma bnd_unit: "bnd m (\<lambda>x. Pair (Inr ())) = m"
  by (rule ext) (auto simp: bnd_def split: prod.split sum.split)

lemma run_batch_run_event: "run_batch (e # es) = bnd (run_event e es) run_batch"
  by (auto simp: run_event_def bnd_assoc bnd_unit seq_def if_distrib [of "\<lambda>m. bnd m run_batch"] intro!: arg_cong [of _ _ "bnd _"]
      split: option.split)

subsection \<open>Steps\<close>

type_synonym config = "event list \<times> server"

inductive server_step :: "config \<Rightarrow> config \<Rightarrow> bool" where
  Report: "is_serving s \<Longrightarrow> poll POLL_TIMEOUT s = (Inr (res, es), t) \<Longrightarrow> res \<noteq> -1 \<Longrightarrow> server_step ([], s) (es, t)"
| Handle: "run_event e es s = (Inr es', t) \<Longrightarrow> server_step (e # es, s) (es', t)"
| Signal: "stop s = (Inr (), t) \<Longrightarrow> server_step (es, s) (es, t)"

inductive_cases server_stepE: "server_step (es, s) (es', t)"

text \<open>The loop as a function takes these steps, without signals.\<close>

lemma run_batch_steps: "run_batch es s = (Inr (), t) \<Longrightarrow> server_step\<^sup>*\<^sup>* (es, s) ([], t)"
proof (induction "length es" arbitrary: es s rule: less_induct)
  case less
  show ?case
  proof (cases es)
    case Nil
    then show ?thesis using less.prems by simp
  next
    case (Cons e es')
    obtain rest u where u: "run_event e es' s = (Inr rest, u)" "run_batch rest u = (Inr (), t)"
      using less.prems unfolding Cons run_batch_run_event by (elim bnd_InrE)
    have "length rest \<le> length es'"
      using u(1) by (auto simp: run_event_def seq_def elim!: bnd_InrE split: if_splits option.splits)
    with less.hyps [OF _ u(2)] Cons have "server_step\<^sup>*\<^sup>* (rest, u) ([], t)" by simp
    with server_step.Handle [OF u(1)] Cons show ?thesis by (auto intro: converse_rtranclp_into_rtranclp)
  qed
qed

lemma serve_loop_steps: "serve_loop k s = (Inr False, t) \<Longrightarrow> server_step\<^sup>*\<^sup>* ([], s) ([], t)"
proof (induction k arbitrary: s)
  case (Suc k)
  have on: "is_serving s" using Suc.prems by (auto simp: bnd_def split: if_splits)
  obtain res es u where poll: "poll POLL_TIMEOUT s = (Inr (res, es), u)"
    using Suc.prems on by (auto simp: exec_simps elim!: bnd_InrE)
  have go: "(if res = -1 then seq (when_do (errno u \<noteq> EINTR) stop) (ret True)
       else if res = 0 then serve_loop k else seq (run_batch es) (serve_loop k)) u = (Inr False, t)"
    using Suc.prems on poll by (simp add: bnd_def)
  then have res: "res \<noteq> -1" by (auto simp: seq_def elim!: bnd_InrE)
  have step: "server_step ([], s) (es, u)" by (rule server_step.Report [OF on poll res])
  show ?case
  proof (cases "res = 0")
    case True
    then have "es = []" using poll by (auto simp: poll_def bnd_def Let_def POLL_BATCH_def min_def split: prod.splits sum.splits if_splits)
    moreover have "server_step\<^sup>*\<^sup>* ([], u) ([], t)" using Suc.IH go True by simp
    ultimately show ?thesis using step by (auto intro: converse_rtranclp_into_rtranclp)
  next
    case False
    with go res obtain v where "run_batch es u = (Inr (), v)" "serve_loop k v = (Inr False, t)"
      by (auto simp: seq_def elim!: bnd_InrE)
    with step run_batch_steps Suc.IH show ?thesis
      by (meson converse_rtranclp_into_rtranclp rtranclp_trans)
  qed
qed simp

subsection \<open>The invariant\<close>

lemma run_event_safe:
  assumes s: "polled s" and es: "pending (e # es) s"
  shows "safe (run_event e es) (\<lambda>es' t. polled t \<and> pending es' t \<and> os t = os s) s" (is "safe _ ?Q s")
proof -
  note ev = pending_tail [OF es]
  have none: "pending [] t" for t :: server by (simp add: pending_def events_ok_def sockets_ok_def)
  consider "ev_ptr e = PServer" "ev_flags e AND Ev_Read \<noteq> 0" | "ev_ptr e = PServer" "ev_flags e AND Ev_Read = 0"
    | "ev_ptr e \<noteq> PServer" "ptr_session (ev_ptr e) = None"
    | n where "ev_ptr e \<noteq> PServer" "ptr_session (ev_ptr e) = Some n" by blast
  then show ?thesis
  proof cases
    case 1
    have "safe (create_new_session fd) (\<lambda>_. safe (ret es) ?Q) t" if "polled t" "pending es t" "os t = os s" for fd t
      by (rule wpre_mono [OF create_session_safe [OF that(1,2)]]) (simp_all add: wp that(3))
    then have "safe (bnd accept_client (\<lambda>fd. bnd (create_new_session fd) (\<lambda>_. ret es))) ?Q s"
      unfolding wpre_bnd by (intro accept_client_safe [OF s ev]) auto
    then show ?thesis using 1 by (simp add: run_event_def)
  next
    case 2
    have "safe (bnd stop (\<lambda>_. ret [])) ?Q s"
      unfolding wpre_bnd by (rule wpre_mono [OF stop_safe [OF s]]) (simp_all add: wp none)
    then show ?thesis using 2 by (simp add: run_event_def)
  next
    case 3
    then show ?thesis using s ev by (simp add: run_event_def wp)
  next
    case (4 n)
    obtain se where se: "sv_heap s n = Some se" using es 4(2) by (auto simp: pending_def events_ok_def)
    have "safe (bnd (on_session n (ptr_handler (ev_ptr e) (ev_flags e))) (\<lambda>ok.
        if ok then ret es else seq (check_events es) (seq (delete_session n) (ret (invalidate_events n es))))) ?Q s"
      by (rule handler_safe [OF s es se 4(2)]) (simp_all add: wp)
    then show ?thesis using 4 by (simp add: run_event_def)
  qed
qed

lemma stop_keeps_pending: "keeps (\<lambda>t. polled t \<and> pending es t \<and> os t = f) stop"
proof -
  have calls: "plain_closed (\<lambda>t. polled t \<and> pending es t \<and> os t = f)"
    using polled_calls [of f]
    by (auto simp: plain_closed_def pending_def events_ok_def sockets_ok_def syscall_def Let_def)
  show ?thesis
    unfolding stop_def
    by (intro keeps_bnd keeps_asks plain_calls_keep calls keeps_upd)
      (simp add: polled_def pending_def server_inv_def events_ok_def sockets_ok_def)
qed

lemma server_step_valid:
  assumes "server_step c d" and "polled (snd c)" and "pending (fst c) (snd c)" and "epoll_honest (os (snd c))"
  shows "polled (snd d) \<and> pending (fst d) (snd d) \<and> os (snd d) = os (snd c)"
  using assms
proof (induction rule: server_step.induct)
  case (Report s res es t)
  have "safe (poll POLL_TIMEOUT) (\<lambda>(res, es) u. polled u \<and> pending es u \<and> os u = os s) s"
    by (rule poll_safe) (use Report in simp_all)
  with Report(2) show ?case by (simp add: wpre_def)
next
  case (Handle e es s es' t)
  then show ?case using run_event_safe [of s e es] by (simp add: wpre_def)
next
  case (Signal s t es)
  have "polled t \<and> pending es t \<and> os t = os s"
    by (rule keepsD [OF stop_keeps_pending _ Signal(1)]) (use Signal in simp)
  then show ?case by simp
qed

lemma server_steps_valid:
  assumes "server_step\<^sup>*\<^sup>* c d" and "polled (snd c)" and "pending (fst c) (snd c)" and "epoll_honest (os (snd c))"
  shows "polled (snd d) \<and> pending (fst d) (snd d) \<and> os (snd d) = os (snd c)"
  using assms
proof (induction rule: rtranclp_induct)
  case (step d e)
  then show ?case using server_step_valid [of d e] by simp
qed simp

lemma idle_polled:
  assumes "sv_sessions s = []" and "sv_heap s = Map.empty" and "\<forall>fd p. registered (trace s) fd = Some p \<longrightarrow> p = PServer"
  shows "polled s"
proof -
  have "ptr_session p = None" if "registered (trace s) fd = Some p" for fd p
    using assms(3) that by fastforce
  then show ?thesis using assms(1,2) by (auto simp: polled_def server_inv_def)
qed

subsection \<open>Properties\<close>

text \<open>
  C2: A server without sessions that serves with a poller that reports only registered descriptors stays
  valid whatever the order of polls, events and interrupts: the listed sessions are those allocated, every
  event still to come points to one of them, and handling the next one uses no deleted session and finds
  no socket or lookup missing.
\<close>

theorem interrupted_server_stays_valid:
  assumes "server_step\<^sup>*\<^sup>* ([], s) (es, t)" and "epoll_honest (os s)"
    and "sv_sessions s = []" and "sv_heap s = Map.empty" and "\<forall>fd p. registered (trace s) fd = Some p \<longrightarrow> p = PServer"
  shows "server_inv t \<and> events_ok es t
    \<and> (\<forall>e rest f u. es = e # rest \<longrightarrow> run_event e rest t = (Inl f, u) \<longrightarrow>
         f \<notin> UndefinedBehaviour ` {''use after free'', ''double free'', ''erase at end'',
           ''null remote socket'', ''null udp socket'', ''no such dns socket''})"
proof -
  have "polled s" using assms(3-5) by (rule idle_polled)
  moreover have "pending [] s" by (simp add: pending_def events_ok_def sockets_ok_def)
  ultimately have t: "polled t" "pending es t" using server_steps_valid [OF assms(1)] assms(2) by simp_all
  have "benign f" if "es = e # rest" "run_event e rest t = (Inl f, u)" for e rest f u
    using run_event_safe [of t e rest] t that by (simp add: wpre_def)
  then show ?thesis
    using t by (auto simp: polled_def pending_def benign_def heap_faults_def socket_faults_def)
qed

text \<open>A server that has registered its socket, whose first client arrives; the interrupt comes before the accept.\<close>

definition listening :: server where
  "listening = snd (register_event (Event 3 Ev_Read PServer) (server_of busy_kernel ServerParams_default))"

theorem interrupted_server_stays_valid_witness:
  "\<exists>es t. server_step\<^sup>*\<^sup>* ([], listening) (es, t) \<and> map ev_ptr es = [PServer] \<and> \<not> is_serving t
    \<and> server_inv t \<and> events_ok es t"
proof -
  let ?p = "poll POLL_TIMEOUT listening"
  have "\<exists>res es t. ?p = (Inr (res, es), t) \<and> res = 1 \<and> map ev_ptr es = [PServer]
    \<and> fst (stop t) = Inr () \<and> \<not> is_serving (snd (stop t))"
  proof -
    have "(case ?p of (Inr (res, es), t) \<Rightarrow> res = 1 \<and> map ev_ptr es = [PServer]
        \<and> (case stop t of (Inr _, u) \<Rightarrow> \<not> is_serving u | _ \<Rightarrow> False) | _ \<Rightarrow> False)"
      by code_simp
    then show ?thesis by (auto split: prod.splits sum.splits)
  qed
  then obtain res es t where p: "?p = (Inr (res, es), t)" "res = 1" "map ev_ptr es = [PServer]"
    and stop: "stop t = (Inr (), snd (stop t))" "\<not> is_serving (snd (stop t))"
    by (metis prod.collapse)
  have "is_serving listening" by code_simp
  from server_step.Report [OF this p(1)] p(2) have "server_step ([], listening) (es, t)" by simp
  with server_step.Signal [OF stop(1), of es] have run: "server_step\<^sup>*\<^sup>* ([], listening) (es, snd (stop t))"
    by (meson converse_rtranclp_into_rtranclp r_into_rtranclp)
  have "sv_sessions listening = []" "sv_heap listening = Map.empty" "os listening = busy_kernel"
      "\<forall>fd p. registered (trace listening) fd = Some p \<longrightarrow> p = PServer"
    by (simp_all add: listening_def register_event_def epoll_ctl_def sys_int_def bnd_def syscall_def Let_def server_of_def Event_def)
  with interrupted_server_stays_valid [OF run] busy_kernel_honest
  have "server_inv (snd (stop t)) \<and> events_ok es (snd (stop t))" by simp
  with run p(3) stop(2) show ?thesis
    by (intro exI [of _ es] exI [of _ "snd (stop t)"]) simp
qed

subsection \<open>One client's failure ends the service\<close>

lemma serve_loop_fault:
  assumes "is_serving s" and "poll POLL_TIMEOUT s = (Inr (res, e # es), t)" and "res \<noteq> -1" and "res \<noteq> 0"
    and "run_event e es t = (Inl f, u)"
  shows "serve_loop (Suc k) s = (Inl f, u)"
proof -
  have "run_batch (e # es) t = (Inl f, u)"
    using assms(5) by (simp only: run_batch_run_event bnd_Inl)
  with assms(1-4) show ?thesis by (simp add: bnd_def seq_def del: run_batch.simps)
qed

text \<open>Whatever a handler of a session throws.\<close>

lemma session_fault_ends_service:
  assumes "is_serving s" and "poll POLL_TIMEOUT s = (Inr (res, e # es), t)" and "res \<noteq> -1" and "res \<noteq> 0"
    and "ptr_session (ev_ptr e) = Some n" and "sv_heap t n = Some se"
    and "ptr_handler (ev_ptr e) (ev_flags e) (session_view t se) = (Inl f, v)"
  shows "serve_loop (Suc k) s = (Inl f, put_session n v t)"
proof (rule serve_loop_fault [OF assms(1-4)])
  show "run_event e es t = (Inl f, put_session n v t)"
    using assms(5-7) by (auto simp: run_event_def bnd_def on_session_exec)
qed

lemma initialize_gone:
  assumes "\<forall>h. \<not> sr_ok (os s h (Sys_getpeername (se_client (sess s))))"
  shows "\<exists>t. initialize s = (Inl (RuntimeError ''getpeername''), t)"
proof -
  have "wpre initialize (\<lambda>_ _. False) (\<lambda>e _. e = RuntimeError ''getpeername'') s"
    using assms unfolding initialize_def set_event_def epoll_ctl_def get_peer_address_def set_nodelay_def set_keepalive_def
    by (simp add: wp Let_def)
  then show ?thesis by (cases "initialize s") (auto simp: wpre_def split: sum.splits)
qed

lemma create_gone:
  assumes "\<forall>h. \<not> sr_ok (os s h (Sys_getpeername fd))"
  shows "\<exists>t. create_new_session fd s = (Inl (RuntimeError ''getpeername''), t)"
proof -
  let ?n = "sv_next s"
  obtain se s1 where se: "Session_new ?n fd s = (Inr se, s1)" "se_client se = fd" "os s1 = os s"
    by (auto simp: Session_new_def ClientSocket_new_def set_blocking_def sys_int_def exec_simps uninit_def)
  let ?s2 = "s1\<lparr>sv_heap := (sv_heap s1)(?n := Some se), sv_next := ?n + 1\<rparr>"
  obtain u where "initialize (session_view ?s2 se) = (Inl (RuntimeError ''getpeername''), u)"
    using initialize_gone [of "session_view ?s2 se"] assms se(2,3) by auto
  then have "on_session ?n initialize ?s2 = (Inl (RuntimeError ''getpeername''), put_session ?n u ?s2)"
    by (simp add: on_session_exec)
  then show ?thesis
    using se(1) by (simp add: create_new_session_def seq_def bnd_def)
qed

text \<open>
  C32: An accept that fails, for want of descriptors or because the client has gone, ends the loop with the
  exception of \<open>accept\<close>, and a client that has gone when the server asks for its address ends it with the
  exception of \<open>getpeername\<close>; nothing catches either, so the service ends for every client.
\<close>

theorem gone_client_ends_service:
  assumes "is_serving s" and "poll POLL_TIMEOUT s = (Inr (res, e # es), t)" and "res \<noteq> -1" and "res \<noteq> 0"
    and "ev_ptr e = PServer" and "ev_flags e AND Ev_Read \<noteq> 0"
    and "a = os t (trace t) (Sys_accept (sv_fd t))"
    and "sr_ok a \<Longrightarrow> \<forall>h. \<not> sr_ok (os t h (Sys_getpeername (int (sr_val a))))"
  shows "fst (serve_loop (Suc k) s) = Inl (if sr_ok a then RuntimeError ''getpeername'' else SocketAcceptException (sr_errno a))"
proof -
  let ?t = "after (Sys_accept (sv_fd t)) t"
  obtain f u where run: "run_event e es t = (Inl f, u)"
    and f: "f = (if sr_ok a then RuntimeError ''getpeername'' else SocketAcceptException (sr_errno a))"
  proof (cases "sr_ok a")
    case False
    then show ?thesis
      using that assms(5-7)
      by (simp add: run_event_def accept_client_def Socket_accept_def sys_int_def exec_simps)
  next
    case True
    obtain u where u: "create_new_session (int (sr_val a)) ?t = (Inl (RuntimeError ''getpeername''), u)"
      using create_gone [of ?t "int (sr_val a)"] assms(8) [OF True] by auto
    have "accept_client t = (Inr (int (sr_val a)), ?t)"
      using True assms(7) by (simp add: accept_client_def Socket_accept_def sys_int_def exec_simps)
    then have "run_event e es t = (Inl (RuntimeError ''getpeername''), u)"
      using assms(5,6) u by (simp add: run_event_def bnd_def)
    then show ?thesis using that True by simp
  qed
  show ?thesis using serve_loop_fault [OF assms(1-4) run] f by simp
qed

text \<open>A kernel that has no descriptor left for the client that it reports.\<close>

definition full_kernel :: "history \<Rightarrow> syscall \<Rightarrow> sysret" where
  "full_kernel h c = (case c of
     Sys_accept _ \<Rightarrow> (answer 0)\<lparr>sr_ok := False, sr_errno := 24\<rparr>
   | _ \<Rightarrow> busy_kernel h c)"

theorem gone_client_ends_service_witness:
  "fst (serve_loop 1 (snd (register_event (Event 3 Ev_Read PServer) (server_of full_kernel ServerParams_default))))
    = Inl (SocketAcceptException 24)"
proof -
  let ?s = "snd (register_event (Event 3 Ev_Read PServer) (server_of full_kernel ServerParams_default))"
  let ?p = "poll POLL_TIMEOUT ?s"
  have "is_serving ?s" by code_simp
  have "fst ?p = Inr (1, [Event 0 Ev_Read PServer])" by code_simp
  then obtain t where p: "?p = (Inr (1, [Event 0 Ev_Read PServer]), t)" by (cases ?p) simp
  have e: "ev_ptr (Event 0 Ev_Read PServer) = PServer" "ev_flags (Event 0 Ev_Read PServer) AND Ev_Read \<noteq> 0"
    by code_simp+
  have "os t = full_kernel"
    using p by (auto simp: poll_def bnd_def syscall_def Let_def register_event_def epoll_ctl_def sys_int_def server_of_def
        split: if_splits)
  then have a: "\<not> sr_ok (os t (trace t) (Sys_accept (sv_fd t)))" "sr_errno (os t (trace t) (Sys_accept (sv_fd t))) = 24"
    by (simp_all add: full_kernel_def)
  have "fst (serve_loop (Suc 0) ?s) = Inl (if sr_ok (os t (trace t) (Sys_accept (sv_fd t))) then RuntimeError ''getpeername''
      else SocketAcceptException (sr_errno (os t (trace t) (Sys_accept (sv_fd t)))))"
    by (rule gone_client_ends_service [OF \<open>is_serving ?s\<close> p _ _ e refl]) (use a(1) in simp_all)
  then show ?thesis using a by simp
qed

end
