(* ===== verification/Logging.thy ===== *)
theory Logging
  imports Decimal "HOL-Library.Signed_Division"
begin

section \<open>Logging\<close>

text \<open>
  \<open>core/log.hpp\<close>, with the defaults of the build: logs are enabled, locations are not. A macro writes a line to
  \<open>stderr\<close> when its level is enabled. The clock is a parameter, nanoseconds since the epoch as a signed 64-bit
  number, and so is \<open>localtime\<close>; the formatted message is an argument.
\<close>

subsection \<open>Levels\<close>

text \<open>The enumerators compare by their numbers.\<close>

fun level_number :: "log_level \<Rightarrow> nat" where
  "level_number Off = 0"
| "level_number Error = 1"
| "level_number Warning = 2"
| "level_number Info = 3"
| "level_number Debug = 4"

lemma level_number_inject: "level_number a = level_number b \<longleftrightarrow> a = b"
  by (cases a; cases b) simp_all

instantiation log_level :: linorder
begin

definition less_eq_log_level :: "log_level \<Rightarrow> log_level \<Rightarrow> bool" where
  "less_eq_log_level a b \<longleftrightarrow> level_number a \<le> level_number b"

definition less_log_level :: "log_level \<Rightarrow> log_level \<Rightarrow> bool" where
  "less_log_level a b \<longleftrightarrow> level_number a < level_number b"

instance
  by standard (auto simp: less_eq_log_level_def less_log_level_def level_number_inject)

end

definition escape :: "string \<Rightarrow> bytes" where
  "escape code = 27 # str code"

fun level_color :: "log_level \<Rightarrow> bytes" where
  "level_color Off = escape ''[0m''"
| "level_color Error = escape ''[31m''"
| "level_color Warning = escape ''[33m''"
| "level_color Info = escape ''[94m''"
| "level_color Debug = escape ''[90m''"

subsection \<open>The time stamp\<close>

record tm =
  tm_hour :: nat
  tm_min :: nat
  tm_sec :: nat

text \<open>
  The milliseconds: both the cast of the duration and the remainder round to zero, and the result is
  converted to \<open>unsigned long\<close>.
\<close>

definition milliseconds :: "int \<Rightarrow> 64 word" where
  "milliseconds ns = word_of_int ((ns sdiv 1000000) smod 1000)"

definition strftime_HMS :: "tm \<Rightarrow> bytes" where
  "strftime_HMS t = padded 48 2 (dec (tm_hour t)) @ 58 # padded 48 2 (dec (tm_min t)) @ 58 # padded 48 2 (dec (tm_sec t))"

definition TIME_BUFFER :: nat where "TIME_BUFFER = 24"

text \<open>
  \<open>strftime\<close> writes nothing, and returns 0, when the text and its zero do not fit; \<open>sprintf\<close> has no bound.
\<close>

definition time_stamp :: "(int \<Rightarrow> tm) \<Rightarrow> int \<Rightarrow> fault + bytes" where
  "time_stamp localtime ns =
     (let hms = strftime_HMS (localtime (ns sdiv 1000000000));
          head = (if length hms + 1 \<le> TIME_BUFFER then hms else []);
          text = head @ 46 # padded 48 3 (dec (unat (milliseconds ns))) in
      if length text + 1 \<le> TIME_BUFFER then Inr text else Inl (UndefinedBehaviour ''_time_buffer''))"

subsection \<open>The macros\<close>

record logger =
  loglevel :: log_level
  stderr :: bytes

definition log_line :: "log_level \<Rightarrow> string \<Rightarrow> bytes \<Rightarrow> bytes \<Rightarrow> bytes" where
  "log_line level tag time message =
     level_color level @ str ''['' @ str tag @ str ''] '' @ time @ str '' > '' @ escape ''[0m'' @ message @ [10]"

definition SOCKSPP_LOG :: "(int \<Rightarrow> tm) \<Rightarrow> int \<Rightarrow> string \<Rightarrow> log_level \<Rightarrow> bytes \<Rightarrow> (logger, unit) exec" where
  "SOCKSPP_LOG localtime ns tag level message = bnd (asks loglevel) (\<lambda>enabled.
     when_do (level \<le> enabled) (case time_stamp localtime ns of
       Inl e \<Rightarrow> throw e
     | Inr time \<Rightarrow> upd (\<lambda>s. s\<lparr>stderr := stderr s @ log_line level tag time message\<rparr>)))"

text \<open>\<open>LOGI\<close>, \<open>LOGD\<close>, \<open>LOGW\<close>, \<open>LOGE\<close>; no macro logs at the level \<open>Off\<close>.\<close>

datatype log_macro = LOGI | LOGD | LOGW | LOGE

fun macro_level :: "log_macro \<Rightarrow> log_level" where
  "macro_level LOGI = Info"
| "macro_level LOGD = Debug"
| "macro_level LOGW = Warning"
| "macro_level LOGE = Error"

fun macro_tag :: "log_macro \<Rightarrow> string" where
  "macro_tag LOGI = ''I''"
| "macro_tag LOGD = ''D''"
| "macro_tag LOGW = ''W''"
| "macro_tag LOGE = ''E''"

definition LOG :: "(int \<Rightarrow> tm) \<Rightarrow> log_macro \<times> int \<times> bytes \<Rightarrow> (logger, unit) exec" where
  "LOG localtime = (\<lambda>(k, ns, message). SOCKSPP_LOG localtime ns (macro_tag k) (macro_level k) message)"

definition SET_LOG_LEVEL :: "log_level \<Rightarrow> (logger, unit) exec" where
  "SET_LOG_LEVEL level = upd (\<lambda>s. s\<lparr>loglevel := level\<rparr>)"

text \<open>\<open>LOG_SCOPE\<close>: a block that only prepares messages of a level.\<close>

definition LOG_SCOPE :: "log_level \<Rightarrow> (logger, unit) exec \<Rightarrow> (logger, unit) exec" where
  "LOG_SCOPE level block = bnd (asks loglevel) (\<lambda>enabled. when_do (level \<le> enabled) block)"

lemma LOG_SCOPE_LOG: "LOG_SCOPE (macro_level (fst m)) (LOG localtime m) s = LOG localtime m s"
  by (simp add: LOG_SCOPE_def LOG_def SOCKSPP_LOG_def exec_simps split: prod.splits)

subsection \<open>Lengths of numbers\<close>

lemma dec_at_most: "n < 10 ^ Suc k \<Longrightarrow> length (dec n) \<le> Suc k"
proof (induction k arbitrary: n)
  case 0
  then show ?case by (simp add: dec_less)
next
  case (Suc k)
  then have "n div 10 < 10 ^ Suc k" by (simp add: div_less_iff_less_mult)
  with Suc show ?case by (cases "n < 10") (simp_all add: dec_less dec_more)
qed

lemma dec_more_than: "10 ^ k \<le> n \<Longrightarrow> k < length (dec n)"
proof (induction k arbitrary: n)
  case 0
  then show ?case using dec_not_Nil by simp
next
  case (Suc k)
  then have "10 ^ k \<le> n div 10" by (simp add: less_eq_div_iff_mult_less_eq)
  moreover have "10 \<le> n" using Suc.prems order_trans [of 10 "10 ^ Suc k" n] by simp
  ultimately show ?case using Suc.IH [of "n div 10"] by (simp add: dec_more)
qed

lemma padded_2: "n < 100 \<Longrightarrow> length (padded 48 2 (dec n)) = 2"
  using dec_at_most [of n 1] by (simp add: padded_def)

lemma padded_3: "n < 1000 \<Longrightarrow> length (padded 48 3 (dec n)) = 3"
  using dec_at_most [of n 2] by (simp add: padded_def)

subsection \<open>What is logged\<close>

definition valid_tm :: "tm \<Rightarrow> bool" where
  "valid_tm t \<longleftrightarrow> tm_hour t < 24 \<and> tm_min t < 60 \<and> tm_sec t \<le> 60"

lemma strftime_HMS_length: "valid_tm t \<Longrightarrow> length (strftime_HMS t) = 8"
  by (simp add: valid_tm_def strftime_HMS_def padded_2)

text \<open>The rounding remainder has the sign of the time.\<close>

lemma rounding_remainder:
  "0 \<le> ns \<Longrightarrow> (ns sdiv 1000000) smod 1000 = ns div 1000000 mod 1000"
  "ns < 0 \<Longrightarrow> (ns sdiv 1000000) smod 1000 = - (- ns div 1000000 mod 1000)" for ns :: int
proof -
  have q: "ns sdiv 1000000 = (if 0 \<le> ns then ns div 1000000 else - (- ns div 1000000))"
    by (simp add: signed_divide_int_def sgn_if)
  have r: "x smod 1000 = (if 0 \<le> x then x mod 1000 else - (- x mod 1000))" for x :: int
    by (auto simp: signed_modulo_int_def signed_divide_int_def sgn_if minus_div_mult_eq_mod [symmetric])
  show "0 \<le> ns \<Longrightarrow> (ns sdiv 1000000) smod 1000 = ns div 1000000 mod 1000"
    by (simp add: q r pos_imp_zdiv_nonneg_iff)
  assume "ns < 0"
  moreover have "0 \<le> - ns div 1000000" if "ns < 0" using that by (simp add: pos_imp_zdiv_nonneg_iff)
  ultimately show "(ns sdiv 1000000) smod 1000 = - (- ns div 1000000 mod 1000)"
    by (auto simp: q r)
qed

lemma milliseconds_small: "0 \<le> ns \<Longrightarrow> unat (milliseconds ns) = nat (ns div 1000000 mod 1000)"
proof -
  have "0 \<le> ns div 1000000 mod 1000" "ns div 1000000 mod 1000 < 1000" by simp_all
  moreover assume "0 \<le> ns"
  ultimately show ?thesis
    by (simp add: milliseconds_def rounding_remainder unsigned_of_int take_bit_int_eq_self)
qed

lemma minus_mod_64: "0 < m \<Longrightarrow> m < 1000 \<Longrightarrow> - m mod 2 ^ 64 = 2 ^ 64 - m" for m :: int
proof -
  assume "0 < m" "m < 1000"
  then have "(2 ^ 64 - m) mod 2 ^ 64 = 2 ^ 64 - m" by (intro mod_pos_pos_trivial) simp_all
  then show ?thesis using mod_add_self1 [of "2 ^ 64" "- m"] by (simp only: diff_conv_add_uminus)
qed

lemma milliseconds_large:
  assumes "ns < 0" and "- ns div 1000000 mod 1000 \<noteq> 0"
  shows "10 ^ 19 \<le> unat (milliseconds ns)"
proof -
  let ?m = "- ns div 1000000 mod 1000"
  have m: "0 < ?m" "?m < 1000" using assms(2) pos_mod_bound [of 1000 "- ns div 1000000"] pos_mod_sign [of 1000 "- ns div 1000000"] by linarith+
  have "- ?m mod 2 ^ 64 = 2 ^ 64 - ?m" using m by (rule minus_mod_64)
  moreover have "unat (word_of_int k :: 64 word) = nat (k mod 2 ^ 64)" for k
    by (simp add: unsigned_of_int take_bit_eq_mod)
  moreover have "milliseconds ns = word_of_int (- ?m)"
    by (simp only: milliseconds_def rounding_remainder(2) [OF assms(1)])
  ultimately have "unat (milliseconds ns) = nat (2 ^ 64 - ?m)" by (simp only:)
  then show ?thesis using m by simp
qed

text \<open>
  The time stamp fits its buffer of 24 bytes, with 12 characters, when the clock is not before
  the epoch; before it, it overflows at every time that is not within the first
  millisecond of a second.
\<close>

lemma time_stamp_fits:
  assumes "\<And>t. valid_tm (localtime t)" and "0 \<le> ns"
  shows "\<exists>text. time_stamp localtime ns = Inr text \<and> length text = 12"
proof -
  have "unat (milliseconds ns) < 1000" using assms(2) by (simp add: milliseconds_small nat_less_iff)
  then show ?thesis
    using strftime_HMS_length [OF assms(1), of "ns sdiv 1000000000"] by (simp add: time_stamp_def Let_def TIME_BUFFER_def padded_3)
qed

lemma time_stamp_overflows:
  assumes "\<And>t. valid_tm (localtime t)" and "ns < 0" and "- ns div 1000000 mod 1000 \<noteq> 0"
  shows "time_stamp localtime ns = Inl (UndefinedBehaviour ''_time_buffer'')"
  using strftime_HMS_length [OF assms(1), of "ns sdiv 1000000000"] dec_more_than [OF milliseconds_large [OF assms(2,3)]]
  by (simp add: time_stamp_def Let_def TIME_BUFFER_def padded_def)

text \<open>Over a run of messages exactly those of an enabled level are written, in order, each as a line.\<close>

definition line_of :: "(int \<Rightarrow> tm) \<Rightarrow> log_macro \<times> int \<times> bytes \<Rightarrow> bytes" where
  "line_of localtime = (\<lambda>(k, ns, message). case time_stamp localtime ns of
     Inl _ \<Rightarrow> [] | Inr time \<Rightarrow> log_line (macro_level k) (macro_tag k) time message)"

lemma enabled_messages_are_written:
  assumes "\<And>t. valid_tm (localtime t)" and "\<forall>(k, ns, message) \<in> set ms. 0 \<le> ns"
  shows "for_each (LOG localtime) ms s = (Inr (), s\<lparr>stderr := stderr s
    @ concat (map (line_of localtime) (filter (\<lambda>m. macro_level (fst m) \<le> loglevel s) ms))\<rparr>)"
  using assms(2)
proof (induction ms arbitrary: s)
  case Nil
  then show ?case by simp
next
  case (Cons m ms)
  obtain k ns message where m: "m = (k, ns, message)" by (cases m)
  from Cons.prems m obtain st where "time_stamp localtime ns = Inr st"
    using time_stamp_fits [of localtime ns] assms(1) by auto
  with m Cons.IH Cons.prems show ?case
    by (simp add: LOG_def SOCKSPP_LOG_def exec_simps line_of_def)
qed

end
