(* ===== verification/SocketOwner.thy ===== *)
theory SocketOwner
  imports Socket
begin

section \<open>Who owns a descriptor\<close>

text \<open>
  The operations of \<open>core/socket.hpp\<close> and \<open>core/socket.cxx\<close> that pass a descriptor from one \<open>Socket\<close> object to
  another: construction, move, detach, move assignment, destruction. Copying is deleted. Here the objects are
  explicit, each with its \<open>_fd\<close>; everywhere else a socket is its descriptor, which the invariant of this
  theory justifies: no two objects own the same one.
\<close>

record owners = world +
  fd_of :: "nat \<Rightarrow> int"

type_synonym 'a own = "(owners, 'a) exec"

definition Socket_from_fd :: "nat \<Rightarrow> int \<Rightarrow> unit own" where
  "Socket_from_fd i fd = upd (\<lambda>s. s\<lparr>fd_of := (fd_of s)(i := fd)\<rparr>)"

definition Socket_get_fd :: "nat \<Rightarrow> int own" where
  "Socket_get_fd i = asks (\<lambda>s. fd_of s i)"

definition Socket_move :: "nat \<Rightarrow> nat \<Rightarrow> unit own" where
  "Socket_move i other = upd (\<lambda>s. s\<lparr>fd_of := (fd_of s)(i := fd_of s other, other := -1)\<rparr>)"

definition Socket_detach :: "nat \<Rightarrow> int own" where
  "Socket_detach i = bnd (Socket_get_fd i) (\<lambda>fd. seq (upd (\<lambda>s. s\<lparr>fd_of := (fd_of s)(i := -1)\<rparr>)) (ret fd))"

definition Socket_assign :: "nat \<Rightarrow> nat \<Rightarrow> unit own" where
  "Socket_assign i other = bnd (Socket_detach other) (Socket_from_fd i)"

definition Socket_destroy :: "nat \<Rightarrow> unit own" where
  "Socket_destroy i = bnd (Socket_get_fd i) (\<lambda>fd. bnd (Socket_close fd) (Socket_from_fd i))"

text \<open>The move constructor of \<open>SessionSocket\<close>: its socket is made without a value and then assigned.\<close>

definition SessionSocket_move :: "nat \<Rightarrow> nat \<Rightarrow> unit own" where
  "SessionSocket_move i other = Socket_assign i other"

lemmas owner_defs = Socket_from_fd_def Socket_get_fd_def Socket_move_def Socket_detach_def
  Socket_assign_def Socket_destroy_def SessionSocket_move_def

subsection \<open>Steps\<close>

text \<open>
  What can happen to the objects. A constructor makes its object anew, so the object owned nothing; the descriptor
  of a new object is one no other object owns, as the kernel's are.
\<close>

definition owned_fds :: "owners \<Rightarrow> int set" where
  "owned_fds s = fd_of s ` UNIV - {-1}"

inductive owner_step :: "owners \<Rightarrow> owners \<Rightarrow> bool" where
  Make: "fd_of s i = -1 \<Longrightarrow> fd \<notin> owned_fds s \<Longrightarrow> Socket_from_fd i fd s = (Inr (), t) \<Longrightarrow> owner_step s t"
| Move: "fd_of s i = -1 \<Longrightarrow> i \<noteq> j \<Longrightarrow> Socket_move i j s = (Inr (), t) \<Longrightarrow> owner_step s t"
| Detach: "Socket_detach i s = (Inr fd, t) \<Longrightarrow> owner_step s t"
| Assign: "Socket_assign i j s = (Inr (), t) \<Longrightarrow> owner_step s t"
| Destroy: "Socket_destroy i s = (Inr (), t) \<Longrightarrow> owner_step s t"

definition owned_once :: "owners \<Rightarrow> bool" where
  "owned_once s \<longleftrightarrow> (\<forall>i j. i \<noteq> j \<longrightarrow> fd_of s i \<noteq> -1 \<longrightarrow> fd_of s i \<noteq> fd_of s j)"

text \<open>A destructor closes the descriptor that its object owns, and nothing when it owns none.\<close>

lemma Socket_destroy_exec:
  "Socket_destroy i s = (Inr (), (if fd_of s i = -1 then s else after (Sys_close (fd_of s i)) s)\<lparr>fd_of := (fd_of s)(i := -1)\<rparr>)"
  by (simp add: owner_defs Socket_close_def sys_int_def exec_simps)

lemma Socket_detach_exec: "Socket_detach i s = (Inr (fd_of s i), s\<lparr>fd_of := (fd_of s)(i := -1)\<rparr>)"
  by (simp add: owner_defs exec_simps)

lemma Socket_assign_exec: "Socket_assign i j s = (Inr (), s\<lparr>fd_of := (fd_of s)(j := -1, i := fd_of s j)\<rparr>)"
  by (simp add: owner_defs exec_simps)

lemma owner_step_owned_once: "owner_step s t \<Longrightarrow> owned_once s \<Longrightarrow> owned_once t"
proof (induction rule: owner_step.induct)
  case (Make s i fd t)
  then show ?case by (auto simp: owner_defs owned_once_def owned_fds_def exec_simps split: if_splits; metis)
next
  case (Move s i j t)
  then show ?case by (auto simp: owner_defs owned_once_def exec_simps fun_upd_apply split: if_splits; metis)
next
  case (Detach i s fd t)
  then show ?case by (auto simp: Socket_detach_exec owned_once_def split: if_splits; metis)
next
  case (Assign i j s t)
  then show ?case by (auto simp: Socket_assign_exec owned_once_def split: if_splits; metis)
next
  case (Destroy i s t)
  then show ?case by (auto simp: Socket_destroy_exec owned_once_def split: if_splits; metis)
qed

lemma owners_owned_once: "owner_step\<^sup>*\<^sup>* s t \<Longrightarrow> owned_once s \<Longrightarrow> owned_once t"
  by (induction rule: rtranclp_induct) (auto intro: owner_step_owned_once)

text \<open>
  A step takes descriptors away from the objects in three ways only: it returns one (\<open>detach\<close>), it closes one
  (the destructor), or a move assignment overwrites one, which nothing closes.
\<close>

lemma Socket_assign_leaks:
  assumes "owned_once s" and "i \<noteq> j" and "fd_of s i \<noteq> -1"
  shows "\<exists>t. Socket_assign i j s = (Inr (), t) \<and> fd_of s i \<notin> owned_fds t \<and> trace t = trace s"
proof -
  have "fd_of s i \<noteq> fd_of s k" if "k \<noteq> i" for k using assms(1,3) that by (auto simp: owned_once_def)
  then have "fd_of s i \<notin> owned_fds (s\<lparr>fd_of := (fd_of s)(j := -1, i := fd_of s j)\<rparr>)"
    using assms(2,3) by (auto simp: owned_fds_def image_iff)
  then show ?thesis by (simp add: Socket_assign_exec)
qed

lemma Socket_move_keeps_owned:
  assumes "fd_of s i = -1" and "i \<noteq> j"
  shows "\<exists>t. Socket_move i j s = (Inr (), t) \<and> owned_fds t = owned_fds s"
proof -
  have "owned_fds (s\<lparr>fd_of := (fd_of s)(i := fd_of s j, j := -1)\<rparr>) = owned_fds s"
    using assms by (auto simp: owned_fds_def image_iff split: if_splits)
  then show ?thesis by (simp add: owner_defs exec_simps)
qed

end
