(* ===== verification/Spec2Isabelle.thy ===== *)
theory Spec2Isabelle
  imports DnsPrint Requests Interrupts Logging SocketOwner
begin

text \<open>
  sockspp, a SOCKS5 proxy server (RFC 1928, RFC 1929) in C++, verified against its sources under \<open>src/src\<close>: what is
  modelled, in which theory, and what is proved of it. Paths below are relative to \<open>src/src\<close>; \<open>core/\<close> stands for
  \<open>core/src/sockspp/core/\<close>, \<open>server/\<close> for \<open>server/src/sockspp/server/\<close>, \<open>dnslib/\<close> for \<open>core/src/dnslib/\<close>.

  \<^bold>\<open>The program and its parts.\<close> \<open>server_cli/\<close> reads the command line and starts a server. The server listens, waits
  for events with epoll and hands each to the session of its socket. A session is a state machine: greeting, password,
  command, name lookup, connection, relay. It owns the client's socket, the destination's, a UDP socket for
  an association and the sockets of its lookups, which speak DNS through \<open>dnslib/\<close>. Messages of SOCKS5 are read and
  written in place, through accessors over a block of bytes.

  \<^bold>\<open>Ground.\<close> \<open>Prelude\<close>: machine integers are words of their width, a block of memory is a function from offsets to
  bytes (it may be uninitialised, then its contents are arbitrary), and a stateful function is a state
  transformer that returns a value or a \<open>fault\<close>: an exception of the sources with its data, or undefined behaviour with
  its reason. Two judgements, weakest preconditions (\<open>wpre\<close>) and preservation (\<open>keeps\<close>, \<open>raises\<close>), are closed under the
  combinators. \<open>System\<close>: the kernel is a parameter, any function from the history of calls to the answer of the next
  one, so that every theorem holds for every behaviour of the network, the peers and the poller that the
  theorem does not exclude by a named hypothesis; all calls are recorded in \<open>trace\<close>.

  \<^bold>\<open>Which theory models what.\<close>
  \<^item> \<open>MemBuffer\<close>: \<open>core/memory_buffer.hpp\<close>, \<open>core/buffer.cxx\<close>; \<open>S5\<close>: \<open>core/s5_enums.hpp\<close>, \<open>core/s5.hpp\<close>, \<open>core/s5.cxx\<close>.
  \<^item> \<open>NetAddr\<close>: \<open>core/ip_address.cxx\<close> and \<open>SocketInfo\<close>; \<open>Socket\<close>: \<open>core/socket.cxx\<close> and
    \<open>server/session_socket.hpp\<close>; \<open>SocketOwner\<close>: how descriptors pass between socket objects; \<open>Poller\<close>: \<open>core/poller/\<close>;
    \<open>Logging\<close>: \<open>core/log.hpp\<close>.
  \<^item> \<open>DnsBuffer\<close>, \<open>DnsRecords\<close>, \<open>DnsMessage\<close>: \<open>dnslib/buffer.cpp\<close>, \<open>rr.cpp\<close>, \<open>qs.cpp\<close>, \<open>message.cpp\<close>; \<open>DnsApi\<close>: the
    setters of their headers; \<open>DnsPrint\<close>: their \<open>asString\<close> functions; \<open>DnsCodec\<close>, \<open>DnsName\<close>, \<open>DnsSafety\<close>: only proofs.
  \<^item> \<open>ClientSocket\<close>, \<open>UdpSocket\<close>, \<open>DnsSocket\<close>: the files of these names under \<open>server/\<close>.
  \<^item> \<open>Session\<close> (state, creation, shutdown), \<open>Relay\<close> (\<open>_session_socket_send\<close>), \<open>Handlers\<close> (everything else of
    \<open>server/session.cxx\<close> and \<open>server/remote_socket.cxx\<close>); each definition is one function of the source.
  \<^item> \<open>Config\<close>: \<open>server/server_params.hpp\<close>, the constructor and configuration of \<open>server/server.cxx\<close>, \<open>server/utils.cxx\<close>,
    \<open>core/utils.cxx\<close>; \<open>Server\<close>: the sessions and the event loop of \<open>server/server.cxx\<close>.
  \<^item> \<open>Decimal\<close>: numbers in text; \<open>Argparse\<close>: the part of \<open>argparse.hpp\<close> that the program reaches; \<open>CommandLine\<close>:
    \<open>parse_params\<close> of \<open>cli.cxx\<close>; \<open>Program\<close>: its main function and signal handler.

  A field of a class is a field of a record with its name; a pointer to a session is the number of its creation,
  looked up in \<open>sv_heap\<close>, where \<open>delete\<close> removes it, so that following it later is a fault. A pointer that may be null is
  an option. A socket is its descriptor, -1 after it is closed.

  \<^bold>\<open>What is proved.\<close> Each theorem is preceded by the sentence it states, with its id.
  \<^item> The whole program: \<open>Polling\<close> composes the loop, the handlers, the registrations (\<open>Registration\<close>: what a session
    has registered with epoll are its own sockets under their own pointers) and a poller that reports only
    registered descriptors; \<open>Program\<close> starts it from the command line. \<open>Interrupts\<close>: the loop as single steps with
    signals between them, and how the failure of one client ends it. \<open>SessionFaults\<close>, \<open>SessionPointers\<close>: which faults a
    handler can end with, in any state and in a session that owns the sockets of its state. \<open>ServerSafety\<close>: one batch of events, the deletion
    of sessions and the end of serving.
  \<^item> Authentication: \<open>SessionPhases\<close> (the states change only along the protocol's transitions), \<open>Authentication\<close> (no service
    without the credentials, over every run of a session).
  \<^item> Relaying: \<open>Relay\<close>, \<open>Forwarding\<close> (a session refines a pair of lossless channels; back-pressure stops the
    reading side and a flush starts it again).
  \<^item> Commands: \<open>Connecting\<close>, \<open>Requests\<close> (which socket is connected or bound to what, which reply the client gets, in which
    order addresses are tried); \<open>UdpSocket\<close> (encapsulation); \<open>DnsSocket\<close> (query and answer).
  \<^item> Formats: \<open>S5\<close> (the accessors against RFC 1928 as a list of bytes), \<open>DnsName\<close>, \<open>DnsRecords\<close>, \<open>DnsMessage\<close>, \<open>DnsSafety\<close>
    (what is encoded, with link compression, decodes to the same message; decoding of any bytes ends, inside the buffer),
    \<open>DnsPrint\<close>, \<open>Options\<close> (settings on the command line).
  \<^item> Errors: some theorems state what the code does where it is wrong, on the inputs for which it is.

  \<^bold>\<open>Interfaces.\<close> \<open>wire_codec\<close> and \<open>byte_codec\<close> (\<open>DnsCodec\<close>): a writer and a reader of a DNS field, interpreted on every
  kind of field and composed to messages. \<open>lossless_channel\<close> (\<open>Relay\<close>): what a relay promises, interpreted on
  \<open>session_socket_send\<close>. \<open>address_view\<close> (\<open>S5\<close>): an address within a message. \<open>session_invariant\<close> (\<open>SessionRules\<close>): what every handler
  preserves, interpreted on the state machine, on the history and on the sockets a session has. \<open>io_faults\<close>
  (\<open>SessionFaults\<close>): a judgement of faults that tolerates those of input and output, interpreted for the handlers, the
  server and the program. \<open>socket_user\<close> (\<open>SessionPointers\<close>) extends both: under what a handler follows the pointers of its
  session, interpreted on every state and on the sessions that own their sockets.

  \<^bold>\<open>Loops and fuel.\<close> The event loop may run for ever: \<open>serve_loop k\<close> is its first \<open>k\<close> rounds and returns whether it
  ended; the theorems hold for every \<open>k\<close>. All other loops end and are total functions: those over lists by
  recursion, a batch of events by the events left, the labels of a name by the bytes left or by the link
  positions, which only go backwards, the attempts to connect by the addresses left, and the command line by the strings and
  positional arguments left.

  \<^bold>\<open>Not modelled.\<close>
  \<^item> The calls of the log macros and the greeting within the other models: they print, and nothing reads what they print.
    Log lines with file and line, and builds without logs.
  \<^item> Of \<open>argparse.hpp\<close>, a third-party header: subparsers, exclusive groups, \<open>parse_known_args\<close>, \<open>store_into\<close>, other number
    formats, help texts; the program does not reach them, or they only print.
  \<^item> The branches under \<open>_WIN32\<close> and \<open>wepoll\<close>; the Linux build is modelled.
  \<^item> A user's subclass of \<open>ServerHook\<close>: the hooks are the default ones. The C library's \<open>inet_pton\<close> and \<open>inet_ntop\<close> are
    parameters.
  \<^item> The signal handler within a step: \<open>Interrupts\<close> runs it between any two steps of the loop.
  \<^item> Accessors that only return a field are the record's selectors. Destructors of DNS objects free memory that
    nothing uses afterwards.
\<close>

end
